(* ===== verification/Core_Types.thy ===== *)
theory Core_Types
  imports Prelude
begin

section \<open>Canonical newtypes (crates/core-types)\<close>

text \<open>
  The newtypes every other crate is written in: exact six-decimal amounts over \<open>u64\<close>, bounded
  small integers, wallet addresses and identifiers. A Rust \<open>String\<close> is a \<open>string\<close> of bytes, so
  its order is the byte order of \<open>List_Lexorder\<close> and \<open>Char_ord\<close>. The human-readable message of
  \<open>ParseError\<close> and \<open>ConvError\<close> is dropped; every other payload of an error is kept. The
  \<open>rust_decimal\<close> conversions of \<open>amount.rs\<close> and \<open>price.rs\<close> belong to a third-party crate and are
  not part of this theory; a price is a value of the type parameter \<open>'p\<close> wherever it is carried.
\<close>

datatype core_error =
    OutOfRange string
  | ParseError
  | ScaleError u32 u32
  | LossyRounding
  | ConvError

datatype side = Buy | Sell

datatype leader_action = Entry | Add | Trim | Exit | Flip | Unknown

subsection \<open>Exact amounts\<close>

text \<open>
  \<open>CollateralAmount\<close> and \<open>ShareAmount\<close> are the two instances of the macro \<open>exact_amount\<close>; the
  operations take the field name that the macro substitutes into the error.
\<close>

type_synonym collateral_amount = u64
type_synonym share_amount = u64

definition ATOMIC_SCALE :: u64 where
  "ATOMIC_SCALE = 1000000"

definition amount_from_whole :: "string \<Rightarrow> u64 \<Rightarrow> core_error + u64" where
  "amount_from_whole field whole = ok_or (OutOfRange field) (checked_mul whole ATOMIC_SCALE)"

definition amount_checked_add :: "string \<Rightarrow> u64 \<Rightarrow> u64 \<Rightarrow> core_error + u64" where
  "amount_checked_add field a b = ok_or (OutOfRange field) (checked_add a b)"

definition amount_checked_sub :: "string \<Rightarrow> u64 \<Rightarrow> u64 \<Rightarrow> core_error + u64" where
  "amount_checked_sub field a b = ok_or (OutOfRange field) (checked_sub a b)"

abbreviation share_checked_add :: "share_amount \<Rightarrow> share_amount \<Rightarrow> core_error + share_amount" where
  "share_checked_add \<equiv> amount_checked_add ''ShareAmount''"

abbreviation share_checked_sub :: "share_amount \<Rightarrow> share_amount \<Rightarrow> core_error + share_amount" where
  "share_checked_sub \<equiv> amount_checked_sub ''ShareAmount''"

abbreviation collateral_checked_add ::
    "collateral_amount \<Rightarrow> collateral_amount \<Rightarrow> core_error + collateral_amount" where
  "collateral_checked_add \<equiv> amount_checked_add ''CollateralAmount''"

lemma amount_checked_add_Inr_iff [checked_simps]:
  "amount_checked_add f a b = Inr c \<longleftrightarrow> unat c = unat a + unat b"
  by (simp add: amount_checked_add_def result_simps checked_simps)

lemma amount_checked_sub_Inr_iff [checked_simps]:
  "amount_checked_sub f a b = Inr c \<longleftrightarrow> unat a = unat b + unat c"
  by (simp add: amount_checked_sub_def result_simps checked_simps)

lemma amount_checked_add_Inl_iff [checked_simps]:
  "amount_checked_add f a b = Inl e \<longleftrightarrow> e = OutOfRange f \<and> 2 ^ 64 \<le> unat a + unat b"
  by (auto simp: amount_checked_add_def result_simps checked_simps)

lemma amount_checked_sub_Inl_iff [checked_simps]:
  "amount_checked_sub f a b = Inl e \<longleftrightarrow> e = OutOfRange f \<and> a < b"
  by (auto simp: amount_checked_sub_def result_simps checked_simps)

subsection \<open>Bounded small integers\<close>

type_synonym reconstruction_quality = u8
type_synonym probability_ppm = u32
type_synonym basis_points = i32

definition reconstruction_quality_new :: "u8 \<Rightarrow> core_error + reconstruction_quality" where
  "reconstruction_quality_new n =
     (if n > 100 then Inl (OutOfRange ''ReconstructionQuality'') else Inr n)"

definition probability_ppm_new :: "u32 \<Rightarrow> core_error + probability_ppm" where
  "probability_ppm_new n =
     (if n > 1000000 then Inl (OutOfRange ''ProbabilityPpm'') else Inr n)"

definition kalshi_price_cents_new :: "u8 \<Rightarrow> core_error + u8" where
  "kalshi_price_cents_new n =
     (if n > 100 then Inl (OutOfRange ''KalshiPriceCents'') else Inr n)"

text \<open>\<open>div_euclid\<close> by a positive divisor is the flooring \<open>div\<close> of \<open>int\<close>.\<close>

definition BUCKET_MS :: i64 where
  "BUCKET_MS = 1000"

definition from_observed_at_ms :: "i64 \<Rightarrow> i64" where
  "from_observed_at_ms ms = ms div BUCKET_MS"

subsection \<open>Identifiers\<close>

type_synonym market_id = string
type_synonym source_trade_id = string
type_synonym outcome_id = u16
type_synonym event_seq = u64
type_synonym source_timestamp = int

record market_outcome_id =
  mo_market :: market_id
  mo_outcome :: outcome_id

definition market_outcome :: "market_id \<Rightarrow> outcome_id \<Rightarrow> market_outcome_id" where
  "market_outcome m oc = \<lparr>mo_market = m, mo_outcome = oc\<rparr>"

lemma market_outcome_sel [simp]:
  "mo_market (market_outcome m oc) = m" "mo_outcome (market_outcome m oc) = oc"
  by (simp_all add: market_outcome_def)

lemma market_outcome_inject [simp]:
  "market_outcome m oc = market_outcome m' oc' \<longleftrightarrow> m = m' \<and> oc = oc'"
  by (simp add: market_outcome_def)

definition is_ascii_digit :: "char \<Rightarrow> bool" where
  "is_ascii_digit c \<longleftrightarrow> 48 \<le> (of_char c :: nat) \<and> (of_char c :: nat) \<le> 57"

definition is_lower_hex_letter :: "char \<Rightarrow> bool" where
  "is_lower_hex_letter c \<longleftrightarrow> 97 \<le> (of_char c :: nat) \<and> (of_char c :: nat) \<le> 102"

definition is_upper_hex_letter :: "char \<Rightarrow> bool" where
  "is_upper_hex_letter c \<longleftrightarrow> 65 \<le> (of_char c :: nat) \<and> (of_char c :: nat) \<le> 70"

datatype source_trade_identity_version = TransactionHashV1 | ReconciledGroupV2

definition identity_version :: "source_trade_id \<Rightarrow> source_trade_identity_version" where
  "identity_version s =
     (if length s = 67 \<and> take 3 s = ''g2:'' \<and>
         list_all (\<lambda>c. is_ascii_digit c \<or> is_lower_hex_letter c) (drop 3 s)
      then ReconciledGroupV2 else TransactionHashV1)"

definition is_reconciled_v2 :: "source_trade_id \<Rightarrow> bool" where
  "is_reconciled_v2 s \<longleftrightarrow> identity_version s = ReconciledGroupV2"

definition is_canonical_transaction_hash_v1 :: "source_trade_id \<Rightarrow> bool" where
  "is_canonical_transaction_hash_v1 s \<longleftrightarrow>
     length s = 66 \<and> take 2 s = ''0x'' \<and>
     list_all (\<lambda>c. is_ascii_digit c \<or> is_lower_hex_letter c \<or> is_upper_hex_letter c) (drop 2 s)"

text \<open>The two identity generations never overlap: a group key is not a transaction hash.\<close>

lemma identity_generations_disjoint:
  "is_reconciled_v2 s \<Longrightarrow> \<not> is_canonical_transaction_hash_v1 s"
  by (auto simp: is_reconciled_v2_def identity_version_def is_canonical_transaction_hash_v1_def
      split: if_splits)

definition account_id_new :: "string \<Rightarrow> core_error + string" where
  "account_id_new slug =
     (if slug = [] \<or> length slug > 32 then Inl ParseError
      else if \<not> list_all (\<lambda>b. (97 \<le> (of_char b :: nat) \<and> (of_char b :: nat) \<le> 122) \<or>
                is_ascii_digit b \<or> b = CHR ''_'' \<or> b = CHR ''-'') slug
      then Inl ParseError
      else Inr slug)"

subsection \<open>Wallet addresses\<close>

text \<open>\<open>WalletAddress([u8; 20])\<close>: the list of its bytes; \<open>wf_wallet\<close> is the array length.\<close>

type_synonym wallet_address = "u8 list"

definition wf_wallet :: "wallet_address \<Rightarrow> bool" where
  "wf_wallet w \<longleftrightarrow> length w = 20"

definition hex_nibble :: "char \<Rightarrow> u8 option" where
  "hex_nibble b =
     (if is_ascii_digit b then Some (word_of_nat (of_char b - 48))
      else if is_lower_hex_letter b then Some (word_of_nat (of_char b - 97 + 10))
      else if is_upper_hex_letter b then Some (word_of_nat (of_char b - 65 + 10))
      else None)"

fun hex_chunks :: "string \<Rightarrow> core_error + u8 list" where
  "hex_chunks (a # b # rest) =
     (case hex_nibble a of None \<Rightarrow> Inl ParseError
      | Some hi \<Rightarrow> (case hex_nibble b of None \<Rightarrow> Inl ParseError
        | Some lo \<Rightarrow> (case hex_chunks rest of Inl e \<Rightarrow> Inl e
          | Inr bs \<Rightarrow> Inr (or (push_bit 4 hi) lo # bs))))"
| "hex_chunks _ = Inr []"

definition wallet_from_hex :: "string \<Rightarrow> core_error + wallet_address" where
  "wallet_from_hex s =
     (if take 2 s \<noteq> ''0x'' then Inl ParseError
      else if length (drop 2 s) \<noteq> 40 then Inl ParseError
      else hex_chunks (drop 2 s))"

definition hex_digit :: "nat \<Rightarrow> char" where
  "hex_digit n = (if n < 10 then char_of (48 + n) else char_of (87 + n))"

definition byte_hex :: "u8 \<Rightarrow> string" where
  "byte_hex b = [hex_digit (unat b div 16), hex_digit (unat b mod 16)]"

definition wallet_display :: "wallet_address \<Rightarrow> string" where
  "wallet_display w = ''0x'' @ concat (map byte_hex w)"

lemma of_char_hex_digit: "n < 16 \<Longrightarrow> of_char (hex_digit n) = (if n < 10 then 48 + n else 87 + n)"
  by (auto simp: hex_digit_def)

lemma hex_nibble_hex_digit: "n < 16 \<Longrightarrow> hex_nibble (hex_digit n) = Some (word_of_nat n)"
  by (auto simp: hex_nibble_def is_ascii_digit_def is_lower_hex_letter_def of_char_hex_digit)

lemma nibbles_join: "or (push_bit 4 (word_of_nat (unat b div 16))) (word_of_nat (unat b mod 16)) = (b :: u8)"
proof -
  have small: "unat b < 256" using unat_less_len [of b] by simp
  then have hi: "word_of_nat (unat b div 16) = drop_bit 4 b"
    by (simp add: drop_bit_eq_div word_unat_eq_iff unat_div unsigned_of_nat take_bit_eq_mod)
  from small have lo: "word_of_nat (unat b mod 16) = take_bit 4 b"
    by (simp add: take_bit_eq_mod word_unat_eq_iff unat_mod unsigned_of_nat)
  show ?thesis
    by (simp only: hi lo) (rule bit_eqI, auto simp: bit_simps)
qed

lemma hex_chunks_display: "hex_chunks (concat (map byte_hex w)) = Inr w"
proof (induction w)
  case Nil
  then show ?case by simp
next
  case (Cons b w)
  have "unat b < 256" using unat_less_len [of b] by simp
  then have "hex_nibble (hex_digit (unat b div 16)) = Some (word_of_nat (unat b div 16))"
    and "hex_nibble (hex_digit (unat b mod 16)) = Some (word_of_nat (unat b mod 16))"
    by (auto intro!: hex_nibble_hex_digit)
  with Cons.IH show ?case by (simp add: byte_hex_def nibbles_join)
qed

lemma length_concat_byte_hex: "length (concat (map byte_hex w)) = 2 * length w"
  by (induction w) (simp_all add: byte_hex_def)

lemma hex_chunks_length: "hex_chunks s = Inr w \<Longrightarrow> even (length s) \<Longrightarrow> length s = 2 * length w"
proof (induction s arbitrary: w rule: hex_chunks.induct)
  case (1 a b rest)
  then show ?case by (auto split: option.splits sum.splits)
qed auto

end
