(* ===== verification/Copy_Signal.thy ===== *)
theory Copy_Signal
  imports Core_Types
begin

section \<open>Leader-trade classification (crates/copy-signal-engine)\<close>

text \<open>
  The pure classifier that turns a leader's trade and the leader's position before it into a
  \<open>leader_signal\<close>. Records carry the fields of \<open>snapshot.rs\<close>, \<open>signal.rs\<close>, \<open>config.rs\<close> and of the
  watchlist types of \<open>crates/trader-index/src/watchlist.rs\<close>. The \<open>HashMap\<close> of positions is a map; its
  iteration order is never used. The price type is the parameter \<open>'p\<close>.
\<close>

subsection \<open>Data\<close>

datatype trade_provenance = RestPoll | ActivityWs

record 'p incoming_trade =
  it_wallet :: wallet_address
  it_market_id :: market_id
  it_outcome_id :: outcome_id
  it_side :: side
  it_price :: 'p
  it_contracts :: share_amount
  it_observed_at :: source_timestamp
  it_received_at :: source_timestamp
  it_source_trade_id :: source_trade_id
  it_transaction_hash :: "string option"
  it_provenance :: trade_provenance

record position_state =
  long_contracts :: share_amount
  short_contracts :: share_amount

definition default_state :: position_state where
  "default_state = \<lparr>long_contracts = 0, short_contracts = 0\<rparr>"

record position_snapshot =
  ps_wallet :: wallet_address
  positions :: "market_outcome_id \<rightharpoonup> position_state"

record signal_config =
  add_high_confidence_threshold_ppm :: u32
  exit_high_confidence_threshold_ppm :: u32
  near_close_remaining_pct :: u8

definition signal_config_default :: signal_config where
  "signal_config_default =
     \<lparr>add_high_confidence_threshold_ppm = 700000,
      exit_high_confidence_threshold_ppm = 700000,
      near_close_remaining_pct = 10\<rparr>"

datatype watchlist_tier = Active | Incubator

record watchlist_entry =
  we_wallet :: wallet_address
  we_tier :: watchlist_tier
  we_leader_score_bps :: basis_points
  we_lcb_5pct_bps :: basis_points
  we_win_rate_bps :: basis_points
  we_closed_trades_in_window :: u32
  we_reconstruction_quality :: reconstruction_quality

record watchlist =
  wl_entries :: "watchlist_entry list"
  wl_snapshot_at :: source_timestamp
  wl_active_count :: nat
  wl_incubator_count :: nat

record 'p leader_signal =
  ls_leader :: wallet_address
  ls_venue :: string
  ls_market_id :: market_id
  ls_outcome_id :: outcome_id
  ls_action :: leader_action
  ls_leader_side :: side
  ls_leader_price :: 'p
  ls_leader_size :: share_amount
  ls_observed_at :: source_timestamp
  ls_received_at :: source_timestamp
  ls_reconstruction_quality :: reconstruction_quality
  ls_source_trade_id :: source_trade_id
  ls_action_confidence_ppm :: probability_ppm

subsection \<open>Operations\<close>

text \<open>\<open>u128\<close> holds the products of two \<open>u64\<close>-range factors exactly, so they are taken in \<open>nat\<close>.\<close>

definition is_near_close :: "share_amount \<Rightarrow> share_amount \<Rightarrow> signal_config \<Rightarrow> bool" where
  "is_near_close remaining original config =
     (if original = 0 then True
      else unat remaining * 100 \<le> unat original * unat (near_close_remaining_pct config))"

definition lookup_state ::
    "position_snapshot option \<Rightarrow> market_id \<Rightarrow> outcome_id \<Rightarrow> position_state" where
  "lookup_state position m oc =
     (case position of None \<Rightarrow> default_state
      | Some p \<Rightarrow> (case positions p (market_outcome m oc) of None \<Rightarrow> default_state | Some s \<Rightarrow> s))"

definition classify_side ::
    "share_amount \<Rightarrow> share_amount \<Rightarrow> share_amount \<Rightarrow> signal_config \<Rightarrow> leader_action" where
  \<comment> \<open>one arm of the match on \<open>trade.side\<close>: \<open>opposite\<close> is the inventory the trade closes,
      \<open>same\<close> the inventory it adds to\<close>
  "classify_side opposite same qty config =
     (if opposite = 0 then (if same = 0 then Entry else Add)
      else if qty > opposite then Flip
      else if is_near_close (saturating_sub opposite qty) opposite config then Exit
      else Trim)"

definition classify_leader_action ::
    "'p incoming_trade \<Rightarrow> position_snapshot option \<Rightarrow> reconstruction_quality \<Rightarrow> signal_config
     \<Rightarrow> leader_action" where
  "classify_leader_action trade position quality config =
     (let state = lookup_state position (it_market_id trade) (it_outcome_id trade) in
      if quality = 0 \<and> position = None then Unknown
      else (case it_side trade of
              Buy \<Rightarrow> classify_side (short_contracts state) (long_contracts state)
                       (it_contracts trade) config
            | Sell \<Rightarrow> classify_side (long_contracts state) (short_contracts state)
                       (it_contracts trade) config))"

definition is_on_active_watchlist :: "wallet_address \<Rightarrow> watchlist \<Rightarrow> bool" where
  "is_on_active_watchlist w wl =
     list_ex (\<lambda>e. we_wallet e = w \<and> we_tier e = Active) (wl_entries wl)"

definition is_action_eligible :: "leader_action \<Rightarrow> probability_ppm \<Rightarrow> signal_config \<Rightarrow> bool" where
  "is_action_eligible action confidence config =
     (case action of
        Unknown \<Rightarrow> False
      | Add \<Rightarrow> confidence \<ge> add_high_confidence_threshold_ppm config
      | Trim \<Rightarrow> confidence \<ge> exit_high_confidence_threshold_ppm config
      | Exit \<Rightarrow> confidence \<ge> exit_high_confidence_threshold_ppm config
      | Entry \<Rightarrow> True
      | Flip \<Rightarrow> True)"

definition confidence_from_quality :: "reconstruction_quality \<Rightarrow> probability_ppm" where
  "confidence_from_quality q = ucast q * 10000"

definition classify_trade ::
    "'p incoming_trade \<Rightarrow> position_snapshot option \<Rightarrow> watchlist \<Rightarrow> reconstruction_quality \<Rightarrow> string
     \<Rightarrow> signal_config \<Rightarrow> 'p leader_signal option" where
  "classify_trade trade position wl quality venue config =
     (if \<not> is_on_active_watchlist (it_wallet trade) wl then None
      else
        let action = classify_leader_action trade position quality config;
            confidence = confidence_from_quality quality
        in if \<not> is_action_eligible action confidence config then None
           else Some
             \<lparr>ls_leader = it_wallet trade,
              ls_venue = venue,
              ls_market_id = it_market_id trade,
              ls_outcome_id = it_outcome_id trade,
              ls_action = action,
              ls_leader_side = it_side trade,
              ls_leader_price = it_price trade,
              ls_leader_size = it_contracts trade,
              ls_observed_at = it_observed_at trade,
              ls_received_at = it_received_at trade,
              ls_reconstruction_quality = quality,
              ls_source_trade_id = it_source_trade_id trade,
              ls_action_confidence_ppm = confidence\<rparr>)"

subsection \<open>Lemmas\<close>

lemma classify_side_simps:
  "opposite = 0 \<Longrightarrow> same = 0 \<Longrightarrow> classify_side opposite same qty config = Entry"
  "opposite = 0 \<Longrightarrow> same \<noteq> 0 \<Longrightarrow> classify_side opposite same qty config = Add"
  "opposite \<noteq> 0 \<Longrightarrow> opposite < qty \<Longrightarrow> classify_side opposite same qty config = Flip"
  by (simp_all add: classify_side_def)

lemma classify_side_Entry_iff:
  "classify_side opposite same qty config = Entry \<longleftrightarrow> opposite = 0 \<and> same = 0"
  by (simp add: classify_side_def)

lemma classify_side_not_Unknown: "classify_side opposite same qty config \<noteq> Unknown"
  by (simp add: classify_side_def)

lemma is_near_close_full: "is_near_close 0 original config"
  by (simp add: is_near_close_def)

lemma unat_confidence_from_quality: "unat (confidence_from_quality q) = unat q * 10000"
proof -
  have small: "unat q < 256" using unat_less_len [of q] by simp
  have "unat (ucast q :: u32) = unat q"
    using small by (simp add: unsigned_ucast_eq take_bit_eq_mod)
  then show ?thesis
    using small by (simp add: confidence_from_quality_def unat_word_ariths)
qed

end
