(* ===== verification/Decimal.thy ===== *)
theory Decimal
  imports Complex_Main Core_Types
begin

section \<open>The interface to rust_decimal\<close>

text \<open>
  \<open>rust_decimal::Decimal\<close> is a third-party type. It enters the model as a type parameter \<open>'d\<close> and a
  record of the operations the workspace calls on it; every definition that computes with decimals
  takes that record as an argument. \<open>decimal_value\<close> collects what the documentation of the crate says
  of the operations used here, relative to the rational number a decimal denotes: comparison and
  conversion from integers are exact, and \<open>floor\<close> and the checked conversions to integers return
  the exact value or \<open>None\<close>. Sums, products and quotients may round to 28 significant digits, so
  nothing is assumed of them here; a lemma that needs an exact one states so. \<open>round_dp_with_strategy\<close>
  is exact in the strategies used. \<open>exact_decimal\<close> is the instance by exact rational arithmetic at
  which the witnesses evaluate.
\<close>

datatype rounding_strategy = ToZero | ToPositiveInfinity | ToNegativeInfinity | MidpointNearestEven

record 'd decimal_ops =
  dec_zero :: 'd
  dec_one :: 'd
  dec_lt :: "'d \<Rightarrow> 'd \<Rightarrow> bool"
  dec_eq :: "'d \<Rightarrow> 'd \<Rightarrow> bool"
  dec_from_u64 :: "u64 \<Rightarrow> 'd"
  dec_from_i32 :: "i32 \<Rightarrow> 'd"
  dec_div :: "'d \<Rightarrow> 'd \<Rightarrow> 'd"
  dec_checked_add :: "'d \<Rightarrow> 'd \<Rightarrow> 'd option"
  dec_checked_sub :: "'d \<Rightarrow> 'd \<Rightarrow> 'd option"
  dec_checked_mul :: "'d \<Rightarrow> 'd \<Rightarrow> 'd option"
  dec_checked_div :: "'d \<Rightarrow> 'd \<Rightarrow> 'd option"
  dec_floor :: "'d \<Rightarrow> 'd"
  dec_fract :: "'d \<Rightarrow> 'd"
  dec_to_u64 :: "'d \<Rightarrow> u64 option"
  dec_to_i32 :: "'d \<Rightarrow> i32 option"
  dec_is_sign_negative :: "'d \<Rightarrow> bool"
  dec_scale :: "'d \<Rightarrow> u32"
  dec_normalized :: "'d \<Rightarrow> string"
  dec_normalize :: "'d \<Rightarrow> 'd"
  dec_new :: "i64 \<Rightarrow> u32 \<Rightarrow> 'd"
  dec_round_dp :: "u32 \<Rightarrow> rounding_strategy \<Rightarrow> 'd \<Rightarrow> 'd"

text \<open>Rounding a rational to \<open>k\<close> decimal places.\<close>

definition rat_round :: "nat \<Rightarrow> rounding_strategy \<Rightarrow> rat \<Rightarrow> rat" where
  "rat_round k strategy x =
     (let y = x * 10 ^ k in
      of_int (case strategy of
                ToZero \<Rightarrow> if 0 \<le> y then \<lfloor>y\<rfloor> else \<lceil>y\<rceil>
              | ToPositiveInfinity \<Rightarrow> \<lceil>y\<rceil>
              | ToNegativeInfinity \<Rightarrow> \<lfloor>y\<rfloor>
              | MidpointNearestEven \<Rightarrow>
                  if y - of_int \<lfloor>y\<rfloor> < 1 / 2 \<or> y - of_int \<lfloor>y\<rfloor> = 1 / 2 \<and> even \<lfloor>y\<rfloor> then \<lfloor>y\<rfloor> else \<lfloor>y\<rfloor> + 1)
        / 10 ^ k)"

definition decimal_value :: "'d decimal_ops \<Rightarrow> ('d \<Rightarrow> rat) \<Rightarrow> bool" where
  "decimal_value D val \<longleftrightarrow>
     val (dec_zero D) = 0 \<and> val (dec_one D) = 1 \<and>
     (\<forall>a b. dec_lt D a b \<longleftrightarrow> val a < val b) \<and>
     (\<forall>a b. dec_eq D a b \<longleftrightarrow> val a = val b) \<and>
     (\<forall>n. val (dec_from_u64 D n) = of_nat (unat n)) \<and>
     (\<forall>n. is_i32 n \<longrightarrow> val (dec_from_i32 D n) = of_int n) \<and>
     (\<forall>a. val (dec_floor D a) = of_int \<lfloor>val a\<rfloor>) \<and>
     (\<forall>a n. 0 \<le> val a \<longrightarrow> dec_to_u64 D a = Some n \<longrightarrow> int (unat n) = \<lfloor>val a\<rfloor>) \<and>
     (\<forall>a n. dec_to_i32 D a = Some n \<longrightarrow> is_i32 n \<and> (\<lfloor>val a\<rfloor> = n \<or> \<lceil>val a\<rceil> = n)) \<and>
     (\<forall>n k. unat k \<le> 28 \<longrightarrow> val (dec_new D n k) = of_int n / 10 ^ unat k) \<and>
     (\<forall>a k strategy. unat k \<le> 28 \<longrightarrow> val (dec_round_dp D k strategy a) = rat_round (unat k) strategy (val a))"

text \<open>
  What the crate documents of the rounding operations: a checked operation that returns a value
  returns the exact result up to the 28 digits a decimal carries, \<open>fract\<close> is zero exactly for
  integers, the sign bit of a negative value is set, and an amount divided by the atomic scale, at
  most twenty digits, is exact.
\<close>

definition near :: "rat \<Rightarrow> rat \<Rightarrow> bool" where
  "near x c \<longleftrightarrow> \<bar>c - x\<bar> \<le> (\<bar>x\<bar> + 1) / 10 ^ 27"

definition decimal_rounds :: "'d decimal_ops \<Rightarrow> ('d \<Rightarrow> rat) \<Rightarrow> bool" where
  "decimal_rounds D val \<longleftrightarrow>
     (\<forall>a b c. dec_checked_add D a b = Some c \<longrightarrow> near (val a + val b) (val c)) \<and>
     (\<forall>a b c. dec_checked_sub D a b = Some c \<longrightarrow> near (val a - val b) (val c)) \<and>
     (\<forall>a b c. dec_checked_mul D a b = Some c \<longrightarrow> near (val a * val b) (val c)) \<and>
     (\<forall>a b c. dec_checked_div D a b = Some c \<longrightarrow> val b \<noteq> 0 \<and> near (val a / val b) (val c)) \<and>
     (\<forall>a. val (dec_fract D a) = 0 \<longleftrightarrow> val a \<in> \<int>) \<and>
     (\<forall>a. \<not> dec_is_sign_negative D a \<longrightarrow> 0 \<le> val a) \<and>
     (\<forall>n. val (dec_div D (dec_from_u64 D n) (dec_from_u64 D 1000000)) = of_nat (unat n) / 10 ^ 6)"

definition dec_le :: "'d decimal_ops \<Rightarrow> 'd \<Rightarrow> 'd \<Rightarrow> bool" where
  "dec_le D a b \<longleftrightarrow> \<not> dec_lt D b a"

text \<open>\<open>Price::new\<close> and \<open>ShareAmount::to_decimal\<close>.\<close>

definition price_new :: "'d decimal_ops \<Rightarrow> 'd \<Rightarrow> core_error + 'd" where
  "price_new D d =
     (if dec_lt D d (dec_zero D) \<or> dec_lt D (dec_one D) d then Inl (OutOfRange ''Price'') else Inr d)"

definition amount_to_decimal :: "'d decimal_ops \<Rightarrow> u64 \<Rightarrow> 'd" where
  "amount_to_decimal D a = dec_div D (dec_from_u64 D a) (dec_from_u64 D ATOMIC_SCALE)"

definition amount_from_decimal_exact :: "'d decimal_ops \<Rightarrow> string \<Rightarrow> 'd \<Rightarrow> core_error + u64" where
  "amount_from_decimal_exact D field d =
     (if dec_is_sign_negative D d then Inl (OutOfRange field)
      else (case dec_checked_mul D d (dec_from_u64 D ATOMIC_SCALE) of
              None \<Rightarrow> Inl (OutOfRange field)
            | Some scaled \<Rightarrow>
                if \<not> dec_eq D (dec_fract D scaled) (dec_zero D) then Inl (ScaleError 6 (dec_scale D d))
                else ok_or (OutOfRange field) (dec_to_u64 D scaled)))"

definition basis_points_from_ratio_floor :: "'d decimal_ops \<Rightarrow> 'd \<Rightarrow> 'd \<Rightarrow> core_error + basis_points" where
  "basis_points_from_ratio_floor D numerator denominator =
     (if dec_le D denominator (dec_zero D) then Inl (OutOfRange ''BasisPoints'')
      else (case Option.bind (dec_checked_div D numerator denominator)
                   (\<lambda>ratio. dec_checked_mul D ratio (dec_from_i32 D 10000)) of
              None \<Rightarrow> Inl (OutOfRange ''BasisPoints'')
            | Some scaled \<Rightarrow> ok_or (OutOfRange ''BasisPoints'') (dec_to_i32 D (dec_floor D scaled))))"

definition dec_min :: "'d decimal_ops \<Rightarrow> 'd \<Rightarrow> 'd \<Rightarrow> 'd" where
  "dec_min D a b = (if dec_lt D b a then b else a)"

definition dec_max :: "'d decimal_ops \<Rightarrow> 'd \<Rightarrow> 'd \<Rightarrow> 'd" where
  "dec_max D a b = (if dec_lt D b a then a else b)"

definition exact_decimal :: "rat decimal_ops" where
  "exact_decimal =
     \<lparr>dec_zero = 0, dec_one = 1, dec_lt = (<), dec_eq = (=),
      dec_from_u64 = (\<lambda>n. of_nat (unat n)), dec_from_i32 = of_int, dec_div = (/),
      dec_checked_add = (\<lambda>a b. Some (a + b)), dec_checked_sub = (\<lambda>a b. Some (a - b)),
      dec_checked_mul = (\<lambda>a b. Some (a * b)), dec_checked_div = (\<lambda>a b. if b = 0 then None else Some (a / b)),
      dec_floor = (\<lambda>a. of_int \<lfloor>a\<rfloor>), dec_fract = (\<lambda>a. a - of_int \<lfloor>a\<rfloor>),
      dec_to_u64 = (\<lambda>a. if 0 \<le> \<lfloor>a\<rfloor> \<and> \<lfloor>a\<rfloor> < 2 ^ 64 then Some (word_of_int \<lfloor>a\<rfloor>) else None),
      dec_to_i32 = (\<lambda>a. if is_i32 \<lfloor>a\<rfloor> then Some \<lfloor>a\<rfloor> else None),
      dec_is_sign_negative = (\<lambda>a. a < 0), dec_scale = (\<lambda>_. 0), dec_normalized = (\<lambda>_. []),
      dec_normalize = (\<lambda>a. a), dec_new = (\<lambda>n k. of_int n / 10 ^ unat k),
      dec_round_dp = (\<lambda>k strategy a. rat_round (unat k) strategy a)\<rparr>"

lemma exact_decimal_value: "decimal_value exact_decimal (\<lambda>a. a)"
  by (auto simp: decimal_value_def exact_decimal_def is_i32_def unsigned_of_int take_bit_int_eq_self
      split: if_splits)

lemma exact_decimal_rounds: "decimal_rounds exact_decimal (\<lambda>a. a)"
proof -
  have "a \<in> \<int> \<longleftrightarrow> a = of_int \<lfloor>a\<rfloor>" for a :: rat by (metis Ints_cases Ints_of_int floor_of_int)
  then show ?thesis
    by (auto simp: decimal_rounds_def exact_decimal_def near_def not_less split: if_splits)
qed

lemma dec_order:
  assumes "decimal_value D val"
  shows "dec_lt D a b \<longleftrightarrow> val a < val b" "dec_le D a b \<longleftrightarrow> val a \<le> val b" "dec_eq D a b \<longleftrightarrow> val a = val b"
    "val (dec_zero D) = 0" "val (dec_one D) = 1" "val (dec_min D a b) = min (val a) (val b)"
  using assms by (auto simp: decimal_value_def dec_le_def dec_min_def)

lemma price_new_bounds:
  assumes "decimal_value D val" and "price_new D d = Inr p"
  shows "p = d \<and> 0 \<le> val d \<and> val d \<le> 1"
  using assms by (auto simp: price_new_def decimal_value_def split: if_splits)

end
