(* ===== verification/Activity.thy ===== *)
theory Activity
  imports Bytes Decimal
begin

section \<open>Reconciled activity (crates/source-polymarket-public/src/activity.rs)\<close>

text \<open>
  The activity types of the public data API, the collision-free group identity derived from a row's
  components, and the aggregation of the rows of one group. \<open>BLAKE3\<close> followed by \<open>to_hex\<close> is the
  argument \<open>hash_hex\<close>; \<open>OffsetDateTime::unix_timestamp\<close> is the argument \<open>unix_timestamp\<close>; a
  timestamp is an \<open>int\<close>. The JSON row parser of the file is not modelled.
\<close>

subsection \<open>Activity types\<close>

datatype activity_type =
    ActTrade | ActSplit | ActMerge | ActRedeem | ActReward | ActConversion | ActDeposit
  | ActWithdrawal | ActYield | ActMakerRebate | ActTakerRebate | ActReferralReward
  | ActUnknown string

fun activity_type_as_str :: "activity_type \<Rightarrow> string" where
  "activity_type_as_str ActTrade = ''TRADE''"
| "activity_type_as_str ActSplit = ''SPLIT''"
| "activity_type_as_str ActMerge = ''MERGE''"
| "activity_type_as_str ActRedeem = ''REDEEM''"
| "activity_type_as_str ActReward = ''REWARD''"
| "activity_type_as_str ActConversion = ''CONVERSION''"
| "activity_type_as_str ActDeposit = ''DEPOSIT''"
| "activity_type_as_str ActWithdrawal = ''WITHDRAWAL''"
| "activity_type_as_str ActYield = ''YIELD''"
| "activity_type_as_str ActMakerRebate = ''MAKER_REBATE''"
| "activity_type_as_str ActTakerRebate = ''TAKER_REBATE''"
| "activity_type_as_str ActReferralReward = ''REFERRAL_REWARD''"
| "activity_type_as_str (ActUnknown v) = v"

definition activity_type_from :: "string \<Rightarrow> activity_type" where
  "activity_type_from v =
     (if v = ''TRADE'' then ActTrade
      else if v = ''SPLIT'' then ActSplit
      else if v = ''MERGE'' then ActMerge
      else if v = ''REDEEM'' then ActRedeem
      else if v = ''REWARD'' then ActReward
      else if v = ''CONVERSION'' then ActConversion
      else if v = ''DEPOSIT'' then ActDeposit
      else if v = ''WITHDRAWAL'' then ActWithdrawal
      else if v = ''YIELD'' then ActYield
      else if v = ''MAKER_REBATE'' then ActMakerRebate
      else if v = ''TAKER_REBATE'' then ActTakerRebate
      else if v = ''REFERRAL_REWARD'' then ActReferralReward
      else ActUnknown v)"

fun is_position_changing :: "activity_type \<Rightarrow> bool" where
  "is_position_changing ActTrade = True"
| "is_position_changing ActSplit = True"
| "is_position_changing ActMerge = True"
| "is_position_changing ActRedeem = True"
| "is_position_changing ActConversion = True"
| "is_position_changing _ = False"

fun is_raw_only :: "activity_type \<Rightarrow> bool" where
  "is_raw_only ActReward = True"
| "is_raw_only ActDeposit = True"
| "is_raw_only ActWithdrawal = True"
| "is_raw_only ActYield = True"
| "is_raw_only ActMakerRebate = True"
| "is_raw_only ActTakerRebate = True"
| "is_raw_only ActReferralReward = True"
| "is_raw_only _ = False"

fun type_requires_wallet_fence :: "activity_type \<Rightarrow> bool" where
  "type_requires_wallet_fence ActConversion = True"
| "type_requires_wallet_fence (ActUnknown _) = True"
| "type_requires_wallet_fence _ = False"

text \<open>Values that the deserializer can build: an unknown name is not one of the documented names.\<close>

definition wf_activity_type :: "activity_type \<Rightarrow> bool" where
  "wf_activity_type t \<longleftrightarrow> activity_type_from (activity_type_as_str t) = t"

subsection \<open>Group identity\<close>

record group_components =
  gc_activity_type :: activity_type
  gc_wallet :: wallet_address
  gc_transaction_hash :: string
  gc_condition_id :: "string option"
  gc_asset :: "string option"
  gc_outcome :: "outcome_id option"
  gc_side :: "side option"

record group_id =
  gid_key :: source_trade_id
  gid_components :: group_components

datatype identity_error = ComponentTooLong | ComponentMismatch string string

definition encode_length_prefixed :: "bytes \<Rightarrow> identity_error + bytes" where
  "encode_length_prefixed v =
     (if length v < 2 ^ 64 then Inr (be_bytes 8 (length v) @ v) else Inl ComponentTooLong)"

definition encode_present :: "bytes \<Rightarrow> identity_error + bytes" where
  "encode_present v = rbind (encode_length_prefixed v) (\<lambda>bs. Inr (1 # bs))"

definition encode_optional :: "bytes option \<Rightarrow> identity_error + bytes" where
  "encode_optional v =
     (case v of Some v \<Rightarrow> encode_present v | None \<Rightarrow> Inr (0 # be_bytes 8 0))"

definition side_bytes :: "side \<Rightarrow> bytes" where
  "side_bytes s = str_bytes (case s of Buy \<Rightarrow> ''BUY'' | Sell \<Rightarrow> ''SELL'')"

definition outcome_bytes :: "outcome_id \<Rightarrow> bytes" where
  "outcome_bytes oc = be_bytes 2 (unat oc)"

text \<open>Encode the fields in order and concatenate; the first failure is returned.\<close>

fun encode_all :: "(identity_error + bytes) list \<Rightarrow> identity_error + bytes" where
  "encode_all [] = Inr []"
| "encode_all (f # fs) = rbind f (\<lambda>b. rbind (encode_all fs) (\<lambda>bs. Inr (b @ bs)))"

definition ACTIVITY_GROUP_DOMAIN :: bytes where
  "ACTIVITY_GROUP_DOMAIN =
     str_bytes ''prediction-edge/source-polymarket-public/activity-group/v2'' @ [0]"

definition ACTIVITY_REVISION_DOMAIN :: bytes where
  "ACTIVITY_REVISION_DOMAIN =
     str_bytes ''prediction-edge/source-polymarket-public/activity-semantic-revision/v2'' @ [0]"

definition canonical_group_components :: "group_components \<Rightarrow> identity_error + bytes" where
  "canonical_group_components c =
     encode_all
       [encode_present ACTIVITY_GROUP_DOMAIN,
        encode_present (str_bytes (activity_type_as_str (gc_activity_type c))),
        encode_present (str_bytes (wallet_display (gc_wallet c))),
        encode_present (str_bytes (gc_transaction_hash c)),
        encode_optional (map_option str_bytes (gc_condition_id c)),
        encode_optional (map_option str_bytes (gc_asset c)),
        encode_optional (map_option outcome_bytes (gc_outcome c)),
        encode_optional (map_option side_bytes (gc_side c))]"

definition derive_group_id :: "(bytes \<Rightarrow> string) \<Rightarrow> group_components \<Rightarrow> identity_error + group_id" where
  "derive_group_id hash_hex c =
     rbind (canonical_group_components c)
       (\<lambda>canonical. Inr \<lparr>gid_key = ''g2:'' @ hash_hex canonical, gid_components = c\<rparr>)"

definition verify_components :: "(bytes \<Rightarrow> string) \<Rightarrow> group_id \<Rightarrow> identity_error + unit" where
  "verify_components hash_hex g =
     rbind (derive_group_id hash_hex (gid_components g))
       (\<lambda>derived. if gid_key derived = gid_key g then Inr ()
                  else Inl (ComponentMismatch (gid_key g) (gid_key derived)))"

subsection \<open>Rows and aggregates\<close>

datatype activity_transport = Rest | ActivityWebsocket | Replay

record 'd normalized_activity =
  na_activity_type :: activity_type
  na_source_id :: string
  na_wallet :: wallet_address
  na_transaction_hash :: string
  na_condition_id :: "string option"
  na_asset :: "string option"
  na_outcome :: "outcome_id option"
  na_side :: "side option"
  na_price :: 'd
  na_share_amount :: share_amount
  na_source_usdc_amount :: collateral_amount
  na_is_combo :: bool
  na_source_time :: source_timestamp
  na_observed_at :: source_timestamp
  na_received_at :: source_timestamp
  na_raw_row_hash :: string
  na_raw_row_json :: string
  na_parser_version :: u32
  na_schema_version :: u32
  na_transport :: activity_transport

datatype anomaly_kind = PriceOutOfRange | UnmappedOutcome | UnrepresentableDecimal

record activity_row_anomaly =
  an_row_index :: nat
  an_kind :: anomaly_kind
  an_field :: string
  an_wallet :: wallet_address
  an_source_time :: source_timestamp
  an_activity_type :: activity_type
  an_transaction_hash :: string
  an_condition_id :: "string option"
  an_asset :: "string option"
  an_side :: "side option"
  an_is_combo :: bool
  an_raw_row_hash :: string

definition row_group_id :: "(bytes \<Rightarrow> string) \<Rightarrow> 'd normalized_activity \<Rightarrow> identity_error + group_id" where
  "row_group_id hash_hex r =
     derive_group_id hash_hex
       \<lparr>gc_activity_type = na_activity_type r,
        gc_wallet = na_wallet r,
        gc_transaction_hash = na_transaction_hash r,
        gc_condition_id = na_condition_id r,
        gc_asset = na_asset r,
        gc_outcome = na_outcome r,
        gc_side = na_side r\<rparr>"

definition row_requires_wallet_fence :: "'d normalized_activity \<Rightarrow> bool" where
  "row_requires_wallet_fence r =
     (case na_activity_type r of
        ActConversion \<Rightarrow> na_share_amount r \<noteq> 0
      | other \<Rightarrow> type_requires_wallet_fence other)"

definition is_ordinary_position_change :: "'d normalized_activity \<Rightarrow> bool" where
  "is_ordinary_position_change r \<longleftrightarrow>
     na_share_amount r \<noteq> 0 \<and> is_position_changing (na_activity_type r) \<and>
     \<not> type_requires_wallet_fence (na_activity_type r) \<and> \<not> na_is_combo r"

record 'd activity_aggregate =
  agg_group_id :: group_id
  agg_row_count :: u64
  agg_share_sum :: share_amount
  agg_price_weighted_share_sum :: 'd
  agg_source_usdc_sum :: collateral_amount
  agg_source_time :: source_timestamp
  agg_is_combo :: bool
  agg_semantic_revision :: string

datatype revision_comparison = RevEqual | RevChanged | RevDifferentGroup

datatype 'd aggregation_error =
    AggIdentity identity_error
  | CausalAmbiguity string i64 i64
  | MixedComboState string
  | EmptyGroup string
  | AmountOverflow string
  | PriceWeightedSumOverflow string
  | ZeroShareSum string
  | InvalidWeightedPrice string 'd

definition semantically_equal :: "'d activity_aggregate \<Rightarrow> 'd activity_aggregate \<Rightarrow> bool" where
  "semantically_equal a b \<longleftrightarrow>
     agg_group_id a = agg_group_id b \<and> agg_semantic_revision a = agg_semantic_revision b"

definition compare_revision :: "'d activity_aggregate \<Rightarrow> 'd activity_aggregate \<Rightarrow> revision_comparison" where
  "compare_revision a b =
     (if agg_group_id a \<noteq> agg_group_id b then RevDifferentGroup
      else if agg_semantic_revision a = agg_semantic_revision b then RevEqual
      else RevChanged)"

definition volume_weighted_price ::
    "'d decimal_ops \<Rightarrow> 'd activity_aggregate \<Rightarrow> 'd aggregation_error + 'd" where
  "volume_weighted_price D a =
     (let gid = gid_key (agg_group_id a) in
      if agg_share_sum a = 0 then Inl (ZeroShareSum gid)
      else (case dec_checked_div D (agg_price_weighted_share_sum a) (amount_to_decimal D (agg_share_sum a)) of
              None \<Rightarrow> Inl (PriceWeightedSumOverflow gid)
            | Some v \<Rightarrow> map_err (\<lambda>_. InvalidWeightedPrice gid v) (price_new D v)))"


subsection \<open>Semantic revision\<close>

text \<open>
  \<open>unix_timestamp\<close> reads a timestamp's epoch seconds and \<open>dec_normalized\<close> is the text of the
  normalized price, \<open>price.0.normalize().to_string()\<close>.
\<close>

definition i64_be_bytes :: "i64 \<Rightarrow> bytes" where
  "i64_be_bytes t = be_bytes 8 (nat (t mod 2 ^ 64))"

definition effect_component_fields :: "'d normalized_activity \<Rightarrow> (identity_error + bytes) list" where
  "effect_component_fields r =
     [encode_optional (map_option str_bytes (na_condition_id r)),
      encode_optional (map_option str_bytes (na_asset r)),
      encode_optional (map_option outcome_bytes (na_outcome r)),
      encode_optional (map_option side_bytes (na_side r))]"

fun effect_fields :: "activity_type \<Rightarrow> 'd normalized_activity \<Rightarrow> (identity_error + bytes) list" where
  "effect_fields ActTrade r = encode_present (str_bytes ''trade'') # effect_component_fields r"
| "effect_fields ActSplit r = encode_present (str_bytes ''split'') # effect_component_fields r"
| "effect_fields ActMerge r = encode_present (str_bytes ''merge'') # effect_component_fields r"
| "effect_fields ActRedeem r = encode_present (str_bytes ''redeem'') # effect_component_fields r"
| "effect_fields ActConversion r = encode_present (str_bytes ''conversion'') # effect_component_fields r"
| "effect_fields (ActUnknown _) r = encode_present (str_bytes ''unknown'') # effect_component_fields r"
| "effect_fields _ r = [encode_present (str_bytes ''raw_only'')]"

definition semantic_row_encoding ::
    "'d decimal_ops \<Rightarrow> (source_timestamp \<Rightarrow> i64) \<Rightarrow> 'd normalized_activity \<Rightarrow> identity_error + bytes" where
  "semantic_row_encoding D unix_timestamp r =
     encode_all
       ([encode_present (i64_be_bytes (unix_timestamp (na_source_time r))),
         encode_present (be_bytes 8 (unat (na_share_amount r))),
         encode_present (str_bytes (dec_normalized D (na_price r))),
         encode_present (str_bytes (if na_is_combo r then ''combo'' else ''ordinary''))]
        @ effect_fields (na_activity_type r) r)"

fun collect_results :: "('e + 'a) list \<Rightarrow> 'e + 'a list" where
  "collect_results [] = Inr []"
| "collect_results (r # rs) = rbind r (\<lambda>x. rbind (collect_results rs) (\<lambda>xs. Inr (x # xs)))"

definition derive_semantic_revision ::
    "'d decimal_ops \<Rightarrow> (bytes \<Rightarrow> string) \<Rightarrow> (source_timestamp \<Rightarrow> i64) \<Rightarrow> group_id
       \<Rightarrow> 'd normalized_activity list \<Rightarrow> 'd aggregation_error + string" where
  "derive_semantic_revision D hash_hex unix_timestamp g members =
     map_err AggIdentity
       (rbind (collect_results (map (semantic_row_encoding D unix_timestamp) members)) (\<lambda>encodings.
        rbind (encode_length_prefixed (str_bytes (gid_key g))) (\<lambda>key_part.
        if length members \<ge> 2 ^ 64 then Inl ComponentTooLong
        else rbind (encode_length_prefixed (be_bytes 8 (length members))) (\<lambda>count_part.
             rbind (encode_all (map encode_length_prefixed (sort encodings))) (\<lambda>row_parts.
             Inr (hash_hex (ACTIVITY_REVISION_DOMAIN @ key_part @ count_part @ row_parts)))))))"

subsection \<open>Aggregation\<close>

type_synonym 'd content_tuple = "u64 \<times> 'd \<times> u64 \<times> bool"

definition row_content :: "'d normalized_activity \<Rightarrow> 'd content_tuple" where
  "row_content r = (na_share_amount r, na_price r, na_source_usdc_amount r, na_is_combo r)"

fun content_lt :: "'d decimal_ops \<Rightarrow> 'd content_tuple \<Rightarrow> 'd content_tuple \<Rightarrow> bool" where
  "content_lt D (s, p, u, c) (s', p', u', c') \<longleftrightarrow>
     s < s' \<or> s = s' \<and> (dec_lt D p p' \<or> dec_eq D p p' \<and> (u < u' \<or> u = u' \<and> c < c'))"

fun content_eq :: "'d decimal_ops \<Rightarrow> 'd content_tuple \<Rightarrow> 'd content_tuple \<Rightarrow> bool" where
  "content_eq D (s, p, u, c) (s', p', u', c') \<longleftrightarrow> s = s' \<and> dec_eq D p p' \<and> u = u' \<and> c = c'"

fun insert_content :: "'d decimal_ops \<Rightarrow> 'd content_tuple \<Rightarrow> 'd content_tuple list \<Rightarrow> 'd content_tuple list" where
  "insert_content D x [] = [x]"
| "insert_content D x (y # ys) = (if content_lt D y x then y # insert_content D x ys else x # y # ys)"

definition listing_content :: "'d decimal_ops \<Rightarrow> 'd normalized_activity list \<Rightarrow> 'd content_tuple list" where
  "listing_content D rows = foldr (insert_content D) (map row_content rows) []"

definition rows_at ::
    "(source_timestamp \<Rightarrow> i64) \<Rightarrow> i64 \<Rightarrow> 'd normalized_activity list \<Rightarrow> 'd normalized_activity list" where
  "rows_at unix_timestamp t members = filter (\<lambda>m. unix_timestamp (na_source_time m) = t) members"

definition earliest_listing ::
    "'d decimal_ops \<Rightarrow> (source_timestamp \<Rightarrow> i64) \<Rightarrow> group_id \<Rightarrow> 'd normalized_activity list
       \<Rightarrow> 'd aggregation_error + 'd normalized_activity list" where
  "earliest_listing D unix_timestamp g members =
     (case sort (remdups (map (unix_timestamp \<circ> na_source_time) members)) of
        [] \<Rightarrow> Inl (EmptyGroup (gid_key g))
      | expected # later \<Rightarrow>
          (let earliest = rows_at unix_timestamp expected members;
               same = (\<lambda>t. list_all2 (content_eq D)
                              (listing_content D (rows_at unix_timestamp t members))
                              (listing_content D earliest)) in
           case find (\<lambda>t. \<not> same t) later of
             Some actual \<Rightarrow> Inl (CausalAmbiguity (gid_key g) expected actual)
           | None \<Rightarrow> Inr earliest))"

type_synonym 'd group_sums = "share_amount \<times> collateral_amount \<times> 'd"

fun sum_member ::
    "'d decimal_ops \<Rightarrow> string \<Rightarrow> bool \<Rightarrow> 'd group_sums \<Rightarrow> 'd normalized_activity
       \<Rightarrow> 'd aggregation_error + 'd group_sums" where
  "sum_member D key is_combo (shares, usdc, weighted_sum) m =
     (if na_is_combo m \<noteq> is_combo then Inl (MixedComboState key)
      else rbind (map_err (\<lambda>_. AmountOverflow key) (share_checked_add shares (na_share_amount m))) (\<lambda>shares'.
           rbind (map_err (\<lambda>_. AmountOverflow key) (collateral_checked_add usdc (na_source_usdc_amount m))) (\<lambda>usdc'.
           rbind (ok_or (PriceWeightedSumOverflow key)
                    (dec_checked_mul D (amount_to_decimal D (na_share_amount m)) (na_price m))) (\<lambda>weighted.
           rbind (ok_or (PriceWeightedSumOverflow key) (dec_checked_add D weighted_sum weighted)) (\<lambda>sum'.
           Inr (shares', usdc', sum'))))))"

definition aggregate_group ::
    "'d decimal_ops \<Rightarrow> (bytes \<Rightarrow> string) \<Rightarrow> (source_timestamp \<Rightarrow> i64) \<Rightarrow> group_id
       \<Rightarrow> 'd normalized_activity list \<Rightarrow> 'd aggregation_error + 'd activity_aggregate" where
  "aggregate_group D hash_hex unix_timestamp g members =
     (case members of
        [] \<Rightarrow> Inl (EmptyGroup (gid_key g))
      | listed # _ \<Rightarrow>
          if length members \<ge> 2 ^ 64 then Inl (AmountOverflow (gid_key g))
          else rbind (if list_all (\<lambda>m. na_source_time m = na_source_time listed) members then Inr members
                      else earliest_listing D unix_timestamp g members) (\<lambda>chosen.
               let leading = hd chosen in
               rbind (try_fold (sum_member D (gid_key g) (na_is_combo leading)) (0, 0, dec_zero D) chosen)
                 (\<lambda>(shares, usdc, weighted_sum).
               rbind (derive_semantic_revision D hash_hex unix_timestamp g chosen) (\<lambda>revision.
               Inr \<lparr>agg_group_id = g,
                    agg_row_count = of_nat (length members),
                    agg_share_sum = shares,
                    agg_price_weighted_share_sum = weighted_sum,
                    agg_source_usdc_sum = usdc,
                    agg_source_time = na_source_time leading,
                    agg_is_combo = na_is_combo leading,
                    agg_semantic_revision = revision\<rparr>))))"

text \<open>
  The hash map of the source is keyed by the whole group id; its entries are listed here in order of
  first appearance before the stable sort by key. The order of two groups with one key, which only a
  hash collision gives, is the one thing the source leaves open.
\<close>

definition aggregate_activity_rows ::
    "'d decimal_ops \<Rightarrow> (bytes \<Rightarrow> string) \<Rightarrow> (source_timestamp \<Rightarrow> i64)
       \<Rightarrow> 'd normalized_activity list \<Rightarrow> 'd aggregation_error + 'd activity_aggregate list" where
  "aggregate_activity_rows D hash_hex unix_timestamp rows =
     rbind (map_err AggIdentity (collect_results (map (row_group_id hash_hex) rows))) (\<lambda>ids.
       let keyed = zip ids rows;
           members = (\<lambda>g. map snd (filter (\<lambda>p. fst p = g) keyed)) in
       collect_results
         (map (\<lambda>g. aggregate_group D hash_hex unix_timestamp g (members g))
            (sort_key gid_key (remdups ids))))"

end
