(* ===== verification/Keyed_Steps.thy ===== *)
theory Keyed_Steps
  imports Prelude
begin

section \<open>Step systems whose steps touch named keys\<close>

text \<open>
  The contract of a partial step function that reads and writes only the keys its label names. The
  locale shows that a sequence of steps over disjoint classes of keys behaves like the sequences of
  its classes side by side, and that any order of the steps ends in the same observed state when every
  order of each class does.
\<close>

locale keyed_steps =
  fixes step :: "'s \<Rightarrow> 'm \<Rightarrow> 's option"
    and touched :: "'m \<Rightarrow> 'k set"
    and view :: "'s \<Rightarrow> 'k \<Rightarrow> 'v"
  assumes frame: "step s m = Some s' \<Longrightarrow> k \<notin> touched m \<Longrightarrow> view s' k = view s k"
    and locality: "(\<And>k. k \<in> touched m \<Longrightarrow> view s k = view t k) \<Longrightarrow> step s m = Some s' \<Longrightarrow>
      \<exists>t'. step t m = Some t' \<and> (\<forall>k\<in>touched m. view t' k = view s' k)"
begin

fun run :: "'s \<Rightarrow> 'm list \<Rightarrow> 's option" where
  "run s [] = Some s"
| "run s (m # ms) = Option.bind (step s m) (\<lambda>s'. run s' ms)"

definition proj :: "'k set \<Rightarrow> 'm list \<Rightarrow> 'm list" where
  "proj K ms = filter (\<lambda>m. touched m \<noteq> {} \<and> touched m \<subseteq> K) ms"

lemma run_append: "run s (xs @ ys) = Option.bind (run s xs) (\<lambda>s'. run s' ys)"
  by (induction xs arbitrary: s) (auto split: bind_splits)

lemma run_snoc: "run s (xs @ [m]) = Option.bind (run s xs) (\<lambda>s'. step s' m)"
  by (simp add: run_append bind_assoc)

lemma run_frame:
  "run s ms = Some s' \<Longrightarrow> (\<And>m. m \<in> set ms \<Longrightarrow> k \<notin> touched m) \<Longrightarrow> view s' k = view s k"
proof (induction ms arbitrary: s)
  case (Cons m ms)
  from Cons.prems(1) obtain t where t: "step s m = Some t" "run t ms = Some s'"
    by (auto simp: bind_eq_Some_conv)
  have "view s' k = view t k" by (rule Cons.IH [OF t(2)]) (simp add: Cons.prems(2))
  also have "\<dots> = view s k" by (rule frame [OF t(1)]) (simp add: Cons.prems(2))
  finally show ?case .
qed simp

lemma proj_snoc:
  "proj K (ms @ [m]) = (if touched m \<noteq> {} \<and> touched m \<subseteq> K then proj K ms @ [m] else proj K ms)"
  by (simp add: proj_def)

text \<open>A run over disjoint key classes is the runs of its classes side by side.\<close>

definition side_by_side :: "'k set set \<Rightarrow> 's \<Rightarrow> 'm list \<Rightarrow> 's \<Rightarrow> bool" where
  "side_by_side KS s ms s' \<longleftrightarrow> run s ms = Some s' \<and>
     (\<forall>K\<in>KS. \<forall>k\<in>K. view s' k = view (the (run s (proj K ms))) k) \<and>
     (\<forall>k. k \<notin> \<Union>KS \<longrightarrow> view s' k = view s k)"

lemma side_by_side_untouched:
  assumes "side_by_side KS s ms s1" and "touched m = {}" and "step s m \<noteq> None"
  shows "\<exists>s2. side_by_side KS s (ms @ [m]) s2"
proof -
  obtain u where "step s m = Some u" using assms(3) by auto
  with assms(2) obtain s2 where s2: "step s1 m = Some s2" using locality [of m s s1 u] by auto
  have keep: "view s2 k = view s1 k" for k using frame [OF s2] assms(2) by simp
  have pj: "proj K (ms @ [m]) = proj K ms" for K using assms(2) by (simp add: proj_snoc)
  show ?thesis
    using assms(1) s2 by (intro exI [of _ s2]) (simp add: side_by_side_def run_snoc keep pj)
qed

lemma side_by_side_touching:
  assumes disjoint: "\<And>K. K \<in> KS \<Longrightarrow> K \<noteq> K0 \<Longrightarrow> K0 \<inter> K = {}"
    and before: "side_by_side KS s ms s1"
    and K0: "K0 \<in> KS" "touched m \<subseteq> K0" "touched m \<noteq> {}"
    and defined: "run s (proj K0 (ms @ [m])) = Some q"
  shows "\<exists>s2. side_by_side KS s (ms @ [m]) s2"
proof -
  have mine: "proj K0 (ms @ [m]) = proj K0 ms @ [m]" using K0 by (simp add: proj_snoc)
  from defined obtain p where p: "run s (proj K0 ms) = Some p" and q: "step p m = Some q"
    by (auto simp: mine run_snoc bind_eq_Some_conv)
  have same: "view s1 k = view (the (run s (proj K ms))) k" if "K \<in> KS" "k \<in> K" for K k
    using before that by (simp add: side_by_side_def)
  have "view p k = view s1 k" if "k \<in> touched m" for k
    using same [OF K0(1), of k] K0(2) that p by auto
  from locality [OF this q] obtain s2 where s2: "step s1 m = Some s2"
    and tv: "\<And>k. k \<in> touched m \<Longrightarrow> view s2 k = view q k" by auto
  have "view s2 k = view (the (run s (proj K (ms @ [m])))) k" if K: "K \<in> KS" "k \<in> K" for K k
  proof (cases "K = K0")
    case True
    have "view s2 k = view q k"
      using tv frame [OF s2, of k] frame [OF q, of k] same [OF K] by (cases "k \<in> touched m") (simp_all add: True p)
    then show ?thesis by (simp add: True defined)
  next
    case False
    then have "k \<notin> touched m" and "\<not> touched m \<subseteq> K" using K0 disjoint [OF K(1)] K(2) by auto
    then show ?thesis using frame [OF s2] same [OF K] by (simp add: proj_snoc)
  qed
  moreover have "view s2 k = view s k" if "k \<notin> \<Union>KS" for k
  proof -
    have "k \<notin> touched m" using K0 that by auto
    then show ?thesis using before that by (simp add: frame [OF s2] side_by_side_def)
  qed
  moreover have "run s (ms @ [m]) = Some s2" using before s2 by (simp add: run_snoc side_by_side_def)
  ultimately show ?thesis by (auto simp: side_by_side_def)
qed

lemma run_classes:
  assumes disjoint: "\<And>K K'. K \<in> KS \<Longrightarrow> K' \<in> KS \<Longrightarrow> K \<noteq> K' \<Longrightarrow> K \<inter> K' = {}"
    and cover: "\<And>m. m \<in> set ms \<Longrightarrow> touched m \<noteq> {} \<Longrightarrow> \<exists>K\<in>KS. touched m \<subseteq> K"
    and untouched: "\<And>m. m \<in> set ms \<Longrightarrow> touched m = {} \<Longrightarrow> step s m \<noteq> None"
    and classes: "\<And>K. K \<in> KS \<Longrightarrow> run s (proj K ms) \<noteq> None"
  shows "\<exists>s'. side_by_side KS s ms s'"
  using cover untouched classes
proof (induction ms rule: rev_induct)
  case Nil
  then show ?case by (simp add: proj_def side_by_side_def)
next
  case (snoc m ms)
  have "run s (proj K ms) \<noteq> None" if "K \<in> KS" for K
    using snoc.prems(3) [OF that] by (auto simp: proj_snoc run_snoc split: if_splits)
  then obtain s1 where s1: "side_by_side KS s ms s1"
    using snoc.IH snoc.prems(1,2) by (metis Un_iff set_append)
  show ?case
  proof (cases "touched m = {}")
    case True
    with snoc.prems(2) show ?thesis by (intro side_by_side_untouched [OF s1]) simp_all
  next
    case False
    with snoc.prems(1) obtain K0 where K0: "K0 \<in> KS" "touched m \<subseteq> K0" by auto
    then obtain q where "run s (proj K0 (ms @ [m])) = Some q" using snoc.prems(3) by auto
    with K0 False s1 show ?thesis using disjoint by (intro side_by_side_touching [of KS K0]) auto
  qed
qed

text \<open>
  If every order of the steps of each class is defined and ends with one observation \<open>f\<close> of its keys,
  then so does every order of all the steps.
\<close>

lemma run_permuted:
  assumes disjoint: "\<And>K K'. K \<in> KS \<Longrightarrow> K' \<in> KS \<Longrightarrow> K \<noteq> K' \<Longrightarrow> K \<inter> K' = {}"
    and cover: "\<And>m. m \<in> set ms \<Longrightarrow> touched m \<noteq> {} \<Longrightarrow> \<exists>K\<in>KS. touched m \<subseteq> K"
    and untouched: "\<And>m. m \<in> set ms \<Longrightarrow> touched m = {} \<Longrightarrow> step s m \<noteq> None"
    and orders: "\<And>K p. K \<in> KS \<Longrightarrow> mset p = mset (proj K ms) \<Longrightarrow>
      \<exists>t. run s p = Some t \<and> (\<forall>k\<in>K. f (view t k) = f (view (the (run s (proj K ms))) k))"
  shows "\<exists>s0. \<forall>ms'. mset ms' = mset ms \<longrightarrow>
           (\<exists>s'. run s ms' = Some s' \<and> (\<forall>k. f (view s' k) = f (view s0 k)))"
proof -
  have classes: "\<exists>s'. side_by_side KS s ms' s'" if perm: "mset ms' = mset ms" for ms'
  proof (rule run_classes)
    have set_eq: "set ms' = set ms" using perm by (metis set_mset_mset)
    show "run s (proj K ms') \<noteq> None" if "K \<in> KS" for K
      using orders [OF that, of "proj K ms'"] by (auto simp: proj_def perm)
    show "\<exists>K\<in>KS. touched m \<subseteq> K" if "m \<in> set ms'" "touched m \<noteq> {}" for m
      using cover that set_eq by simp
    show "step s m \<noteq> None" if "m \<in> set ms'" "touched m = {}" for m
      using untouched that set_eq by simp
  qed (use disjoint in auto)
  obtain s0 where s0: "side_by_side KS s ms s0" using classes by blast
  have "f (view s' k) = f (view s0 k)" if s': "side_by_side KS s ms' s'" and perm: "mset ms' = mset ms" for ms' s' k
  proof (cases "k \<in> \<Union>KS")
    case True
    then obtain K where K: "K \<in> KS" "k \<in> K" by auto
    then show ?thesis
      using orders [OF K(1), of "proj K ms'"] s0 s' perm by (auto simp: side_by_side_def proj_def)
  next
    case False
    then show ?thesis using s0 s' by (simp add: side_by_side_def)
  qed
  moreover have "run s ms' = Some s'" if "side_by_side KS s ms' s'" for ms' s'
    using that by (simp add: side_by_side_def)
  ultimately show ?thesis using classes by metis
qed

end

end
