(* ===== verification/Position_Ledger.thy ===== *)
theory Position_Ledger
  imports Copy_Signal Activity Keyed_Steps
begin

section \<open>The position ledger (crates/position-ledger/src/lib.rs)\<close>

text \<open>
  The in-memory accumulator of every leader's positions: effects, mutations, the mapping from a
  reconciled activity aggregate, and the ledger operations. A \<open>&mut self\<close> operation takes the ledger
  and returns its result together with the ledger it leaves behind, also when it fails, so that what
  an early return leaves half-done is visible; the public operations work on a clone, and that they
  are atomic is a theorem about this model. \<open>closed_by_residual\<close> is the set of the source.
\<close>

subsection \<open>Effects and mutations\<close>

record identity_correction =
  ic_stamped :: market_outcome_id
  ic_verified :: market_outcome_id
  ic_evidence_hash :: string

datatype 'p ledger_effect =
    Trade market_id outcome_id side share_amount 'p
  | Split market_id share_amount
  | Merge market_id share_amount
  | Redeem market_id outcome_id share_amount
  | RequiresAnchor
  | Conversion
  | RawOnly
  | UnknownEffect
  | Corrected "'p ledger_effect" identity_correction

record 'p ledger_mutation =
  lm_source_trade_id :: source_trade_id
  lm_transaction_hash :: string
  lm_wallet :: wallet_address
  lm_source_time :: source_timestamp
  lm_effect :: "'p ledger_effect"

record 'p applied_effect =
  ae_effect :: "'p ledger_effect"
  ae_clamped_residual :: "u64 option"

datatype ledger_error =
    ErrInvalidMapping source_trade_id
  | ErrUnderflow source_trade_id
  | ErrOverflow source_trade_id
  | ErrConversion source_trade_id
  | ErrUnknownEffect source_trade_id

datatype wallet_fence_cause =
    FenceRevisedAggregate | FenceLateEqualSecondGroup | FenceInvalidMapping | FenceUnderflow
  | FenceOverflow | FenceConversion | FenceUnknownEffect | FenceOrderDependentEqualSecond

fun fence_cause :: "ledger_error \<Rightarrow> wallet_fence_cause" where
  "fence_cause (ErrInvalidMapping _) = FenceInvalidMapping"
| "fence_cause (ErrUnderflow _) = FenceUnderflow"
| "fence_cause (ErrOverflow _) = FenceOverflow"
| "fence_cause (ErrConversion _) = FenceConversion"
| "fence_cause (ErrUnknownEffect _) = FenceUnknownEffect"

fun fence_cause_as_str :: "wallet_fence_cause \<Rightarrow> string" where
  "fence_cause_as_str FenceRevisedAggregate = ''revised_applied_aggregate''"
| "fence_cause_as_str FenceLateEqualSecondGroup = ''late_group_after_bucket_commit''"
| "fence_cause_as_str FenceInvalidMapping = ''invalid_mapping''"
| "fence_cause_as_str FenceUnderflow = ''position_underflow''"
| "fence_cause_as_str FenceOverflow = ''position_overflow''"
| "fence_cause_as_str FenceConversion = ''conversion_unknown_conditions''"
| "fence_cause_as_str FenceUnknownEffect = ''unknown_activity_effect''"
| "fence_cause_as_str FenceOrderDependentEqualSecond = ''order_dependent_equal_second''"

definition REDEEM_RESIDUAL_LIMIT_ATOMIC :: u64 where
  "REDEEM_RESIDUAL_LIMIT_ATOMIC = 100"

fun correction :: "'p ledger_effect \<Rightarrow> identity_correction option" where
  "correction (Corrected _ c) = Some c"
| "correction _ = None"

primrec effective :: "'p ledger_effect \<Rightarrow> 'p ledger_effect" where
  "effective (Trade m oc s a p) = Trade m oc s a p"
| "effective (Split m a) = Split m a"
| "effective (Merge m a) = Merge m a"
| "effective (Redeem m oc a) = Redeem m oc a"
| "effective RequiresAnchor = RequiresAnchor"
| "effective Conversion = Conversion"
| "effective RawOnly = RawOnly"
| "effective UnknownEffect = UnknownEffect"
| "effective (Corrected e c) = effective e"

definition effect_identity :: "'p ledger_effect \<Rightarrow> market_outcome_id option" where
  "effect_identity e =
     (case effective e of
        Trade m oc _ _ _ \<Rightarrow> Some (market_outcome m oc)
      | Redeem m oc _ \<Rightarrow> Some (market_outcome m oc)
      | _ \<Rightarrow> None)"

fun with_identity :: "'p ledger_effect \<Rightarrow> market_outcome_id \<Rightarrow> 'p ledger_effect" where
  "with_identity (Trade _ _ s a p) v = Trade (mo_market v) (mo_outcome v) s a p"
| "with_identity (Redeem _ _ a) v = Redeem (mo_market v) (mo_outcome v) a"
| "with_identity e v = e"

definition from_activity ::
    "'d decimal_ops \<Rightarrow> (bytes \<Rightarrow> string) \<Rightarrow> 'd activity_aggregate \<Rightarrow> ledger_error + 'd ledger_mutation" where
  "from_activity D hash_hex a =
     (let gid = agg_group_id a;
          c = gid_components gid;
          sid = gid_key gid;
          invalid = ErrInvalidMapping sid;
          market = ok_or invalid (gc_condition_id c);
          shares = agg_share_sum a in
      rbind (map_err (\<lambda>_. invalid) (verify_components hash_hex gid)) (\<lambda>_.
      rbind
        (case gc_activity_type c of
           ActConversion \<Rightarrow> Inr (if shares = 0 then RawOnly else Conversion)
         | ActUnknown _ \<Rightarrow> Inr UnknownEffect
         | ActReward \<Rightarrow> Inr RawOnly
         | ActDeposit \<Rightarrow> Inr RawOnly
         | ActWithdrawal \<Rightarrow> Inr RawOnly
         | ActYield \<Rightarrow> Inr RawOnly
         | ActMakerRebate \<Rightarrow> Inr RawOnly
         | ActTakerRebate \<Rightarrow> Inr RawOnly
         | ActReferralReward \<Rightarrow> Inr RawOnly
         | ActTrade \<Rightarrow>
             if agg_is_combo a \<or> shares = 0 then Inr RawOnly
             else rbind market (\<lambda>m.
                  rbind (ok_or invalid (gc_outcome c)) (\<lambda>oc.
                  rbind (ok_or invalid (gc_side c)) (\<lambda>s.
                  rbind (map_err (\<lambda>_. invalid) (volume_weighted_price D a)) (\<lambda>p.
                  Inr (Trade m oc s shares p)))))
         | ActSplit \<Rightarrow>
             if agg_is_combo a \<or> shares = 0 then Inr RawOnly
             else rbind market (\<lambda>m. Inr (Split m shares))
         | ActMerge \<Rightarrow>
             if agg_is_combo a \<or> shares = 0 then Inr RawOnly
             else rbind market (\<lambda>m. Inr (Merge m shares))
         | ActRedeem \<Rightarrow>
             if agg_is_combo a then Inr RawOnly
             else if shares = 0 then Inr RequiresAnchor
             else (case gc_outcome c of
                     None \<Rightarrow> Inr RequiresAnchor
                   | Some oc \<Rightarrow> rbind market (\<lambda>m. Inr (Redeem m oc shares))))
        (\<lambda>effect.
      Inr \<lparr>lm_source_trade_id = sid,
           lm_transaction_hash = gc_transaction_hash c,
           lm_wallet = gc_wallet c,
           lm_source_time = agg_source_time a,
           lm_effect = effect\<rparr>)))"

definition with_verified_identity ::
    "'p ledger_mutation \<Rightarrow> market_outcome_id \<Rightarrow> string \<Rightarrow> 'p ledger_mutation" where
  "with_verified_identity m verified evidence_hash =
     (case effect_identity (lm_effect m) of
        None \<Rightarrow> m
      | Some current \<Rightarrow>
          if current = verified then m
          else (let stamped = (case correction (lm_effect m) of None \<Rightarrow> current | Some c \<Rightarrow> ic_stamped c);
                    effect = with_identity (effective (lm_effect m)) verified in
                m\<lparr>lm_effect := Corrected effect
                    \<lparr>ic_stamped = stamped, ic_verified = verified, ic_evidence_hash = evidence_hash\<rparr>\<rparr>))"

definition touched_keys :: "'p ledger_mutation \<Rightarrow> market_outcome_id list" where
  "touched_keys m =
     (case effective (lm_effect m) of
        Trade mk oc _ _ _ \<Rightarrow> [market_outcome mk oc]
      | Redeem mk oc _ \<Rightarrow> [market_outcome mk oc]
      | Split mk _ \<Rightarrow> [market_outcome mk 0, market_outcome mk 1]
      | Merge mk _ \<Rightarrow> [market_outcome mk 0, market_outcome mk 1]
      | _ \<Rightarrow> [])"

subsection \<open>The ledger\<close>

record position_ledger =
  snapshots :: "wallet_address \<rightharpoonup> position_snapshot"

type_synonym closed_set = "(market_id \<times> outcome_id) set"

definition ledger_new :: position_ledger where
  "ledger_new = \<lparr>snapshots = Map.empty\<rparr>"

definition from_snapshots :: "(wallet_address \<rightharpoonup> position_snapshot) \<Rightarrow> position_ledger" where
  "from_snapshots ss = \<lparr>snapshots = ss\<rparr>"

definition position :: "position_ledger \<Rightarrow> wallet_address \<Rightarrow> position_snapshot option" where
  "position L w = snapshots L w"

text \<open>
  \<open>state_mut\<close> hands out a reference to an entry it creates on demand. Its snapshot is
  \<open>entry_snapshot\<close>, the value behind the reference is \<open>state_at\<close>, and a write through it is
  \<open>write_state\<close>; taking the reference alone inserts the entry it found or the default.
\<close>

definition entry_snapshot :: "position_ledger \<Rightarrow> wallet_address \<Rightarrow> position_snapshot" where
  "entry_snapshot L w =
     (case snapshots L w of Some s \<Rightarrow> s | None \<Rightarrow> \<lparr>ps_wallet = w, positions = Map.empty\<rparr>)"

definition state_at :: "position_ledger \<Rightarrow> wallet_address \<Rightarrow> market_outcome_id \<Rightarrow> position_state" where
  "state_at L w key =
     (case positions (entry_snapshot L w) key of Some s \<Rightarrow> s | None \<Rightarrow> default_state)"

definition write_state ::
    "position_ledger \<Rightarrow> wallet_address \<Rightarrow> market_outcome_id \<Rightarrow> position_state \<Rightarrow> position_ledger" where
  "write_state L w key st =
     (let snap = entry_snapshot L w in
      L\<lparr>snapshots := (snapshots L)(w \<mapsto> snap\<lparr>positions := (positions snap)(key \<mapsto> st)\<rparr>)\<rparr>)"

definition state_mut ::
    "position_ledger \<Rightarrow> wallet_address \<Rightarrow> market_id \<Rightarrow> outcome_id \<Rightarrow> position_state \<times> position_ledger" where
  "state_mut L w m oc =
     (let key = market_outcome m oc; st = state_at L w key in (st, write_state L w key st))"

text \<open>The state is returned also when a later step fails, as the \<open>&mut\<close> parameter leaves it.\<close>

definition apply_trade ::
    "position_state \<Rightarrow> side \<Rightarrow> share_amount \<Rightarrow> source_trade_id \<Rightarrow> (ledger_error + unit) \<times> position_state" where
  "apply_trade state side amount sid =
     (case side of
        Buy \<Rightarrow>
          (let covered = min (short_contracts state) amount in
           case share_checked_sub (short_contracts state) covered of
             Inl _ \<Rightarrow> (Inl (ErrUnderflow sid), state)
           | Inr short' \<Rightarrow>
               (let state1 = state\<lparr>short_contracts := short'\<rparr> in
                case share_checked_sub amount covered of
                  Inl _ \<Rightarrow> (Inl (ErrUnderflow sid), state1)
                | Inr remainder \<Rightarrow>
                    (case share_checked_add (long_contracts state1) remainder of
                       Inl _ \<Rightarrow> (Inl (ErrOverflow sid), state1)
                     | Inr long' \<Rightarrow> (Inr (), state1\<lparr>long_contracts := long'\<rparr>))))
      | Sell \<Rightarrow>
          (let trimmed = min (long_contracts state) amount in
           case share_checked_sub (long_contracts state) trimmed of
             Inl _ \<Rightarrow> (Inl (ErrUnderflow sid), state)
           | Inr long' \<Rightarrow>
               (let state1 = state\<lparr>long_contracts := long'\<rparr> in
                case share_checked_sub amount trimmed of
                  Inl _ \<Rightarrow> (Inl (ErrUnderflow sid), state1)
                | Inr remainder \<Rightarrow>
                    (case share_checked_add (short_contracts state1) remainder of
                       Inl _ \<Rightarrow> (Inl (ErrOverflow sid), state1)
                     | Inr short' \<Rightarrow> (Inr (), state1\<lparr>short_contracts := short'\<rparr>)))))"

definition checked_remaining_long ::
    "position_ledger \<Rightarrow> 'p ledger_mutation \<Rightarrow> market_id \<Rightarrow> outcome_id \<Rightarrow> share_amount
       \<Rightarrow> ledger_error + share_amount" where
  "checked_remaining_long L m mk oc amount =
     (let balance = (case Option.bind (snapshots L (lm_wallet m)) (\<lambda>s. positions s (market_outcome mk oc)) of
                       None \<Rightarrow> 0 | Some st \<Rightarrow> long_contracts st) in
      map_err (\<lambda>_. ErrUnderflow (lm_source_trade_id m)) (share_checked_sub balance amount))"

definition set_long :: "position_ledger \<Rightarrow> wallet_address \<Rightarrow> market_id \<Rightarrow> outcome_id \<Rightarrow> share_amount
    \<Rightarrow> position_ledger" where
  "set_long L w mk oc v =
     (let (st, L') = state_mut L w mk oc in
      write_state L' w (market_outcome mk oc) (st\<lparr>long_contracts := v\<rparr>))"

definition checked_remove_pair ::
    "position_ledger \<Rightarrow> 'p ledger_mutation \<Rightarrow> market_id \<Rightarrow> share_amount \<Rightarrow> closed_set
       \<Rightarrow> (ledger_error + unit) \<times> position_ledger" where
  "checked_remove_pair L m mk amount cbr =
     (if amount \<noteq> 0 \<and> list_ex (\<lambda>oc. (mk, oc) \<in> cbr) [0, 1]
      then (Inl (ErrUnderflow (lm_source_trade_id m)), L)
      else (case checked_remaining_long L m mk 0 amount of
              Inl e \<Rightarrow> (Inl e, L)
            | Inr outcome_zero \<Rightarrow>
                (case checked_remaining_long L m mk 1 amount of
                   Inl e \<Rightarrow> (Inl e, L)
                 | Inr outcome_one \<Rightarrow>
                     (Inr (), set_long (set_long L (lm_wallet m) mk 0 outcome_zero)
                                (lm_wallet m) mk 1 outcome_one))))"

definition checked_remove_redeem ::
    "position_ledger \<Rightarrow> 'p ledger_mutation \<Rightarrow> market_id \<Rightarrow> outcome_id \<Rightarrow> share_amount \<Rightarrow> closed_set
       \<Rightarrow> (ledger_error + u64 option) \<times> position_ledger \<times> closed_set" where
  "checked_remove_redeem L m mk oc amount cbr =
     (let sid = lm_source_trade_id m; w = lm_wallet m; key = market_outcome mk oc in
      if amount \<noteq> 0 \<and> (mk, oc) \<in> cbr then (Inl (ErrUnderflow sid), L, cbr)
      else
        let (st, L1) = state_mut L w mk oc in
        if amount \<le> long_contracts st then
          (case share_checked_sub (long_contracts st) amount of
             Inl _ \<Rightarrow> (Inl (ErrUnderflow sid), L1, cbr)
           | Inr rest \<Rightarrow> (Inr None, write_state L1 w key (st\<lparr>long_contracts := rest\<rparr>), cbr))
        else
          (case share_checked_sub amount (long_contracts st) of
             Inl _ \<Rightarrow> (Inl (ErrUnderflow sid), L1, cbr)
           | Inr residual \<Rightarrow>
               if residual \<ge> REDEEM_RESIDUAL_LIMIT_ATOMIC then (Inl (ErrUnderflow sid), L1, cbr)
               else (Inr (Some residual), write_state L1 w key (st\<lparr>long_contracts := 0\<rparr>),
                     insert (mk, oc) cbr)))"

text \<open>One iteration of the split loop over the outcomes 0 and 1.\<close>

definition split_outcome ::
    "position_ledger \<Rightarrow> 'p ledger_mutation \<Rightarrow> market_id \<Rightarrow> share_amount \<Rightarrow> outcome_id
       \<Rightarrow> (ledger_error + unit) \<times> position_ledger" where
  "split_outcome L m mk amount oc =
     (let (st, L1) = state_mut L (lm_wallet m) mk oc in
      case share_checked_add (long_contracts st) amount of
        Inl _ \<Rightarrow> (Inl (ErrOverflow (lm_source_trade_id m)), L1)
      | Inr v \<Rightarrow> (Inr (), write_state L1 (lm_wallet m) (market_outcome mk oc) (st\<lparr>long_contracts := v\<rparr>)))"

definition apply_in_place ::
    "position_ledger \<times> closed_set \<Rightarrow> 'p ledger_mutation
       \<Rightarrow> (ledger_error + 'p applied_effect) \<times> position_ledger \<times> closed_set" where
  "apply_in_place s m =
     (let (L, cbr) = s; sid = lm_source_trade_id m;
          applied = (\<lambda>residual. \<lparr>ae_effect = lm_effect m, ae_clamped_residual = residual\<rparr>) in
      case effective (lm_effect m) of
        Trade mk oc sd amount _ \<Rightarrow>
          (if sd = Sell \<and> amount \<noteq> 0 \<and> (mk, oc) \<in> cbr then (Inl (ErrUnderflow sid), L, cbr)
           else
             let (st, L1) = state_mut L (lm_wallet m) mk oc;
                 (r, st') = apply_trade st sd amount sid in
             (map_sum id (\<lambda>_. applied None) r,
              write_state L1 (lm_wallet m) (market_outcome mk oc) st', cbr))
      | Split mk amount \<Rightarrow>
          (case split_outcome L m mk amount 0 of
             (Inl e, L1) \<Rightarrow> (Inl e, L1, cbr)
           | (Inr _, L1) \<Rightarrow>
               (case split_outcome L1 m mk amount 1 of
                  (Inl e, L2) \<Rightarrow> (Inl e, L2, cbr)
                | (Inr _, L2) \<Rightarrow> (Inr (applied None), L2, cbr)))
      | Merge mk amount \<Rightarrow>
          (let (r, L1) = checked_remove_pair L m mk amount cbr in
           (map_sum id (\<lambda>_. applied None) r, L1, cbr))
      | Redeem mk oc amount \<Rightarrow>
          (let (r, L1, cbr1) = checked_remove_redeem L m mk oc amount cbr in
           (map_sum id applied r, L1, cbr1))
      | Conversion \<Rightarrow> (Inl (ErrConversion sid), L, cbr)
      | UnknownEffect \<Rightarrow> (Inl (ErrUnknownEffect sid), L, cbr)
      | _ \<Rightarrow> (Inr (applied None), L, cbr))"

fun apply_all_from ::
    "position_ledger \<times> closed_set \<Rightarrow> 'p ledger_mutation list
       \<Rightarrow> (ledger_error + 'p applied_effect list) \<times> position_ledger \<times> closed_set" where
  "apply_all_from s [] = (Inr [], s)"
| "apply_all_from s (m # ms) =
     (case apply_in_place s m of
        (Inl e, s1) \<Rightarrow> (Inl e, s1)
      | (Inr a, s1) \<Rightarrow> (let (r, s2) = apply_all_from s1 ms in (map_sum id (\<lambda>as. a # as) r, s2)))"

definition apply_all_in_place ::
    "position_ledger \<Rightarrow> 'p ledger_mutation list
       \<Rightarrow> (ledger_error + 'p applied_effect list) \<times> position_ledger" where
  "apply_all_in_place L ms = (let (r, L', _) = apply_all_from (L, {}) ms in (r, L'))"

definition simulate_all_or_none ::
    "position_ledger \<Rightarrow> 'p ledger_mutation list
       \<Rightarrow> ledger_error + position_ledger \<times> 'p applied_effect list" where
  "simulate_all_or_none L ms =
     (case apply_all_in_place L ms of
        (Inl e, _) \<Rightarrow> Inl e
      | (Inr applied, candidate) \<Rightarrow> Inr (candidate, applied))"

definition apply_all_or_none ::
    "position_ledger \<Rightarrow> 'p ledger_mutation list
       \<Rightarrow> (ledger_error + 'p applied_effect list) \<times> position_ledger" where
  "apply_all_or_none L ms =
     (case simulate_all_or_none L ms of
        Inl e \<Rightarrow> (Inl e, L)
      | Inr (candidate, applied) \<Rightarrow> (Inr applied, candidate))"

definition apply_mutation ::
    "position_ledger \<Rightarrow> 'p ledger_mutation \<Rightarrow> (ledger_error + unit) \<times> position_ledger" where
  "apply_mutation L m =
     (case apply_in_place (L, {}) m of
        (Inl e, _) \<Rightarrow> (Inl e, L)
      | (Inr _, candidate, _) \<Rightarrow> (Inr (), candidate))"

definition ingest :: "position_ledger \<Rightarrow> 'p incoming_trade \<Rightarrow> (ledger_error + unit) \<times> position_ledger" where
  "ingest L t =
     apply_mutation L
       \<lparr>lm_source_trade_id = it_source_trade_id t,
        lm_transaction_hash =
          (case it_transaction_hash t of Some h \<Rightarrow> h | None \<Rightarrow> it_source_trade_id t),
        lm_wallet = it_wallet t,
        lm_source_time = it_observed_at t,
        lm_effect = Trade (it_market_id t) (it_outcome_id t) (it_side t) (it_contracts t) (it_price t)\<rparr>"

definition restore ::
    "position_ledger \<Rightarrow> wallet_address \<Rightarrow> market_outcome_id \<Rightarrow> (share_amount \<times> share_amount) option
       \<Rightarrow> position_ledger" where
  "restore L w key prev =
     (case snapshots L w of
        None \<Rightarrow> L
      | Some snap \<Rightarrow>
          (case prev of
             Some (l, s) \<Rightarrow>
               L\<lparr>snapshots := (snapshots L)(w \<mapsto> snap\<lparr>positions :=
                   (positions snap)(key \<mapsto> \<lparr>long_contracts = l, short_contracts = s\<rparr>)\<rparr>)\<rparr>
           | None \<Rightarrow>
               L\<lparr>snapshots := (snapshots L)(w \<mapsto> snap\<lparr>positions := (positions snap)(key := None)\<rparr>)\<rparr>))"

definition replace_wallet_snapshot ::
    "position_ledger \<Rightarrow> wallet_address \<Rightarrow> (market_outcome_id \<rightharpoonup> position_state) \<Rightarrow> position_ledger" where
  "replace_wallet_snapshot L w ps =
     L\<lparr>snapshots := (snapshots L)(w \<mapsto> \<lparr>ps_wallet = w, positions = ps\<rparr>)\<rparr>"

subsection \<open>Entries and trades\<close>

text \<open>The lemmas below read the ledger through \<open>entry\<close>, the position stored under a wallet and a key.\<close>

definition entry :: "position_ledger \<Rightarrow> wallet_address \<Rightarrow> market_outcome_id \<Rightarrow> position_state option" where
  "entry L w key = Option.bind (snapshots L w) (\<lambda>s. positions s key)"

lemma entry_snapshot_positions: "positions (entry_snapshot L w) = entry L w"
  by (auto simp: entry_snapshot_def entry_def split: option.splits)

lemma state_at_entry: "state_at L w key = (case entry L w key of Some s \<Rightarrow> s | None \<Rightarrow> default_state)"
  by (simp add: state_at_def entry_snapshot_positions)

lemma entry_write_state [simp]:
  "entry (write_state L w key st) w' key' = (if w' = w \<and> key' = key then Some st else entry L w' key')"
  by (auto simp: write_state_def entry_def Let_def entry_snapshot_def split: option.splits)

lemma state_at_write_state [simp]:
  "state_at (write_state L w key st) w' key' = (if w' = w \<and> key' = key then st else state_at L w' key')"
  by (simp add: state_at_entry)

lemma write_state_twice [simp]: "write_state (write_state L w key a) w key b = write_state L w key b"
  by (simp add: write_state_def Let_def entry_snapshot_def)

lemma state_mut_eq: "state_mut L w m oc =
    (state_at L w (market_outcome m oc), write_state L w (market_outcome m oc) (state_at L w (market_outcome m oc)))"
  by (simp add: state_mut_def Let_def)

lemma set_long_eq: "set_long L w mk oc v =
    write_state L w (market_outcome mk oc) ((state_at L w (market_outcome mk oc))\<lparr>long_contracts := v\<rparr>)"
  by (simp add: set_long_def state_mut_eq)

lemma checked_remaining_long_eq: "checked_remaining_long L m mk oc amount =
    map_err (\<lambda>_. ErrUnderflow (lm_source_trade_id m))
      (share_checked_sub (long_contracts (state_at L (lm_wallet m) (market_outcome mk oc))) amount)"
  by (auto simp: checked_remaining_long_def Let_def state_at_entry entry_def default_state_def
      split: option.splits)

text \<open>What a trade does to one entry, in natural numbers.\<close>

definition trade_fits :: "position_state \<Rightarrow> side \<Rightarrow> nat \<Rightarrow> bool" where
  "trade_fits st sd n \<longleftrightarrow>
     (case sd of
        Buy \<Rightarrow> unat (long_contracts st) + (n - unat (short_contracts st)) < 2 ^ 64
      | Sell \<Rightarrow> unat (short_contracts st) + (n - unat (long_contracts st)) < 2 ^ 64)"

definition traded :: "position_state \<Rightarrow> side \<Rightarrow> nat \<Rightarrow> position_state" where
  "traded st sd n =
     (let l = unat (long_contracts st); s = unat (short_contracts st) in
      case sd of
        Buy \<Rightarrow> \<lparr>long_contracts = word_of_nat (l + (n - s)), short_contracts = word_of_nat (s - n)\<rparr>
      | Sell \<Rightarrow> \<lparr>long_contracts = word_of_nat (l - n), short_contracts = word_of_nat (s + (n - l))\<rparr>)"

lemma unat_sub_min:
  "unat (a - min a (b :: u64)) = unat a - unat b" "unat (b - min a b) = unat b - unat a"
  by (simp_all add: unat_sub_le unat_min)

lemma sub_min_eq:
  "a - min a (b :: u64) = word_of_nat (unat a - unat b)" "b - min a b = word_of_nat (unat b - unat a)"
  by (simp flip: unat_sub_min(1)) (simp flip: unat_sub_min(2))

lemma apply_trade_eq:
  "apply_trade st sd amount sid =
     (if trade_fits st sd (unat amount) then (Inr (), traded st sd (unat amount))
      else (Inl (ErrOverflow sid), snd (apply_trade st sd amount sid)))"
  by (cases sd; cases st; auto simp: apply_trade_def trade_fits_def traded_def Let_def
        amount_checked_sub_def amount_checked_add_def checked_add_def unat_sub_min; simp add: sub_min_eq)

lemma trade_fits_traded:
  assumes "trade_fits st sd a"
  shows "trade_fits (traded st sd a) sd b \<longleftrightarrow> trade_fits st sd (a + b)"
    and "trade_fits (traded st sd a) sd b \<Longrightarrow> traded (traded st sd a) sd b = traded st sd (a + b)"
proof -
  have s: "unat (word_of_nat (unat x - n) :: u64) = unat x - n" for x :: u64 and n
    using unat_less_len [of x] by (simp add: unsigned_of_nat take_bit_eq_mod)
  have f: "unat (word_of_nat n :: u64) = n" if "n < 18446744073709551616" for n
    using that by (simp add: unsigned_of_nat take_bit_eq_mod)
  show fits: "trade_fits (traded st sd a) sd b \<longleftrightarrow> trade_fits st sd (a + b)"
    using assms by (cases sd) (auto simp: trade_fits_def traded_def Let_def s f simp del: of_nat_add)
  show "trade_fits (traded st sd a) sd b \<Longrightarrow> traded (traded st sd a) sd b = traded st sd (a + b)"
    using assms by (cases sd) (auto simp: trade_fits_def traded_def Let_def s f simp del: of_nat_add intro!: arg_cong [where f = word_of_nat])
qed


subsection \<open>The ledger as a step system\<close>

text \<open>
  A successful \<open>apply_in_place\<close> is a step whose touched keys are \<open>touched_keys\<close>; the view of a key is
  every wallet's entry under it and whether it was closed by a residual.
\<close>

definition ledger_step ::
    "position_ledger \<times> closed_set \<Rightarrow> 'p ledger_mutation \<Rightarrow> (position_ledger \<times> closed_set) option" where
  "ledger_step s m = (case apply_in_place s m of (Inl _, _) \<Rightarrow> None | (Inr _, s') \<Rightarrow> Some s')"

definition touched_set :: "'p ledger_mutation \<Rightarrow> market_outcome_id set" where
  "touched_set m = set (touched_keys m)"

definition ledger_view ::
    "position_ledger \<times> closed_set \<Rightarrow> market_outcome_id \<Rightarrow> (wallet_address \<Rightarrow> position_state option) \<times> bool" where
  "ledger_view s key = ((\<lambda>w. entry (fst s) w key), (mo_market key, mo_outcome key) \<in> snd s)"

lemma redeem_residual_step: "checked_remove_redeem L m mk oc amount cbr =
   (let key = market_outcome mk oc; st = state_at L (lm_wallet m) key; l = long_contracts st in
    if amount \<noteq> 0 \<and> (mk, oc) \<in> cbr then (Inl (ErrUnderflow (lm_source_trade_id m)), L, cbr)
    else if amount \<le> l then (Inr None, write_state L (lm_wallet m) key (st\<lparr>long_contracts := l - amount\<rparr>), cbr)
    else if amount - l \<ge> 100 then (Inl (ErrUnderflow (lm_source_trade_id m)), write_state L (lm_wallet m) key st, cbr)
    else (Inr (Some (amount - l)), write_state L (lm_wallet m) key (st\<lparr>long_contracts := 0\<rparr>), insert (mk, oc) cbr))"
  by (auto simp: checked_remove_redeem_def state_mut_eq Let_def amount_checked_sub_def checked_sub_def
      REDEEM_RESIDUAL_LIMIT_ATOMIC_def)

lemma split_outcome_eq: "split_outcome L m mk amount oc =
   (let key = market_outcome mk oc; st = state_at L (lm_wallet m) key in
    if unat (long_contracts st) + unat amount < 2 ^ 64
    then (Inr (), write_state L (lm_wallet m) key (st\<lparr>long_contracts := long_contracts st + amount\<rparr>))
    else (Inl (ErrOverflow (lm_source_trade_id m)), write_state L (lm_wallet m) key st))"
  by (auto simp: split_outcome_def state_mut_eq Let_def amount_checked_add_def checked_add_def)

lemma remove_pair_eq: "checked_remove_pair L m mk amount cbr =
   (let w = lm_wallet m; k0 = market_outcome mk 0; k1 = market_outcome mk 1;
        s0 = state_at L w k0; s1 = state_at L w k1 in
    if amount \<noteq> 0 \<and> ((mk, 0) \<in> cbr \<or> (mk, 1) \<in> cbr) \<or> \<not> amount \<le> long_contracts s0 \<or> \<not> amount \<le> long_contracts s1
    then (Inl (ErrUnderflow (lm_source_trade_id m)), L)
    else (Inr (), write_state (write_state L w k0 (s0\<lparr>long_contracts := long_contracts s0 - amount\<rparr>))
                    w k1 (s1\<lparr>long_contracts := long_contracts s1 - amount\<rparr>)))"
  by (auto simp: checked_remove_pair_def checked_remaining_long_eq set_long_eq Let_def
      amount_checked_sub_def checked_sub_def)

lemmas apply_in_place_simps = apply_in_place_def Let_def state_mut_eq redeem_residual_step split_outcome_eq
  remove_pair_eq

lemma ledger_frame:
  "ledger_step s m = Some s' \<Longrightarrow> key \<notin> touched_set m \<Longrightarrow> ledger_view s' key = ledger_view s key"
  by (cases s; cases "effective (lm_effect m)")
    (auto simp: ledger_step_def apply_in_place_simps touched_set_def touched_keys_def ledger_view_def
       market_outcome_def split: if_splits sum.splits prod.splits)

lemma ledger_locality:
  assumes "\<And>k. k \<in> touched_set m \<Longrightarrow> ledger_view s k = ledger_view t k" and "ledger_step s m = Some s'"
  shows "\<exists>t'. ledger_step t m = Some t' \<and> (\<forall>k\<in>touched_set m. ledger_view t' k = ledger_view s' k)"
proof -
  obtain L c where s: "s = (L, c)" by (cases s)
  obtain L' c' where t: "t = (L', c')" by (cases t)
  have en: "entry L w k = entry L' w k" if "k \<in> touched_set m" for w k
    using assms(1) [OF that] by (auto simp: s t ledger_view_def dest: fun_cong)
  have st: "state_at L w k = state_at L' w k" if "k \<in> touched_set m" for w k
    by (simp add: state_at_entry en [OF that])
  have cl: "(mk, oc) \<in> c \<longleftrightarrow> (mk, oc) \<in> c'" if "market_outcome mk oc \<in> touched_set m" for mk oc
    using assms(1) [OF that] by (auto simp: s t ledger_view_def)
  show ?thesis
    using assms(2) st en cl
    by (cases "effective (lm_effect m)")
      (auto simp: s t ledger_step_def apply_in_place_simps touched_set_def touched_keys_def ledger_view_def
        split: if_splits sum.splits prod.splits)
qed

interpretation ledger_steps: keyed_steps ledger_step touched_set ledger_view
  by unfold_locales (rule ledger_frame, assumption+, rule ledger_locality)

lemma run_apply_all_from:
  "ledger_steps.run s ms = (case apply_all_from s ms of (Inl _, _) \<Rightarrow> None | (Inr _, s') \<Rightarrow> Some s')"
  by (induction ms arbitrary: s) (auto simp: ledger_step_def split: prod.splits sum.splits)

lemma simulate_run:
  "(\<exists>applied. simulate_all_or_none L ms = Inr (L', applied)) \<longleftrightarrow>
   (\<exists>c. ledger_steps.run (L, {}) ms = Some (L', c))"
  by (auto simp: simulate_all_or_none_def apply_all_in_place_def run_apply_all_from split: prod.splits sum.splits)

text \<open>What a successful step can do to the ledger: it only adds or rewrites entries.\<close>

definition rebuilt ::
    "position_ledger \<Rightarrow> wallet_address \<Rightarrow> (market_outcome_id \<rightharpoonup> position_state) \<Rightarrow> position_snapshot option" where
  "rebuilt L w e =
     (case snapshots L w of
        Some s \<Rightarrow> Some (s\<lparr>positions := e\<rparr>)
      | None \<Rightarrow> if e = Map.empty then None else Some \<lparr>ps_wallet = w, positions = e\<rparr>)"

definition extends :: "position_ledger \<Rightarrow> position_ledger \<Rightarrow> bool" where
  "extends L L' \<longleftrightarrow>
     (\<forall>w. dom (entry L w) \<subseteq> dom (entry L' w) \<and> snapshots L' w = rebuilt L w (entry L' w))"

lemma entry_of_snapshot:
  "snapshots L w = Some s \<Longrightarrow> entry L w = positions s" "snapshots L w = None \<Longrightarrow> entry L w = Map.empty"
  by (simp_all add: entry_def fun_eq_iff)

lemma extends_refl: "extends L L"
  by (auto simp: extends_def rebuilt_def entry_of_snapshot split: option.splits)

lemma extends_trans:
  assumes "extends A B" and "extends B C"
  shows "extends A C"
proof -
  have "snapshots C w = rebuilt A w (entry C w)" for w
  proof -
    have B: "snapshots B w = rebuilt A w (entry B w)" and C: "snapshots C w = rebuilt B w (entry C w)"
      and dom: "dom (entry B w) \<subseteq> dom (entry C w)"
      using assms by (simp_all add: extends_def)
    from dom have "entry C w \<noteq> Map.empty" if "entry B w \<noteq> Map.empty"
      using that by (metis dom_empty dom_eq_empty_conv subset_empty)
    with B C show ?thesis by (cases "snapshots A w") (auto simp: rebuilt_def)
  qed
  with assms show ?thesis by (fastforce simp: extends_def)
qed

lemma extends_write_state: "extends L (write_state L w key st)"
proof -
  have "snapshots (write_state L w key st) v = rebuilt L v (entry (write_state L w key st) v)" for v
    by (auto simp: rebuilt_def write_state_def Let_def entry_def entry_snapshot_def fun_eq_iff
        split: option.splits)
  then show ?thesis by (auto simp: extends_def)
qed

lemma extends_step: "ledger_step s m = Some s' \<Longrightarrow> extends (fst s) (fst s')"
  by (cases s; cases "effective (lm_effect m)")
    (auto simp: ledger_step_def apply_in_place_simps split: if_splits sum.splits prod.splits
      intro: extends_refl extends_write_state extends_trans [OF extends_write_state extends_write_state])

lemma extends_run: "ledger_steps.run s ms = Some s' \<Longrightarrow> extends (fst s) (fst s')"
  by (induction ms arbitrary: s)
    (auto simp: bind_eq_Some_conv intro: extends_refl extends_trans dest: extends_step)

lemma extends_unique:
  assumes "extends L A" and "extends L B" and "\<And>w key. entry A w key = entry B w key"
  shows "A = B"
proof -
  have "entry A = entry B" using assms(3) by (intro ext)
  then have "snapshots A w = snapshots B w" for w
    using assms(1,2) by (metis extends_def)
  then have "snapshots A = snapshots B" by (intro ext)
  then show ?thesis by simp
qed

end
