(* ===== verification/Equal_Second.thy ===== *)
theory Equal_Second
  imports Position_Ledger
begin

section \<open>The equal-second proof (crates/position-ledger/src/lib.rs)\<close>

text \<open>
  Mutations that carry the same source second have no order of their own. The code partitions them
  into components connected by the keys they touch and accepts a second only if every order of every
  component leaves the same position: by a fold when a component is one side of one market outcome,
  by enumerating the orders of at most four mutations otherwise. The indices of the source's
  \<open>assigned\<close> vector are the list of the mutations not yet assigned, in input order.
\<close>

subsection \<open>Components\<close>

fun absorb_pass ::
    "market_outcome_id set \<Rightarrow> 'p ledger_mutation list
       \<Rightarrow> market_outcome_id set \<times> 'p ledger_mutation list \<times> 'p ledger_mutation list" where
  \<comment> \<open>one pass over the unassigned mutations: the grown keys, those absorbed, those left\<close>
  "absorb_pass keys [] = (keys, [], [])"
| "absorb_pass keys (m # ms) =
     (if list_ex (\<lambda>k. k \<in> keys) (touched_keys m)
      then (let (keys', taken, left) = absorb_pass (keys \<union> set (touched_keys m)) ms in (keys', m # taken, left))
      else (let (keys', taken, left) = absorb_pass keys ms in (keys', taken, m # left)))"

lemma absorb_pass_length: "absorb_pass keys ms = (keys', taken, left) \<Longrightarrow> length ms = length taken + length left"
  by (induction ms arbitrary: keys keys' taken left) (auto split: if_splits prod.splits)

function grow_component ::
    "market_outcome_id set \<Rightarrow> 'p ledger_mutation list \<Rightarrow> 'p ledger_mutation list \<times> 'p ledger_mutation list" where
  "grow_component keys ms =
     (let (keys', taken, left) = absorb_pass keys ms in
      if taken = [] then ([], left)
      else (let (grown, left') = grow_component keys' left in (taken @ grown, left')))"
  by auto
termination
  by (relation "measure (\<lambda>(_, ms). length ms)") (auto dest!: sym [THEN absorb_pass_length] simp flip: length_greater_0_conv)

declare grow_component.simps [simp del]

lemma grow_component_length: "grow_component keys ms = (grown, left) \<Longrightarrow> length ms = length grown + length left"
proof (induction keys ms arbitrary: grown left rule: grow_component.induct)
  case (1 keys ms)
  obtain keys' taken rest where pass: "absorb_pass keys ms = (keys', taken, rest)" by (metis prod_cases3)
  show ?case
  proof (cases "taken = []")
    case True
    with 1 pass show ?thesis by (auto simp: grow_component.simps dest!: absorb_pass_length)
  next
    case False
    obtain m2 l2 where rec: "grow_component keys' rest = (m2, l2)" by (metis surj_pair)
    with 1 pass False show ?thesis
      using absorb_pass_length [OF pass] by (auto simp: grow_component.simps [of keys ms])
  qed
qed

function mutation_components :: "'p ledger_mutation list \<Rightarrow> 'p ledger_mutation list list" where
  "mutation_components [] = []"
| "mutation_components (m # ms) =
     (let (grown, left) = grow_component (set (touched_keys m)) ms in
      (m # grown) # mutation_components left)"
  by pat_completeness auto
termination
  by (relation "measure length") (auto dest!: sym [THEN grow_component_length])

subsection \<open>Order independence\<close>

definition remove_at :: "nat \<Rightarrow> 'a list \<Rightarrow> 'a list" where
  "remove_at i xs = take i xs @ drop (Suc i) xs"

function enumerate_mutation_orders :: "'m list \<Rightarrow> 'm list \<Rightarrow> 'm list list" where
  "enumerate_mutation_orders remaining current =
     (if remaining = [] then [current]
      else concat (map (\<lambda>i. enumerate_mutation_orders (remove_at i remaining) (current @ [remaining ! i]))
                     [0..<length remaining]))"
  by auto
termination
  by (relation "measure (\<lambda>(remaining, _). length remaining)") (auto simp: remove_at_def)

declare enumerate_mutation_orders.simps [simp del]

datatype second_proof = ProofLegacy | ProofRepaired

fun orders_match_from ::
    "position_ledger \<Rightarrow> wallet_address \<Rightarrow> bool \<Rightarrow> (position_snapshot option \<times> u64 option list) option
       \<Rightarrow> 'p ledger_mutation list list \<Rightarrow> ledger_error + bool" where
  "orders_match_from L w single expected [] = Inr True"
| "orders_match_from L w single expected (sequence # rest) =
     (case simulate_all_or_none L sequence of
        Inl e \<Rightarrow> if single then Inl e else Inr False
      | Inr (candidate, applied) \<Rightarrow>
          (let result = (position candidate w, map ae_clamped_residual applied) in
           if (case expected of None \<Rightarrow> False | Some ex \<Rightarrow> ex \<noteq> result) then Inr False
           else orders_match_from L w single (Some result) rest))"

definition all_component_orders_match ::
    "position_ledger \<Rightarrow> wallet_address \<Rightarrow> 'p ledger_mutation list \<Rightarrow> ledger_error + bool" where
  "all_component_orders_match L w component =
     orders_match_from L w (length component = 1) None (enumerate_mutation_orders component [])"

fun same_side_fold ::
    "position_state \<Rightarrow> side \<Rightarrow> 'p ledger_mutation list \<Rightarrow> ledger_error + unit" where
  "same_side_fold st sd [] = Inr ()"
| "same_side_fold st sd (m # ms) =
     (case effective (lm_effect m) of
        Trade _ _ _ amount _ \<Rightarrow>
          (case apply_trade st sd amount (lm_source_trade_id m) of
             (Inl e, _) \<Rightarrow> Inl e
           | (Inr _, st') \<Rightarrow> same_side_fold st' sd ms)
      | _ \<Rightarrow> same_side_fold st sd ms)"

definition is_same_side :: "wallet_address \<Rightarrow> market_id \<Rightarrow> outcome_id \<Rightarrow> side \<Rightarrow> 'p ledger_mutation \<Rightarrow> bool" where
  "is_same_side w mk oc sd m \<longleftrightarrow>
     lm_wallet m = w \<and>
     (case effective (lm_effect m) of
        Trade mk' oc' sd' _ _ \<Rightarrow> mk' = mk \<and> oc' = oc \<and> sd' = sd
      | _ \<Rightarrow> False)"

definition same_side_component_validity ::
    "position_ledger \<Rightarrow> wallet_address \<Rightarrow> 'p ledger_mutation list \<Rightarrow> (ledger_error + unit) option" where
  "same_side_component_validity L w component =
     (case component of
        [] \<Rightarrow> None
      | leading # _ \<Rightarrow>
          (case effective (lm_effect leading) of
             Trade mk oc sd _ _ \<Rightarrow>
               if \<not> list_all (is_same_side w mk oc sd) component then None
               else (let st = (case Option.bind (position L w) (\<lambda>s. positions s (market_outcome mk oc)) of
                                 None \<Rightarrow> default_state | Some s \<Rightarrow> s) in
                     Some (same_side_fold st sd component))
           | _ \<Rightarrow> None))"

definition component_order_independent ::
    "position_ledger \<Rightarrow> wallet_address \<Rightarrow> 'p ledger_mutation list \<Rightarrow> second_proof \<Rightarrow> ledger_error + bool" where
  "component_order_independent L w component mode =
     (let valid = (case mode of
                     ProofRepaired \<Rightarrow> same_side_component_validity L w component
                   | ProofLegacy \<Rightarrow> None) in
      case valid of
        Some (Inr _) \<Rightarrow> Inr True
      | Some (Inl e) \<Rightarrow> if length component = 1 then Inl e else Inr False
      | None \<Rightarrow> if length component \<le> 4 then all_component_orders_match L w component else Inr False)"

fun first_order_dependent ::
    "position_ledger \<Rightarrow> wallet_address \<Rightarrow> second_proof \<Rightarrow> 'p ledger_mutation list list
       \<Rightarrow> ledger_error + source_trade_id option" where
  "first_order_dependent L w mode [] = Inr None"
| "first_order_dependent L w mode ([] # cs) = first_order_dependent L w mode cs"
| "first_order_dependent L w mode ((m # ms) # cs) =
     rbind (component_order_independent L w (m # ms) mode) (\<lambda>ok.
       if ok then first_order_dependent L w mode cs else Inr (Some (lm_source_trade_id m)))"

definition order_independent_validity ::
    "position_ledger \<Rightarrow> wallet_address \<Rightarrow> 'p ledger_mutation list \<Rightarrow> second_proof
       \<Rightarrow> ledger_error + source_trade_id option" where
  "order_independent_validity L w ms mode = first_order_dependent L w mode (mutation_components ms)"

subsection \<open>Components partition the second\<close>

declare mutation_components.simps(2) [simp del]

definition keys_of :: "'p ledger_mutation list \<Rightarrow> market_outcome_id set" where
  "keys_of ms = (\<Union>m\<in>set ms. touched_set m)"

lemma keys_of_simps [simp]:
  "keys_of [] = {}" "keys_of (m # ms) = touched_set m \<union> keys_of ms" "keys_of (xs @ ys) = keys_of xs \<union> keys_of ys"
  by (simp_all add: keys_of_def)

lemma touched_in_keys_of: "m \<in> set ms \<Longrightarrow> touched_set m \<subseteq> keys_of ms"
  by (auto simp: keys_of_def)

lemma absorb_pass_props:
  "absorb_pass keys ms = (keys', taken, left) \<Longrightarrow>
     mset ms = mset taken + mset left \<and> keys' = keys \<union> keys_of taken \<and>
     (\<forall>m\<in>set taken. touched_set m \<noteq> {}) \<and> (taken = [] \<longrightarrow> (\<forall>m\<in>set left. touched_set m \<inter> keys = {}))"
proof (induction ms arbitrary: keys keys' taken left)
  case Nil
  then show ?case by auto
next
  case (Cons m ms)
  show ?case
  proof (cases "list_ex (\<lambda>k. k \<in> keys) (touched_keys m)")
    case True
    then have "touched_set m \<noteq> {}" by (auto simp: touched_set_def list_ex_iff)
    moreover obtain rest where rest: "absorb_pass (keys \<union> touched_set m) ms = (keys', rest, left)"
      and taken: "taken = m # rest"
      using True Cons.prems by (auto simp: touched_set_def split: prod.splits)
    ultimately show ?thesis using Cons.IH [OF rest] by (simp add: taken Un_assoc)
  next
    case False
    then have "touched_set m \<inter> keys = {}" by (auto simp: touched_set_def list_ex_iff)
    moreover obtain rest where rest: "absorb_pass keys ms = (keys', taken, rest)" and left: "left = m # rest"
      using False Cons.prems by (auto split: prod.splits)
    ultimately show ?thesis using Cons.IH [OF rest] by (simp add: left)
  qed
qed

lemma grow_component_props:
  "grow_component keys ms = (grown, left) \<Longrightarrow>
     mset ms = mset grown + mset left \<and> (\<forall>m\<in>set grown. touched_set m \<noteq> {}) \<and>
     (\<forall>m\<in>set left. touched_set m \<inter> (keys \<union> keys_of grown) = {})"
proof (induction keys ms arbitrary: grown left rule: grow_component.induct)
  case (1 keys ms)
  obtain keys' taken rest where pass: "absorb_pass keys ms = (keys', taken, rest)" by (metis prod_cases3)
  note props = absorb_pass_props [OF pass]
  show ?case
  proof (cases "taken = []")
    case True
    with "1.prems" pass props show ?thesis by (auto simp: grow_component.simps)
  next
    case False
    obtain g l where rec: "grow_component keys' rest = (g, l)" by (metis surj_pair)
    with "1.prems" pass False have "grown = taken @ g" "left = l"
      by (auto simp: grow_component.simps [of keys ms])
    moreover have "mset rest = mset g + mset l \<and> (\<forall>m\<in>set g. touched_set m \<noteq> {}) \<and>
       (\<forall>m\<in>set l. touched_set m \<inter> (keys' \<union> keys_of g) = {})"
      by (rule "1.IH" [OF pass [symmetric] refl refl False rec])
    ultimately show ?thesis using props by (auto simp: Un_assoc)
  qed
qed

lemma mutation_components_Cons:
  assumes "grow_component (touched_set m) ms = (grown, left)"
  shows "mutation_components (m # ms) = (m # grown) # mutation_components left"
  using assms by (simp add: touched_set_def mutation_components.simps(2))

lemma mutation_components_mset: "mset (concat (mutation_components ms)) = mset ms"
proof (induction ms rule: mutation_components.induct)
  case (2 m ms)
  obtain grown left where g: "grow_component (touched_set m) ms = (grown, left)" by (metis surj_pair)
  with 2 have "mset (concat (mutation_components left)) = mset left" by (simp add: touched_set_def)
  with grow_component_props [OF g] show ?case by (simp add: mutation_components_Cons [OF g])
qed simp

lemma keys_of_mset: "mset xs = mset ys \<Longrightarrow> keys_of xs = keys_of ys"
  unfolding keys_of_def by (metis set_mset_mset)

lemma component_subset: "c \<in> set (mutation_components ms) \<Longrightarrow> set c \<subseteq> set ms"
  by (metis (no_types, lifting) UN_upper mutation_components_mset set_concat set_mset_mset)

lemma mutation_components_disjoint:
  "sorted_wrt (\<lambda>c d. keys_of c \<inter> keys_of d = {}) (mutation_components ms)"
proof (induction ms rule: mutation_components.induct)
  case (2 m ms)
  obtain grown left where g: "grow_component (touched_set m) ms = (grown, left)" by (metis surj_pair)
  have "keys_of (m # grown) \<inter> keys_of d = {}" if "d \<in> set (mutation_components left)" for d
    using grow_component_props [OF g] component_subset [OF that] unfolding keys_of_def by fastforce
  with 2 g show ?case by (simp add: mutation_components_Cons [OF g] touched_set_def)
qed simp

text \<open>A component is one mutation that touches nothing, or all its mutations touch a key.\<close>

lemma mutation_components_touching:
  "c \<in> set (mutation_components ms) \<Longrightarrow> (\<exists>m. c = [m] \<and> touched_set m = {}) \<or> (c \<noteq> [] \<and> (\<forall>m\<in>set c. touched_set m \<noteq> {}))"
proof (induction ms rule: mutation_components.induct)
  case (2 m ms)
  obtain grown left where g: "grow_component (touched_set m) ms = (grown, left)" by (metis surj_pair)
  have empty: "grown = []" if "touched_set m = {}"
  proof -
    obtain keys' taken rest where pass: "absorb_pass {} ms = (keys', taken, rest)" by (metis prod_cases3)
    have "absorb_pass {} ns = ({}, [], ns)" for ns :: "'a ledger_mutation list"
      by (induction ns) (auto simp: list_ex_iff)
    then show ?thesis using g that by (auto simp: grow_component.simps)
  qed
  consider (rest) "c \<in> set (mutation_components left)" | (mine) "c = m # grown"
    using "2.prems" by (auto simp: mutation_components_Cons [OF g])
  then show ?case
  proof cases
    case rest
    then show ?thesis by (rule "2.IH" [OF g [unfolded touched_set_def, symmetric] refl])
  next
    case mine
    then show ?thesis using empty grow_component_props [OF g] by (cases "touched_set m = {}") auto
  qed
qed simp

lemma class_members:
  assumes c: "c \<in> set (mutation_components ms)" and "keys_of c \<noteq> {}"
  shows "mset (ledger_steps.proj (keys_of c) ms) = mset c"
proof -
  let ?P = "\<lambda>m. touched_set m \<noteq> {} \<and> touched_set m \<subseteq> keys_of c"
  obtain xs ys where split: "mutation_components ms = xs @ c # ys" using c by (meson split_list)
  have none: "filter ?P d = []" if "d \<in> set xs \<union> set ys" for d
  proof -
    have "keys_of d \<inter> keys_of c = {}"
      using mutation_components_disjoint [of ms] that by (auto simp: split sorted_wrt_append)
    then show ?thesis using touched_in_keys_of [of _ d] by (fastforce simp: filter_empty_conv)
  qed
  have all: "filter ?P c = c"
    using mutation_components_touching [OF c] assms(2) touched_in_keys_of [of _ c] by (auto simp: filter_id_conv)
  have "filter ?P (concat ds) = []" if "set ds \<subseteq> set xs \<union> set ys" for ds
    using none that by (induction ds) auto
  then have "filter ?P (concat (mutation_components ms)) = c" by (simp add: split all)
  moreover have "mset (filter ?P ms) = mset (filter ?P (concat (mutation_components ms)))"
    by (simp add: mutation_components_mset)
  ultimately show ?thesis by (simp add: ledger_steps.proj_def)
qed

lemma enumerate_mutation_orders_set:
  "set (enumerate_mutation_orders remaining current) = {current @ p | p. mset p = mset remaining}"
proof (induction remaining current rule: enumerate_mutation_orders.induct)
  case (1 remaining current)
  have rem: "mset (remove_at i remaining) = mset remaining - {#remaining ! i#}" if "i < length remaining" for i
  proof -
    have "mset remaining = mset (take i remaining @ remaining ! i # drop (Suc i) remaining)"
      using that by (simp add: id_take_nth_drop [symmetric])
    then show ?thesis by (simp add: remove_at_def)
  qed
  show ?case
  proof (cases "remaining = []")
    case True
    then show ?thesis by (simp add: enumerate_mutation_orders.simps)
  next
    case False
    have "set (enumerate_mutation_orders remaining current) =
        (\<Union>i<length remaining. {current @ remaining ! i # p | p. mset p = mset remaining - {#remaining ! i#}})"
      using 1 False rem by (auto simp: enumerate_mutation_orders.simps [of remaining])
    also have "\<dots> = {current @ p | p. mset p = mset remaining}"
    proof (intro equalityI subsetI)
      fix ys assume "ys \<in> (\<Union>i<length remaining. {current @ remaining ! i # p | p. mset p = mset remaining - {#remaining ! i#}})"
      then obtain i p where "i < length remaining" "mset p = mset remaining - {#remaining ! i#}"
        "ys = current @ remaining ! i # p" by auto
      then show "ys \<in> {current @ p | p. mset p = mset remaining}"
        by (auto intro!: exI [of _ "remaining ! i # p"])
    next
      fix ys assume "ys \<in> {current @ p | p. mset p = mset remaining}"
      then obtain p where p: "mset p = mset remaining" and ys: "ys = current @ p" by auto
      then obtain x q where xq: "p = x # q" using False by (cases p) auto
      then have "x \<in> set remaining" using p by (metis list.set_intros(1) set_mset_mset)
      then obtain i where "i < length remaining" "remaining ! i = x" by (auto simp: in_set_conv_nth)
      moreover have "mset q = mset remaining - {#x#}" using p xq by (metis add_mset_remove_trivial mset.simps(2))
      ultimately show "ys \<in> (\<Union>i<length remaining. {current @ remaining ! i # p | p. mset p = mset remaining - {#remaining ! i#}})"
        using ys xq by auto
    qed
    finally show ?thesis .
  qed
qed

text \<open>Every absorbed mutation shares a key with what was there before it.\<close>

definition chained :: "market_outcome_id set \<Rightarrow> 'p ledger_mutation list \<Rightarrow> bool" where
  "chained keys ms \<longleftrightarrow> (\<forall>i<length ms. touched_set (ms ! i) \<inter> (keys \<union> keys_of (take i ms)) \<noteq> {})"

lemma chained_Nil [simp]: "chained keys []"
  by (simp add: chained_def)

lemma chained_Cons [simp]:
  "chained keys (m # ms) \<longleftrightarrow> touched_set m \<inter> keys \<noteq> {} \<and> chained (keys \<union> touched_set m) ms"
  by (auto simp: chained_def All_less_Suc2 Un_assoc)

lemma chained_append: "chained keys xs \<Longrightarrow> chained (keys \<union> keys_of xs) ys \<Longrightarrow> chained keys (xs @ ys)"
  by (induction xs arbitrary: keys) (auto simp: Un_assoc)

lemma absorb_pass_chained: "absorb_pass keys ms = (keys', taken, left) \<Longrightarrow> chained keys taken"
proof (induction ms arbitrary: keys keys' taken left)
  case (Cons m ms)
  then show ?case
    by (cases "list_ex (\<lambda>k. k \<in> keys) (touched_keys m)")
      (auto simp: list_ex_iff touched_set_def split: prod.splits)
qed simp

lemma grow_component_chained: "grow_component keys ms = (grown, left) \<Longrightarrow> chained keys grown"
proof (induction keys ms arbitrary: grown left rule: grow_component.induct)
  case (1 keys ms)
  obtain keys' taken rest where pass: "absorb_pass keys ms = (keys', taken, rest)" by (metis prod_cases3)
  show ?case
  proof (cases "taken = []")
    case True
    with "1.prems" pass show ?thesis by (auto simp: grow_component.simps)
  next
    case False
    obtain g l where rec: "grow_component keys' rest = (g, l)" by (metis surj_pair)
    with "1.prems" pass False have "grown = taken @ g" by (auto simp: grow_component.simps [of keys ms])
    moreover have "chained keys' g" by (rule "1.IH" [OF pass [symmetric] refl refl False rec])
    ultimately show ?thesis
      using absorb_pass_chained [OF pass] absorb_pass_props [OF pass] by (simp add: chained_append)
  qed
qed

lemma mutation_components_chained:
  "c \<in> set (mutation_components ms) \<Longrightarrow> \<exists>m rest. c = m # rest \<and> chained (touched_set m) rest"
proof (induction ms rule: mutation_components.induct)
  case (2 m ms)
  obtain grown left where g: "grow_component (touched_set m) ms = (grown, left)" by (metis surj_pair)
  consider (rest) "c \<in> set (mutation_components left)" | (mine) "c = m # grown"
    using "2.prems" by (auto simp: mutation_components_Cons [OF g])
  then show ?case
  proof cases
    case rest
    then show ?thesis by (rule "2.IH" [OF g [unfolded touched_set_def, symmetric] refl])
  next
    case mine
    then show ?thesis using grow_component_chained [OF g] by blast
  qed
qed simp

lemma chained_side:
  assumes "chained keys ms" and "keys \<subseteq> keys_of xs" and "keys_of xs \<inter> keys_of ys = {}" and "set ms \<subseteq> set xs \<union> set ys"
  shows "set ms \<subseteq> set xs"
  using assms
proof (induction ms arbitrary: keys)
  case (Cons m ms)
  have "m \<notin> set ys" using Cons.prems touched_in_keys_of [of m ys] by auto
  then have "m \<in> set xs" using Cons.prems(4) by auto
  then have "keys \<union> touched_set m \<subseteq> keys_of xs" using Cons.prems(2) touched_in_keys_of by blast
  then have "set ms \<subseteq> set xs" by (intro Cons.IH [of "keys \<union> touched_set m"]) (use Cons.prems in auto)
  with \<open>m \<in> set xs\<close> show ?case by simp
qed simp

lemma component_connected:
  assumes c: "c \<in> set (mutation_components ms)" and split: "mset c = mset (xs @ ys)"
    and ne: "xs \<noteq> []" "ys \<noteq> []"
  shows "keys_of xs \<inter> keys_of ys \<noteq> {}"
proof
  assume disj: "keys_of xs \<inter> keys_of ys = {}"
  obtain m rest where mr: "c = m # rest" "chained (touched_set m) rest"
    using mutation_components_chained [OF c] by blast
  have sets: "set c = set xs \<union> set ys" using split by (metis set_append set_mset_mset)
  have "length c = length xs + length ys" using split by (metis length_append size_mset)
  moreover have "length xs > 0" "length ys > 0" using ne by simp_all
  ultimately have "length c \<ge> 2" by linarith
  then have touch: "\<forall>m\<in>set c. touched_set m \<noteq> {}"
    using mutation_components_touching [OF c] by auto
  have one_side: "set c \<subseteq> set as" if "m \<in> set as" "keys_of as \<inter> keys_of bs = {}" "set c = set as \<union> set bs" for as bs
  proof -
    have "set rest \<subseteq> set as"
      by (rule chained_side [OF mr(2) touched_in_keys_of [OF that(1)] that(2)]) (use that(3) mr(1) in auto)
    with that(1) mr(1) show ?thesis by simp
  qed
  have no: "set c \<subseteq> set as \<Longrightarrow> keys_of as \<inter> keys_of bs = {} \<Longrightarrow> set bs \<subseteq> set c \<Longrightarrow> bs \<noteq> [] \<Longrightarrow> False" for as bs
  proof -
    assume *: "set c \<subseteq> set as" "keys_of as \<inter> keys_of bs = {}" "set bs \<subseteq> set c" "bs \<noteq> []"
    then obtain b where "b \<in> set bs" by (cases bs) auto
    then show False using * touch touched_in_keys_of [of b as] touched_in_keys_of [of b bs] by blast
  qed
  have "m \<in> set xs \<or> m \<in> set ys" using sets mr(1) by auto
  then show False
    using one_side [of xs ys] one_side [of ys xs] no [of xs ys] no [of ys xs] disj sets ne by auto
qed

subsection \<open>Every order of an accepted component ends alike\<close>

lemma ledger_step_other_wallet:
  "ledger_step s m = Some s' \<Longrightarrow> w \<noteq> lm_wallet m \<Longrightarrow> entry (fst s') w key = entry (fst s) w key"
  by (cases s; cases "effective (lm_effect m)")
    (auto simp: ledger_step_def apply_in_place_simps split: if_splits sum.splits prod.splits)

lemma run_other_wallet:
  "ledger_steps.run s ms = Some s' \<Longrightarrow> (\<And>m. m \<in> set ms \<Longrightarrow> w \<noteq> lm_wallet m) \<Longrightarrow>
   entry (fst s') w key = entry (fst s) w key"
proof (induction ms arbitrary: s)
  case (Cons m ms)
  then obtain t where t: "ledger_step s m = Some t" "ledger_steps.run t ms = Some s'"
    by (auto simp: bind_eq_Some_conv)
  have "entry (fst s') w key = entry (fst t) w key" using Cons.IH [OF t(2)] Cons.prems(2) by simp
  also have "\<dots> = entry (fst s) w key" using ledger_step_other_wallet [OF t(1)] Cons.prems(2) by simp
  finally show ?case .
qed simp

lemma orders_match_from_True:
  assumes "orders_match_from L w single ex qs = Inr True"
  shows "\<exists>r. (\<forall>q\<in>set qs. \<exists>cand applied. simulate_all_or_none L q = Inr (cand, applied) \<and>
                (position cand w, map ae_clamped_residual applied) = r) \<and>
              (\<forall>e. ex = Some e \<longrightarrow> r = e)"
  using assms
proof (induction qs arbitrary: ex)
  case Nil
  then show ?case by (cases ex) auto
next
  case (Cons q qs)
  obtain cand applied where sim: "simulate_all_or_none L q = Inr (cand, applied)"
    using Cons.prems by (auto split: sum.splits if_splits)
  let ?r = "(position cand w, map ae_clamped_residual applied)"
  have "orders_match_from L w single (Some ?r) qs = Inr True" and ex: "\<forall>e. ex = Some e \<longrightarrow> ?r = e"
    using Cons.prems sim by (auto simp: Let_def split: if_splits option.splits)
  from Cons.IH [OF this(1)] ex sim show ?case by fastforce
qed

lemma position_entry: "position A w = position B w \<Longrightarrow> entry A w key = entry B w key"
  by (simp add: entry_def position_def)

lemma exhaustive_sound:
  assumes wallets: "\<forall>m\<in>set c. lm_wallet m = w"
    and "all_component_orders_match L w c = Inr True"
    and p: "mset p = mset c" and q: "mset q = mset c"
  shows "\<exists>A B ca cb. ledger_steps.run (L, {}) p = Some (A, ca) \<and> ledger_steps.run (L, {}) q = Some (B, cb) \<and>
           (\<forall>v key. entry A v key = entry B v key)"
proof -
  have orders: "set (enumerate_mutation_orders c []) = {p. mset p = mset c}"
    by (simp add: enumerate_mutation_orders_set)
  obtain r where r: "\<And>p. mset p = mset c \<Longrightarrow> \<exists>cand applied. simulate_all_or_none L p = Inr (cand, applied) \<and>
      (position cand w, map ae_clamped_residual applied) = r"
    using orders_match_from_True [OF assms(2) [unfolded all_component_orders_match_def]]
    unfolding orders by blast
  from r [OF p] obtain A aa where A: "simulate_all_or_none L p = Inr (A, aa)" and Ar: "position A w = fst r"
    by auto
  from r [OF q] obtain B ab where B: "simulate_all_or_none L q = Inr (B, ab)" and Br: "position B w = fst r"
    by auto
  from Ar Br have same: "position A w = position B w" by simp
  obtain ca cb where runs: "ledger_steps.run (L, {}) p = Some (A, ca)" "ledger_steps.run (L, {}) q = Some (B, cb)"
    using A B simulate_run by metis
  have sets: "set p = set c" "set q = set c" using p q by (metis set_mset_mset)+
  have "entry A v key = entry B v key" for v key
  proof (cases "v = w")
    case True
    then show ?thesis using position_entry [OF same] by simp
  next
    case False
    then have "entry A v key = entry L v key" "entry B v key = entry L v key"
      using run_other_wallet [OF runs(1)] run_other_wallet [OF runs(2)] wallets sets by auto
    then show ?thesis by simp
  qed
  with runs show ?thesis by blast
qed

definition trade_amount :: "'p ledger_mutation \<Rightarrow> nat" where
  "trade_amount m = (case effective (lm_effect m) of Trade _ _ _ a _ \<Rightarrow> unat a | _ \<Rightarrow> 0)"

lemma trade_fits_mono: "trade_fits st sd (a + b) \<Longrightarrow> trade_fits st sd a"
  by (cases sd) (auto simp: trade_fits_def)

lemma trade_fits_0: "trade_fits st sd 0"
  using unat_less_len [of "long_contracts st"] unat_less_len [of "short_contracts st"]
  by (cases sd) (simp_all add: trade_fits_def)

lemma same_side_step:
  assumes "is_same_side w mk oc sd m"
  shows "ledger_step (L, {}) m =
    (let key = market_outcome mk oc; st = state_at L w key in
     if trade_fits st sd (trade_amount m) then Some (write_state L w key (traded st sd (trade_amount m)), {}) else None)"
proof -
  obtain a p where eff: "effective (lm_effect m) = Trade mk oc sd a p" and w: "lm_wallet m = w"
    using assms by (auto simp: is_same_side_def split: ledger_effect.splits)
  then show ?thesis
    using apply_trade_eq [of "state_at L w (market_outcome mk oc)" sd a "lm_source_trade_id m"]
    by (auto simp: ledger_step_def apply_in_place_simps trade_amount_def split: prod.splits)
qed

lemma same_side_run:
  assumes "\<forall>m\<in>set p. is_same_side w mk oc sd m" and "p \<noteq> []"
  shows "ledger_steps.run (L, {}) p =
    (let key = market_outcome mk oc; st = state_at L w key; n = sum_list (map trade_amount p) in
     if trade_fits st sd n then Some (write_state L w key (traded st sd n), {}) else None)"
  using assms
proof (induction p arbitrary: L)
  case Nil
  then show ?case by simp
next
  case (Cons m ms)
  let ?st = "state_at L w (market_outcome mk oc)" and ?a = "trade_amount m"
  show ?case
  proof (cases "trade_fits ?st sd ?a")
    case True
    with Cons show ?thesis
      by (cases "ms = []") (auto simp: same_side_step Let_def trade_fits_traded)
  next
    case False
    then show ?thesis using Cons.prems trade_fits_mono by (auto simp: same_side_step Let_def)
  qed
qed

lemma same_side_fold_iff:
  assumes "\<forall>m\<in>set p. is_same_side w mk oc sd m"
  shows "same_side_fold st sd p = Inr () \<longleftrightarrow> trade_fits st sd (sum_list (map trade_amount p))"
  using assms
proof (induction p arbitrary: st)
  case Nil
  then show ?case by (simp add: trade_fits_0)
next
  case (Cons m ms)
  obtain a p where eff: "effective (lm_effect m) = Trade mk oc sd a p"
    using Cons.prems by (auto simp: is_same_side_def split: ledger_effect.splits)
  then have am: "trade_amount m = unat a" by (simp add: trade_amount_def)
  show ?case
  proof (cases "trade_fits st sd (unat a)")
    case True
    then have "apply_trade st sd a (lm_source_trade_id m) = (Inr (), traded st sd (unat a))"
      by (simp add: apply_trade_eq)
    with Cons True show ?thesis by (simp add: eff am trade_fits_traded)
  next
    case False
    then have "apply_trade st sd a (lm_source_trade_id m) =
        (Inl (ErrOverflow (lm_source_trade_id m)), snd (apply_trade st sd a (lm_source_trade_id m)))"
      by (subst apply_trade_eq) simp
    then obtain z where "apply_trade st sd a (lm_source_trade_id m) = (Inl (ErrOverflow (lm_source_trade_id m)), z)" by blast
    with False show ?thesis using trade_fits_mono by (auto simp: eff am)
  qed
qed


lemma same_side_sound:
  assumes "\<forall>m\<in>set c. is_same_side w mk oc sd m" and "c \<noteq> []"
    and "same_side_fold (state_at L w (market_outcome mk oc)) sd c = Inr ()"
    and "mset p = mset c"
  shows "ledger_steps.run (L, {}) p =
    Some (write_state L w (market_outcome mk oc)
            (traded (state_at L w (market_outcome mk oc)) sd (sum_list (map trade_amount c))), {})"
proof -
  have "set p = set c" using assms(4) by (metis set_mset_mset)
  moreover have "p \<noteq> []" using assms(2,4) by auto
  moreover have "sum_list (map trade_amount p) = sum_list (map trade_amount c)"
    using assms(4) by (metis mset_map sum_mset_sum_list)
  ultimately show ?thesis
    using assms(1,3) by (simp add: same_side_run [of p w mk oc sd] same_side_fold_iff [OF assms(1)] Let_def)
qed

lemma same_side_validity_cases:
  assumes "same_side_component_validity L w c = Some r"
  obtains mk oc sd where "c \<noteq> []" "\<forall>m\<in>set c. is_same_side w mk oc sd m"
    "r = same_side_fold (state_at L w (market_outcome mk oc)) sd c"
proof -
  obtain m ms where c: "c = m # ms" using assms by (cases c) (auto simp: same_side_component_validity_def)
  obtain mk oc sd a p where eff: "effective (lm_effect m) = Trade mk oc sd a p"
    using assms by (cases "effective (lm_effect m)") (auto simp: same_side_component_validity_def c)
  have "list_all (is_same_side w mk oc sd) c" and "r = same_side_fold (state_at L w (market_outcome mk oc)) sd c"
    using assms by (auto simp: same_side_component_validity_def c eff Let_def state_at_entry entry_def position_def
        split: if_splits)
  with c that show ?thesis by (auto simp: list_all_iff)
qed

lemma component_sound:
  assumes wallets: "\<forall>m\<in>set c. lm_wallet m = w"
    and ok: "component_order_independent L w c mode = Inr True"
    and p: "mset p = mset c" and q: "mset q = mset c"
  shows "\<exists>A B ca cb. ledger_steps.run (L, {}) p = Some (A, ca) \<and> ledger_steps.run (L, {}) q = Some (B, cb) \<and>
           (\<forall>v key. entry A v key = entry B v key)"
proof (cases "\<exists>r. mode = ProofRepaired \<and> same_side_component_validity L w c = Some r")
  case True
  then obtain r where r: "mode = ProofRepaired" "same_side_component_validity L w c = Some r" by blast
  with ok have "r = Inr ()" by (auto simp: component_order_independent_def split: sum.splits if_splits)
  with r(2) obtain mk oc sd where "c \<noteq> []" "\<forall>m\<in>set c. is_same_side w mk oc sd m"
    "same_side_fold (state_at L w (market_outcome mk oc)) sd c = Inr ()"
    by (metis same_side_validity_cases)
  from same_side_sound [OF this(2,1,3) p] same_side_sound [OF this(2,1,3) q] show ?thesis by simp
next
  case False
  then have "all_component_orders_match L w c = Inr True"
    using ok by (auto simp: component_order_independent_def split: second_proof.splits option.splits if_splits)
  from exhaustive_sound [OF wallets this p q] show ?thesis .
qed

lemma first_order_dependent_None:
  "first_order_dependent L w mode cs = Inr None \<Longrightarrow> c \<in> set cs \<Longrightarrow> c \<noteq> [] \<Longrightarrow>
   component_order_independent L w c mode = Inr True"
  by (induction L w mode cs rule: first_order_dependent.induct) (auto simp: result_simps split: if_splits)

lemma components_disjoint:
  assumes "c \<in> set (mutation_components ms)" and "d \<in> set (mutation_components ms)" and "keys_of c \<noteq> keys_of d"
  shows "keys_of c \<inter> keys_of d = {}"
proof -
  obtain i j where ij: "i < length (mutation_components ms)" "j < length (mutation_components ms)"
    "mutation_components ms ! i = c" "mutation_components ms ! j = d"
    using assms(1,2) by (auto simp: in_set_conv_nth)
  then have "i < j \<or> j < i" using assms(3) by (metis nat_neq_iff)
  then show ?thesis
    using mutation_components_disjoint [of ms] ij unfolding sorted_wrt_iff_nth_less by (metis inf_commute)
qed

lemma mutation_in_component: "m \<in> set ms \<Longrightarrow> \<exists>c\<in>set (mutation_components ms). m \<in> set c"
  by (metis UN_E mutation_components_mset set_concat set_mset_mset)

lemma valid_component:
  assumes "order_independent_validity L w ms mode = Inr None" and "c \<in> set (mutation_components ms)"
  shows "component_order_independent L w c mode = Inr True"
proof -
  have "c \<noteq> []" using mutation_components_touching [OF assms(2)] by auto
  then show ?thesis
    using first_order_dependent_None assms unfolding order_independent_validity_def by blast
qed

lemma valid_second_orders:
  assumes wallets: "\<forall>m\<in>set ms. lm_wallet m = w"
    and valid: "order_independent_validity L w ms mode = Inr None"
  shows "\<exists>s0. \<forall>ms'. mset ms' = mset ms \<longrightarrow>
           (\<exists>s'. ledger_steps.run (L, {}) ms' = Some s' \<and> (\<forall>k. fst (ledger_view s' k) = fst (ledger_view s0 k)))"
proof -
  let ?comps = "mutation_components ms" and ?s = "(L, {})"
  have sound: "\<exists>A B ca cb. ledger_steps.run ?s p = Some (A, ca) \<and> ledger_steps.run ?s q = Some (B, cb) \<and>
      (\<forall>v key. entry A v key = entry B v key)" if "c \<in> set ?comps" "mset p = mset c" "mset q = mset c" for c p q
    by (rule component_sound [OF _ valid_component [OF valid that(1)] that(2,3)])
      (use wallets component_subset [OF that(1)] in auto)
  show ?thesis
  proof (rule ledger_steps.run_permuted [where KS = "keys_of ` {c \<in> set ?comps. keys_of c \<noteq> {}}"])
    fix K K' assume "K \<in> keys_of ` {c \<in> set ?comps. keys_of c \<noteq> {}}" "K' \<in> keys_of ` {c \<in> set ?comps. keys_of c \<noteq> {}}"
      "K \<noteq> K'"
    then show "K \<inter> K' = {}" using components_disjoint by blast
  next
    fix m assume "m \<in> set ms" "touched_set m \<noteq> {}"
    then show "\<exists>K\<in>keys_of ` {c \<in> set ?comps. keys_of c \<noteq> {}}. touched_set m \<subseteq> K"
      using mutation_in_component touched_in_keys_of by fastforce
  next
    fix m assume m: "m \<in> set ms" "touched_set m = {}"
    then obtain c where c: "c \<in> set ?comps" "m \<in> set c" using mutation_in_component by blast
    then have "c = [m]" using mutation_components_touching m(2) by fastforce
    then show "ledger_step ?s m \<noteq> None" using sound [OF c(1) refl refl] by (auto simp: bind_eq_Some_conv)
  next
    fix K p assume K: "K \<in> keys_of ` {c \<in> set ?comps. keys_of c \<noteq> {}}" and p: "mset p = mset (ledger_steps.proj K ms)"
    then obtain c where c: "c \<in> set ?comps" "keys_of c = K" "keys_of c \<noteq> {}" by auto
    with p class_members have pc: "mset p = mset c" "mset (ledger_steps.proj K ms) = mset c" by metis+
    from sound [OF c(1) pc]
    show "\<exists>t. ledger_steps.run ?s p = Some t \<and>
        (\<forall>k\<in>K. fst (ledger_view t k) = fst (ledger_view (the (ledger_steps.run ?s (ledger_steps.proj K ms))) k))"
      by (auto simp: ledger_view_def)
  qed
qed

lemma same_side_residuals:
  "apply_all_from (L, {}) p = (Inr applied, s') \<Longrightarrow> \<forall>m\<in>set p. is_same_side w mk oc sd m \<Longrightarrow>
   map ae_clamped_residual applied = replicate (length p) None"
proof (induction p arbitrary: L applied)
  case (Cons m ms)
  obtain a pr where eff: "effective (lm_effect m) = Trade mk oc sd a pr" and w: "lm_wallet m = w"
    using Cons.prems(2) by (auto simp: is_same_side_def split: ledger_effect.splits)
  obtain x L1 where step: "apply_in_place (L, {}) m = (Inr x, L1, {})" and res: "ae_clamped_residual x = None"
    using Cons.prems(1) by (auto simp: apply_in_place_simps eff result_simps split: prod.splits sum.splits if_splits)
  with Cons.prems(1) obtain rest where "apply_all_from (L1, {}) ms = (Inr rest, s')" "applied = x # rest"
    by (auto simp: result_simps split: prod.splits sum.splits)
  with Cons.IH Cons.prems(2) res show ?case by auto
qed auto

lemma orders_match_all_same:
  assumes "\<forall>q\<in>set qs. \<exists>applied. simulate_all_or_none L q = Inr (A, applied) \<and> map ae_clamped_residual applied = rs"
    and "ex = None \<or> ex = Some (position A w, rs)"
  shows "orders_match_from L w single ex qs = Inr True"
  using assms by (induction qs arbitrary: ex) (auto simp: Let_def split: option.splits)

lemma same_side_accepted:
  assumes ne: "c \<noteq> []" and side: "\<forall>m\<in>set c. is_same_side w mk oc sd m"
    and ok: "same_side_fold (state_at L w (market_outcome mk oc)) sd c = Inr ()"
  shows "all_component_orders_match L w c = Inr True"
proof -
  let ?A = "write_state L w (market_outcome mk oc)
            (traded (state_at L w (market_outcome mk oc)) sd (sum_list (map trade_amount c)))"
  have "\<exists>applied. simulate_all_or_none L q = Inr (?A, applied) \<and> map ae_clamped_residual applied = replicate (length c) None"
    if q: "mset q = mset c" for q
  proof -
    obtain applied where all: "apply_all_from (L, {}) q = (Inr applied, ?A, {})"
      using same_side_sound [OF side ne ok q] by (auto simp: run_apply_all_from split: prod.splits sum.splits)
    have "set q = set c" "length q = length c" using q by (metis set_mset_mset, metis size_mset)
    then have "map ae_clamped_residual applied = replicate (length c) None"
      using same_side_residuals [OF all] side by simp
    then show ?thesis using all by (auto simp: simulate_all_or_none_def apply_all_in_place_def)
  qed
  then show ?thesis
    unfolding all_component_orders_match_def
    by (intro orders_match_all_same) (auto simp: enumerate_mutation_orders_set)
qed

lemma same_side_rejected:
  assumes ne: "c \<noteq> []" and side: "\<forall>m\<in>set c. is_same_side w mk oc sd m"
    and no: "same_side_fold (state_at L w (market_outcome mk oc)) sd c = Inl e"
    and q: "mset q = mset c"
  shows "\<exists>e'. simulate_all_or_none L q = Inl e'" and "c = [m] \<Longrightarrow> simulate_all_or_none L c = Inl e"
proof -
  have "\<not> trade_fits (state_at L w (market_outcome mk oc)) sd (sum_list (map trade_amount c))"
    using no by (simp flip: same_side_fold_iff [OF side])
  moreover have "set q = set c" using q by (metis set_mset_mset)
  moreover have "q \<noteq> []" using q ne by auto
  moreover have "sum_list (map trade_amount q) = sum_list (map trade_amount c)"
    using q by (metis mset_map sum_mset_sum_list)
  ultimately have "ledger_steps.run (L, {}) q = None"
    using side by (simp add: same_side_run [of q w mk oc sd] Let_def)
  then show "\<exists>e'. simulate_all_or_none L q = Inl e'"
    by (auto simp: run_apply_all_from simulate_all_or_none_def apply_all_in_place_def split: prod.splits sum.splits)
  assume m: "c = [m]"
  obtain a pr where eff: "effective (lm_effect m) = Trade mk oc sd a pr" and wm: "lm_wallet m = w"
    using side m by (auto simp: is_same_side_def split: ledger_effect.splits)
  show "simulate_all_or_none L c = Inl e"
    using no by (auto simp: m eff wm simulate_all_or_none_def apply_all_in_place_def apply_in_place_simps
        split: prod.splits sum.splits)
qed

subsection \<open>A sample second\<close>

text \<open>
  Two buys of one outcome, and a split with a buy of one of its outcomes: two components, the first
  decided by the fold and the second by enumeration.
\<close>

definition sample_wallet :: wallet_address where "sample_wallet = replicate 20 7"

definition sample_mutation :: "string \<Rightarrow> nat ledger_effect \<Rightarrow> nat ledger_mutation" where
  "sample_mutation sid e =
     \<lparr>lm_source_trade_id = sid, lm_transaction_hash = ''0x1'', lm_wallet = sample_wallet,
      lm_source_time = 1700000000, lm_effect = e\<rparr>"

definition sample_buys :: "nat ledger_mutation list" where
  "sample_buys = [sample_mutation ''a'' (Trade ''m'' 0 Buy 5 3), sample_mutation ''b'' (Trade ''m'' 0 Buy 9 3)]"

definition sample_split :: "nat ledger_mutation list" where
  "sample_split = [sample_mutation ''c'' (Split ''n'' 4), sample_mutation ''d'' (Trade ''n'' 1 Buy 2 3)]"

lemma sample_components: "mutation_components (sample_buys @ sample_split) = [sample_buys, sample_split]"
  by code_simp

lemma sample_orders: "enumerate_mutation_orders sample_split [] = [sample_split, rev sample_split]"
  by code_simp

lemma sample_split_match: "all_component_orders_match ledger_new sample_wallet sample_split = Inr True"
  unfolding all_component_orders_match_def sample_orders
  by (simp add: sample_split_def sample_mutation_def simulate_all_or_none_def apply_all_in_place_def
      apply_in_place_simps apply_trade_def amount_checked_add_def amount_checked_sub_def checked_add_def checked_sub_def
      position_def write_state_def entry_snapshot_def state_at_def ledger_new_def default_state_def market_outcome_def fun_upd_twist)

lemma sample_valid: "order_independent_validity ledger_new sample_wallet (sample_buys @ sample_split) ProofRepaired = Inr None"
  unfolding order_independent_validity_def sample_components
  using sample_split_match
  by (simp add: sample_buys_def sample_split_def sample_mutation_def component_order_independent_def same_side_component_validity_def
      is_same_side_def apply_trade_def amount_checked_add_def amount_checked_sub_def checked_add_def checked_sub_def
      position_def ledger_new_def default_state_def)
subsection \<open>Properties\<close>

text \<open>C1. If the equal-second check accepts the mutations of one wallet, then there is one final ledger
  that applying the whole second reaches in every order: each order succeeds, with the same positions
  of every wallet.\<close>

theorem equal_second_order_independent:
  assumes wallets: "\<forall>m\<in>set ms. lm_wallet m = w"
    and valid: "order_independent_validity L w ms mode = Inr None"
  shows "\<exists>L'. \<forall>ms'. mset ms' = mset ms \<longrightarrow> (\<exists>applied. simulate_all_or_none L ms' = Inr (L', applied))"
proof -
  obtain s0 where s0: "\<And>ms'. mset ms' = mset ms \<Longrightarrow> \<exists>s'. ledger_steps.run (L, {}) ms' = Some s' \<and>
      (\<forall>k. fst (ledger_view s' k) = fst (ledger_view s0 k))"
    using valid_second_orders [OF assms] by blast
  obtain L0 c0 where L0: "ledger_steps.run (L, {}) ms = Some (L0, c0)"
    and v0: "\<And>k. fst (ledger_view (L0, c0) k) = fst (ledger_view s0 k)" using s0 [OF refl] by auto
  have "\<exists>c. ledger_steps.run (L, {}) ms' = Some (L0, c)" if perm: "mset ms' = mset ms" for ms'
  proof -
    obtain A c where A: "ledger_steps.run (L, {}) ms' = Some (A, c)"
      and v: "\<And>k. fst (ledger_view (A, c) k) = fst (ledger_view s0 k)" using s0 [OF perm] by auto
    have "A = L0"
    proof (rule extends_unique)
      show "extends L A" using extends_run [OF A] by simp
      show "extends L L0" using extends_run [OF L0] by simp
      show "entry A w key = entry L0 w key" for w key
        using v [of key] v0 [of key] by (simp add: ledger_view_def fun_eq_iff)
    qed
    with A show ?thesis by blast
  qed
  then show ?thesis using simulate_run by blast
qed

theorem equal_second_order_independent_witness:
  "order_independent_validity ledger_new sample_wallet (sample_buys @ sample_split) ProofRepaired = Inr None \<and>
   (\<exists>L' a b. simulate_all_or_none ledger_new (sample_buys @ sample_split) = Inr (L', a) \<and>
      simulate_all_or_none ledger_new (rev (sample_buys @ sample_split)) = Inr (L', b))"
proof -
  have "\<forall>m\<in>set (sample_buys @ sample_split). lm_wallet m = sample_wallet"
    by (simp add: sample_buys_def sample_split_def sample_mutation_def)
  from equal_second_order_independent [OF this sample_valid] sample_valid show ?thesis by (metis mset_rev)
qed

text \<open>C12. The one-pass fold for a component on one side of one market outcome gives, for a component of
  any length, exactly the verdict of enumerating all its orders: the same acceptance, the same
  rejection, and for a single mutation the same error.\<close>

theorem same_side_fast_path_exact:
  assumes "same_side_component_validity L w c = Some r"
  shows "component_order_independent L w c ProofRepaired = all_component_orders_match L w c"
proof -
  obtain mk oc sd where ne: "c \<noteq> []" and side: "\<forall>m\<in>set c. is_same_side w mk oc sd m"
    and r: "r = same_side_fold (state_at L w (market_outcome mk oc)) sd c"
    using assms by (rule same_side_validity_cases)
  show ?thesis
  proof (cases r)
    case (Inr u)
    then show ?thesis using same_side_accepted [OF ne side] r assms by (simp add: component_order_independent_def)
  next
    case (Inl e)
    have orders: "set (enumerate_mutation_orders c []) = {p. mset p = mset c}"
      by (simp add: enumerate_mutation_orders_set)
    then obtain q qs where enum: "enumerate_mutation_orders c [] = q # qs"
      by (cases "enumerate_mutation_orders c []") auto
    then have q: "mset q = mset c" using orders by auto
    note no = same_side_rejected [OF ne side r [symmetric, unfolded Inl] q]
    show ?thesis
    proof (cases "length c = 1")
      case True
      then obtain m where m: "c = [m]" by (cases c) auto
      then have "q = c" using q by simp
      then show ?thesis
        using assms Inl no(2) [OF m] True by (simp add: component_order_independent_def all_component_orders_match_def enum)
    next
      case False
      then show ?thesis
        using assms Inl no(1) by (auto simp: component_order_independent_def all_component_orders_match_def enum)
    qed
  qed
qed

theorem same_side_fast_path_exact_witness:
  "same_side_component_validity ledger_new sample_wallet sample_buys = Some (Inr ()) \<and>
   component_order_independent ledger_new sample_wallet sample_buys ProofRepaired =
     all_component_orders_match ledger_new sample_wallet sample_buys"
proof -
  have "same_side_component_validity ledger_new sample_wallet sample_buys = Some (Inr ())"
    by (simp add: sample_buys_def sample_mutation_def same_side_component_validity_def is_same_side_def
        apply_trade_def amount_checked_add_def amount_checked_sub_def checked_add_def checked_sub_def
        position_def ledger_new_def default_state_def)
  with same_side_fast_path_exact [OF this] show ?thesis by blast
qed

text \<open>C13. The components of a second are its connected components under shared keys: every mutation
  is in exactly one, no two components touch a common key, and no component can be divided into two
  parts that touch disjoint keys.\<close>

theorem mutation_components_partition:
  "mset (concat (mutation_components ms)) = mset ms \<and>
   sorted_wrt (\<lambda>c d. keys_of c \<inter> keys_of d = {}) (mutation_components ms) \<and>
   (\<forall>c\<in>set (mutation_components ms). \<forall>xs ys.
      mset c = mset (xs @ ys) \<longrightarrow> xs \<noteq> [] \<longrightarrow> ys \<noteq> [] \<longrightarrow> keys_of xs \<inter> keys_of ys \<noteq> {})"
  using mutation_components_mset mutation_components_disjoint component_connected by blast

theorem mutation_components_partition_witness:
  "sample_split \<in> set (mutation_components (sample_buys @ sample_split)) \<and>
   keys_of (take 1 sample_split) \<inter> keys_of (drop 1 sample_split) \<noteq> {}"
proof -
  have "sample_split \<in> set (mutation_components (sample_buys @ sample_split))" by (simp add: sample_components)
  moreover have "take 1 sample_split \<noteq> []" "drop 1 sample_split \<noteq> []" by (simp_all add: sample_split_def)
  moreover have "mset sample_split = mset (take 1 sample_split @ drop 1 sample_split)" by simp
  ultimately show ?thesis using mutation_components_partition [of "sample_buys @ sample_split"] by blast
qed

end
