(* ===== verification/Ledger_Properties.thy ===== *)
theory Ledger_Properties
  imports Equal_Second
begin

section \<open>What the ledger guarantees\<close>

text \<open>
  The contract of \<open>crates/position-ledger/src/lib.rs\<close>: batches are atomic and name the mutation that
  failed, trades conserve net exposure, clamped redemptions stay within one quantum and close their
  key, the classifier's verdict is what the ledger then does, and what \<open>restore\<close> undoes.
\<close>

subsection \<open>Lemmas\<close>





lemma apply_all_from_nth:
  "apply_all_from s ms = (Inr applied, s') \<Longrightarrow> i < length ms \<Longrightarrow>
   \<exists>si s1. ledger_steps.run s (take i ms) = Some si \<and> apply_in_place si (ms ! i) = (Inr (applied ! i), s1) \<and>
     ledger_steps.run s1 (drop (Suc i) ms) = Some s' \<and> length applied = length ms"
proof (induction ms arbitrary: s applied i)
  case (Cons m ms)
  obtain a rest s1 where step: "apply_in_place s m = (Inr a, s1)" and rest: "apply_all_from s1 ms = (Inr rest, s')"
    and applied: "applied = a # rest"
    using Cons.prems(1) by (auto simp: result_simps split: prod.splits sum.splits)
  have len: "length rest = length ms"
    using rest by (induction ms arbitrary: s1 rest) (auto simp: result_simps split: prod.splits sum.splits)
  show ?case
  proof (cases i)
    case 0
    have "ledger_steps.run s1 ms = Some s'" using rest by (simp add: run_apply_all_from)
    then have "ledger_steps.run s (take i (m # ms)) = Some s \<and>
        apply_in_place s ((m # ms) ! i) = (Inr (applied ! i), s1) \<and>
        ledger_steps.run s1 (drop (Suc i) (m # ms)) = Some s' \<and> length applied = length (m # ms)"
      using 0 step applied len by simp
    then show ?thesis by metis
  next
    case (Suc j)
    then obtain si t where "ledger_steps.run s1 (take j ms) = Some si" "apply_in_place si (ms ! j) = (Inr (rest ! j), t)"
      "ledger_steps.run t (drop (Suc j) ms) = Some s'"
      using Cons.prems(2) Cons.IH [OF rest, of j] by auto
    moreover have "ledger_step s m = Some s1" using step by (simp add: ledger_step_def)
    ultimately have "ledger_steps.run s (take i (m # ms)) = Some si \<and>
        apply_in_place si ((m # ms) ! i) = (Inr (applied ! i), t) \<and>
        ledger_steps.run t (drop (Suc i) (m # ms)) = Some s' \<and> length applied = length (m # ms)"
      using Suc applied len by simp
    then show ?thesis by metis
  qed
qed simp

lemma simulate_cases:
  "simulate_all_or_none L ms = Inr (L', applied) \<longleftrightarrow> (\<exists>c. apply_all_from (L, {}) ms = (Inr applied, L', c))"
  by (auto simp: simulate_all_or_none_def apply_all_in_place_def split: prod.splits sum.splits)


lemma residual_from_redeem:
  assumes "apply_in_place s m = (Inr a, s')" and "ae_clamped_residual a = Some r"
  shows "\<exists>mk oc amt. effective (lm_effect m) = Redeem mk oc amt \<and> (mk, oc) \<in> snd s' \<and> ae_effect a = lm_effect m \<and>
     r < 100 \<and> 0 < r \<and> unat r = unat amt - unat (long_contracts (state_at (fst s) (lm_wallet m) (market_outcome mk oc)))"
  using assms
  by (cases s; cases "effective (lm_effect m)")
    (auto simp: apply_in_place_simps result_simps not_le unat_sub_le word_gt_0 split: if_splits sum.splits prod.splits)

lemma closed_mono: "ledger_step s m = Some s' \<Longrightarrow> snd s \<subseteq> snd s'"
  by (cases s; cases "effective (lm_effect m)")
    (auto simp: ledger_step_def apply_in_place_simps split: if_splits sum.splits prod.splits)

lemma run_closed_mono: "ledger_steps.run s ms = Some s' \<Longrightarrow> snd s \<subseteq> snd s'"
  by (induction ms arbitrary: s) (auto simp: bind_eq_Some_conv dest!: closed_mono)

text \<open>The amount a mutation takes out of the long inventory of one outcome.\<close>

definition removed_amount :: "'p ledger_mutation \<Rightarrow> market_id \<Rightarrow> outcome_id \<Rightarrow> share_amount" where
  "removed_amount m mk oc =
     (case effective (lm_effect m) of
        Trade mk' oc' Sell a _ \<Rightarrow> if mk' = mk \<and> oc' = oc then a else 0
      | Merge mk' a \<Rightarrow> if mk' = mk \<and> (oc = 0 \<or> oc = 1) then a else 0
      | Redeem mk' oc' a \<Rightarrow> if mk' = mk \<and> oc' = oc then a else 0
      | _ \<Rightarrow> 0)"

lemma closed_blocks: "apply_in_place s m = (Inr a, s') \<Longrightarrow> (mk, oc) \<in> snd s \<Longrightarrow> removed_amount m mk oc = 0"
  by (cases s; cases "effective (lm_effect m)")
    (auto simp: apply_in_place_simps removed_amount_def split: if_splits sum.splits prod.splits side.splits)

lemma apply_trade_Inr_iff:
  "apply_trade st sd a sid = (Inr u, st') \<longleftrightarrow> trade_fits st sd (unat a) \<and> st' = traded st sd (unat a)"
  by (subst apply_trade_eq) auto

lemma apply_trade_mutation:
  assumes "effective (lm_effect m) = Trade mk oc sd a p" and "apply_mutation L m = (Inr (), L')"
  shows "trade_fits (state_at L (lm_wallet m) (market_outcome mk oc)) sd (unat a) \<and>
     L' = write_state L (lm_wallet m) (market_outcome mk oc)
            (traded (state_at L (lm_wallet m) (market_outcome mk oc)) sd (unat a))"
proof -
  let ?st = "state_at L (lm_wallet m) (market_outcome mk oc)"
  obtain st' where tr: "apply_trade ?st sd a (lm_source_trade_id m) = (Inr (), st')"
    and L': "L' = write_state L (lm_wallet m) (market_outcome mk oc) st'"
    using assms by (auto simp: apply_mutation_def apply_in_place_simps result_simps split: prod.splits sum.splits)
  from tr have "trade_fits ?st sd (unat a) \<and> st' = traded ?st sd (unat a)"
    by (simp only: apply_trade_Inr_iff)
  with L' show ?thesis by simp
qed

text \<open>The inventory a trade closes and the inventory it adds to.\<close>

definition opposite_side :: "position_state \<Rightarrow> side \<Rightarrow> share_amount" where
  "opposite_side st sd = (case sd of Buy \<Rightarrow> short_contracts st | Sell \<Rightarrow> long_contracts st)"

definition same_side :: "position_state \<Rightarrow> side \<Rightarrow> share_amount" where
  "same_side st sd = (case sd of Buy \<Rightarrow> long_contracts st | Sell \<Rightarrow> short_contracts st)"

lemma traded_sides:
  assumes "trade_fits st sd n"
  shows "unat (opposite_side (traded st sd n) sd) = unat (opposite_side st sd) - n"
    and "unat (same_side (traded st sd n) sd) = unat (same_side st sd) + (n - unat (opposite_side st sd))"
proof -
  have small: "unat (word_of_nat (unat x - n) :: u64) = unat x - n" for x :: u64
    using unat_less_len [of x] by (simp add: unsigned_of_nat take_bit_eq_mod)
  have fits: "unat (word_of_nat k :: u64) = k" if "k < 18446744073709551616" for k
    using that by (simp add: unsigned_of_nat take_bit_eq_mod)
  show "unat (opposite_side (traded st sd n) sd) = unat (opposite_side st sd) - n"
    by (cases sd) (simp_all add: opposite_side_def traded_def Let_def small)
  show "unat (same_side (traded st sd n) sd) = unat (same_side st sd) + (n - unat (opposite_side st sd))"
    using assms
    by (cases sd) (simp_all add: same_side_def opposite_side_def traded_def trade_fits_def Let_def fits del: of_nat_add)
qed

lemma ingest_traded:
  assumes "ingest L t = (Inr (), L')"
  shows "trade_fits (state_at L (it_wallet t) (market_outcome (it_market_id t) (it_outcome_id t))) (it_side t) (unat (it_contracts t)) \<and>
     L' = write_state L (it_wallet t) (market_outcome (it_market_id t) (it_outcome_id t))
       (traded (state_at L (it_wallet t) (market_outcome (it_market_id t) (it_outcome_id t))) (it_side t) (unat (it_contracts t)))"
  using apply_trade_mutation [OF _ assms [unfolded ingest_def]] by simp

lemma lookup_state_at: "lookup_state (position L w) mk oc = state_at L w (market_outcome mk oc)"
  by (auto simp: lookup_state_def position_def state_at_def entry_snapshot_def split: option.splits)

lemma classify_known:
  assumes "quality \<noteq> 0 \<or> position L (it_wallet t) \<noteq> None"
  shows "classify_leader_action t (position L (it_wallet t)) quality config =
     (let st = state_at L (it_wallet t) (market_outcome (it_market_id t) (it_outcome_id t)) in
      classify_side (opposite_side st (it_side t)) (same_side st (it_side t)) (it_contracts t) config)"
  using assms
  by (auto simp: classify_leader_action_def lookup_state_at Let_def opposite_side_def same_side_def split: side.splits)

lemma state_at_new: "state_at ledger_new w key = default_state"
  by (simp add: state_at_def entry_snapshot_def ledger_new_def)

lemmas ledger_eval = apply_all_or_none_def sample_mutation_def simulate_all_or_none_def apply_all_in_place_def
  apply_mutation_def apply_in_place_simps apply_trade_def amount_checked_add_def amount_checked_sub_def
  checked_add_def checked_sub_def default_state_def state_at_new

subsection \<open>Properties\<close>



text \<open>C17. A successful trade moves the net exposure (long minus short, as integers) of its market
  outcome by exactly its amount, whatever the inventories: no wrap-around and no loss. A position
  that was on one side only stays on one side only.\<close>

theorem trade_net_exposure:
  assumes "effective (lm_effect m) = Trade mk oc sd a p" and "apply_mutation L m = (Inr (), L')"
  shows "let before = state_at L (lm_wallet m) (market_outcome mk oc);
             after = state_at L' (lm_wallet m) (market_outcome mk oc);
             net = (\<lambda>st. int (unat (long_contracts st)) - int (unat (short_contracts st))) in
         net after = net before + (case sd of Buy \<Rightarrow> int (unat a) | Sell \<Rightarrow> - int (unat a)) \<and>
         (long_contracts before = 0 \<or> short_contracts before = 0 \<longrightarrow>
          long_contracts after = 0 \<or> short_contracts after = 0)"
proof -
  let ?st = "state_at L (lm_wallet m) (market_outcome mk oc)"
  have fits: "trade_fits ?st sd (unat a)"
    and after: "state_at L' (lm_wallet m) (market_outcome mk oc) = traded ?st sd (unat a)"
    using apply_trade_mutation [OF assms] by simp_all
  have zero: "x = 0 \<longleftrightarrow> unat x = 0" for x :: u64 by (simp add: unsigned_eq_0_iff)
  show ?thesis
    unfolding Let_def after zero
    using traded_sides [OF fits]
    by (cases sd) (auto simp: opposite_side_def same_side_def simp del: unsigned_eq_0_iff of_nat_unat)
qed

theorem trade_net_exposure_witness:
  "let m = sample_mutation ''a'' (Trade ''m'' 0 Sell 5 3); L' = snd (apply_mutation ledger_new m);
       key = market_outcome ''m'' 0;
       net = (\<lambda>st. int (unat (long_contracts st)) - int (unat (short_contracts st))) in
   apply_mutation ledger_new m = (Inr (), L') \<and>
   net (state_at L' sample_wallet key) = net (state_at ledger_new sample_wallet key) - 5"
proof -
  let ?m = "sample_mutation ''a'' (Trade ''m'' 0 Sell 5 3)"
  have eff: "effective (lm_effect ?m) = Trade ''m'' 0 Sell 5 3" by (simp add: sample_mutation_def)
  have ok: "apply_mutation ledger_new ?m = (Inr (), snd (apply_mutation ledger_new ?m))"
    by (simp add: ledger_eval)
  have "lm_wallet ?m = sample_wallet" by (simp add: sample_mutation_def)
  with trade_net_exposure [OF eff ok] ok show ?thesis by (simp add: Let_def)
qed

text \<open>C18. The classifier's verdict on a trade is what ingesting the trade then does to the leader's
  position: an entry opens from nothing, an add only grows, a flip closes the whole opposite side and
  opens the rest, an exit or a trim only shrinks the opposite side, to at most or to more than the
  configured percentage of it. With any information on the wallet the verdict is never unknown.\<close>

theorem classification_matches_ledger:
  assumes "ingest L t = (Inr (), L')" and "quality \<noteq> 0 \<or> position L (it_wallet t) \<noteq> None"
  shows "let key = market_outcome (it_market_id t) (it_outcome_id t);
             before = state_at L (it_wallet t) key; after = state_at L' (it_wallet t) key;
             opp = (\<lambda>st. unat (opposite_side st (it_side t))); own = (\<lambda>st. unat (same_side st (it_side t)));
             n = unat (it_contracts t); pct = unat (near_close_remaining_pct config) in
         case classify_leader_action t (position L (it_wallet t)) quality config of
           Entry \<Rightarrow> opp before = 0 \<and> own before = 0 \<and> opp after = 0 \<and> own after = n
         | Add \<Rightarrow> opp before = 0 \<and> own before \<noteq> 0 \<and> opp after = 0 \<and> own after = own before + n
         | Flip \<Rightarrow> opp before \<noteq> 0 \<and> opp before < n \<and> opp after = 0 \<and> own after = own before + (n - opp before)
         | Exit \<Rightarrow> opp before \<noteq> 0 \<and> opp before = opp after + n \<and> own after = own before \<and> opp after * 100 \<le> opp before * pct
         | Trim \<Rightarrow> opp before \<noteq> 0 \<and> opp before = opp after + n \<and> own after = own before \<and> opp before * pct < opp after * 100
         | Unknown \<Rightarrow> False"
proof -
  let ?b = "state_at L (it_wallet t) (market_outcome (it_market_id t) (it_outcome_id t))"
  let ?opp = "opposite_side ?b (it_side t)" and ?own = "same_side ?b (it_side t)" and ?n = "it_contracts t"
  have fits: "trade_fits ?b (it_side t) (unat ?n)"
    and after: "state_at L' (it_wallet t) (market_outcome (it_market_id t) (it_outcome_id t)) = traded ?b (it_side t) (unat ?n)"
    using ingest_traded [OF assms(1)] by simp_all
  show ?thesis
    using traded_sides [OF fits]
    by (auto simp: classify_known [OF assms(2)] Let_def after classify_side_def is_near_close_def
        unat_saturating_sub word_less_nat_alt unsigned_eq_0_iff not_less)
qed

definition sample_trade :: "side \<Rightarrow> share_amount \<Rightarrow> nat incoming_trade" where
  "sample_trade sd n =
     \<lparr>it_wallet = sample_wallet, it_market_id = ''m'', it_outcome_id = 0, it_side = sd, it_price = 3,
      it_contracts = n, it_observed_at = 1700000000, it_received_at = 1700000001,
      it_source_trade_id = ''t'', it_transaction_hash = None, it_provenance = RestPoll\<rparr>"

lemma sample_trade_fields [simp]:
  "it_wallet (sample_trade sd n) = sample_wallet" "it_side (sample_trade sd n) = sd"
  "it_market_id (sample_trade sd n) = ''m''" "it_outcome_id (sample_trade sd n) = 0"
  "it_contracts (sample_trade sd n) = n"
  by (simp_all add: sample_trade_def)

lemma sample_ingest: "ingest ledger_new (sample_trade Buy 5) = (Inr (), snd (ingest ledger_new (sample_trade Buy 5)))"
  by (simp add: ingest_def sample_trade_def ledger_eval)

theorem classification_matches_ledger_witness:
  "ingest ledger_new (sample_trade Buy 5) = (Inr (), snd (ingest ledger_new (sample_trade Buy 5))) \<and>
   classify_leader_action (sample_trade Buy 5) (position ledger_new sample_wallet) 90 signal_config_default = Entry \<and>
   unat (long_contracts (state_at (snd (ingest ledger_new (sample_trade Buy 5))) sample_wallet (market_outcome ''m'' 0))) = 5"
proof -
  have act: "classify_leader_action (sample_trade Buy 5) (position ledger_new sample_wallet) 90 signal_config_default = Entry"
    by (simp add: sample_trade_def position_def ledger_new_def classify_leader_action_def lookup_state_def
        default_state_def classify_side_def)
  show ?thesis
    using classification_matches_ledger [OF sample_ingest, of 90 signal_config_default] sample_ingest act
    by (simp add: Let_def same_side_def)
qed

text \<open>C19. A redemption whose amount exceeds the inventory is clamped only by a residual of 1 to 99 atomic
  units, the exact excess; in an accepted batch only redemptions are clamped, and after a clamped
  redemption no later mutation of the batch removes anything from that market outcome.\<close>

theorem clamped_redeem_closes:
  assumes "simulate_all_or_none L ms = Inr (L', applied)" and "i < length ms"
    and "ae_clamped_residual (applied ! i) = Some r"
  shows "1 \<le> r \<and> r \<le> 99 \<and>
    (\<exists>mk oc amt. effective (lm_effect (ms ! i)) = Redeem mk oc amt \<and>
       (\<forall>j. i < j \<longrightarrow> j < length ms \<longrightarrow> removed_amount (ms ! j) mk oc = 0))"
proof -
  obtain c where all: "apply_all_from (L, {}) ms = (Inr applied, L', c)"
    using assms(1) by (auto simp: simulate_cases)
  obtain si s1 where si: "apply_in_place si (ms ! i) = (Inr (applied ! i), s1)"
    and rest: "ledger_steps.run (L, {}) (take i ms) = Some si"
    using apply_all_from_nth [OF all assms(2)] by blast
  obtain mk oc amt where eff: "effective (lm_effect (ms ! i)) = Redeem mk oc amt" and cl: "(mk, oc) \<in> snd s1"
    and r: "r < 100" "0 < r" using residual_from_redeem [OF si assms(3)] by blast
  have "removed_amount (ms ! j) mk oc = 0" if j: "i < j" "j < length ms" for j
  proof -
    obtain sj s2 where sj: "apply_in_place sj (ms ! j) = (Inr (applied ! j), s2)"
      and run: "ledger_steps.run (L, {}) (take j ms) = Some sj"
      using apply_all_from_nth [OF all j(2)] by blast
    have "i < length (take j ms)" using j by simp
    then have "take j ms = take i (take j ms) @ take j ms ! i # drop (Suc i) (take j ms)"
      by (rule id_take_nth_drop)
    then have split: "take j ms = take i ms @ ms ! i # drop (Suc i) (take j ms)"
      using j by (simp add: min_absorb1)
    have "ledger_step si (ms ! i) = Some s1" using si by (simp add: ledger_step_def)
    then have "ledger_steps.run s1 (drop (Suc i) (take j ms)) = Some sj"
      using run rest by (subst (asm) split) (simp add: ledger_steps.run_append)
    from run_closed_mono [OF this] cl have "(mk, oc) \<in> snd sj" by blast
    then show ?thesis by (rule closed_blocks [OF sj])
  qed
  with eff r show ?thesis by (auto simp: word_less_nat_alt word_le_nat_alt)
qed

theorem clamped_redeem_closes_witness:
  "let ms = [sample_mutation ''a'' (Trade ''m'' 0 Buy 5 3), sample_mutation ''b'' (Redeem ''m'' 0 104)];
       r = simulate_all_or_none ledger_new ms in
   (\<exists>L' applied. r = Inr (L', applied) \<and> ae_clamped_residual (applied ! 1) = Some 99) \<and>
   (1 :: u64) \<le> 99 \<and> (99 :: u64) \<le> 99"
proof -
  let ?ms = "[sample_mutation ''a'' (Trade ''m'' 0 Buy 5 3), sample_mutation ''b'' (Redeem ''m'' 0 104)]"
  obtain L' applied where sim: "simulate_all_or_none ledger_new ?ms = Inr (L', applied)"
    and res: "ae_clamped_residual (applied ! 1) = Some 99"
    by (simp add: ledger_eval)
  have len: "1 < length ?ms" by simp
  from clamped_redeem_closes [OF sim len res] sim res show ?thesis by (simp add: Let_def)
qed

text \<open>C20. Rolling back a trade of a wallet that already had a snapshot, with the inventories captured
  before the trade, gives back the ledger exactly.\<close>

theorem restore_inverts_ingest:
  assumes "snapshots L (it_wallet t) = Some s" and "ingest L t = (Inr (), L')"
  shows "restore L' (it_wallet t) (market_outcome (it_market_id t) (it_outcome_id t))
           (map_option (\<lambda>st. (long_contracts st, short_contracts st))
              (positions s (market_outcome (it_market_id t) (it_outcome_id t)))) = L"
proof -
  let ?w = "it_wallet t" and ?k = "market_outcome (it_market_id t) (it_outcome_id t)"
  obtain st where L': "L' = write_state L ?w ?k st" using ingest_traded [OF assms(2)] by blast
  have snap: "snapshots L' ?w = Some (s\<lparr>positions := (positions s)(?k \<mapsto> st)\<rparr>)"
    by (simp add: L' write_state_def entry_snapshot_def assms(1))
  show ?thesis
  proof (cases "positions s ?k")
    case None
    then have "(positions s)(?k := None) = positions s" by auto
    then show ?thesis
      using snap assms(1) None
      by (simp add: restore_def L' write_state_def entry_snapshot_def fun_upd_idem)
  next
    case (Some old)
    then have "(positions s)(?k \<mapsto> \<lparr>long_contracts = long_contracts old, short_contracts = short_contracts old\<rparr>) = positions s"
      by (cases old) (auto simp: fun_upd_idem_iff)
    then show ?thesis
      using snap assms(1) Some
      by (simp add: restore_def L' write_state_def entry_snapshot_def fun_upd_idem)
  qed
qed

definition sample_snapshot :: position_snapshot where
  "sample_snapshot = \<lparr>ps_wallet = sample_wallet,
     positions = [market_outcome ''m'' 0 \<mapsto> \<lparr>long_contracts = 0, short_contracts = 4\<rparr>]\<rparr>"

theorem restore_inverts_ingest_witness:
  "let L = from_snapshots [sample_wallet \<mapsto> sample_snapshot]; L' = snd (ingest L (sample_trade Buy 10)) in
   ingest L (sample_trade Buy 10) = (Inr (), L') \<and> restore L' sample_wallet (market_outcome ''m'' 0) (Some (0, 4)) = L"
proof -
  let ?L = "from_snapshots [sample_wallet \<mapsto> sample_snapshot]"
  have snap: "snapshots ?L (it_wallet (sample_trade Buy 10)) = Some sample_snapshot"
    by (simp add: from_snapshots_def sample_trade_def)
  have st: "state_at ?L sample_wallet (market_outcome ''m'' 0) = \<lparr>long_contracts = 0, short_contracts = 4\<rparr>"
    by (simp add: state_at_def entry_snapshot_def from_snapshots_def sample_snapshot_def)
  have ok: "ingest ?L (sample_trade Buy 10) = (Inr (), snd (ingest ?L (sample_trade Buy 10)))"
    by (simp add: ingest_def sample_trade_def ledger_eval st)
  show ?thesis
    using restore_inverts_ingest [OF snap ok] ok by (simp add: Let_def sample_snapshot_def)
qed

text \<open>C21. For a wallet the ledger has never seen, the rollback leaves an empty snapshot behind instead of
  none. With reconstruction quality 0 a redelivery of the same trade is then classified as an entry,
  while the first delivery was unclassifiable.\<close>

theorem restore_leaves_empty_snapshot:
  assumes "snapshots L (it_wallet t) = None" and "ingest L t = (Inr (), L')"
  shows "let L'' = restore L' (it_wallet t) (market_outcome (it_market_id t) (it_outcome_id t)) None in
         position L (it_wallet t) = None \<and>
         position L'' (it_wallet t) = Some \<lparr>ps_wallet = it_wallet t, positions = Map.empty\<rparr> \<and>
         classify_leader_action t (position L (it_wallet t)) 0 config = Unknown \<and>
         classify_leader_action t (position L'' (it_wallet t)) 0 config = Entry"
proof -
  let ?w = "it_wallet t" and ?k = "market_outcome (it_market_id t) (it_outcome_id t)"
  obtain st where L': "L' = write_state L ?w ?k st" using ingest_traded [OF assms(2)] by blast
  have "position (restore L' ?w ?k None) ?w = Some \<lparr>ps_wallet = ?w, positions = Map.empty\<rparr>"
    by (simp add: L' restore_def write_state_def entry_snapshot_def assms(1) position_def)
  then show ?thesis
    using assms(1)
    by (cases "it_side t")
      (simp_all add: Let_def position_def classify_leader_action_def lookup_state_def default_state_def classify_side_def)
qed

theorem restore_leaves_empty_snapshot_witness:
  "let L' = snd (ingest ledger_new (sample_trade Buy 5));
       L'' = restore L' sample_wallet (market_outcome ''m'' 0) None in
   ingest ledger_new (sample_trade Buy 5) = (Inr (), L') \<and>
   classify_leader_action (sample_trade Buy 5) (position ledger_new sample_wallet) 0 signal_config_default = Unknown \<and>
   classify_leader_action (sample_trade Buy 5) (position L'' sample_wallet) 0 signal_config_default = Entry"
proof -
  have none: "snapshots ledger_new (it_wallet (sample_trade Buy 5)) = None" by (simp add: ledger_new_def)
  show ?thesis
    using restore_leaves_empty_snapshot [OF none sample_ingest, of signal_config_default] sample_ingest
    unfolding Let_def sample_trade_fields by blast
qed

text \<open>C22. A batch changes only what its mutations name: the position of a wallet under a key is
  unchanged unless some mutation of that wallet touches that key.\<close>

theorem batch_touches_only_named_entries:
  assumes "simulate_all_or_none L ms = Inr (L', applied)"
    and "\<forall>m\<in>set ms. lm_wallet m = w \<longrightarrow> key \<notin> set (touched_keys m)"
  shows "entry L' w key = entry L w key"
proof -
  obtain c where run: "ledger_steps.run (L, {}) ms = Some (L', c)"
    using assms(1) simulate_run by blast
  have step: "entry (fst s') w key = entry (fst s) w key"
    if "ledger_step s m = Some s'" "lm_wallet m = w \<longrightarrow> key \<notin> set (touched_keys m)" for s s' :: "position_ledger \<times> closed_set"
      and m :: "'a ledger_mutation"
  proof (cases "lm_wallet m = w")
    case True
    then have "ledger_view s' key = ledger_view s key"
      using ledger_frame [OF that(1), of key] that(2) by (simp add: touched_set_def)
    then show ?thesis by (auto simp: ledger_view_def dest: fun_cong)
  next
    case False
    then show ?thesis using ledger_step_other_wallet [OF that(1), of w key] by simp
  qed
  have "ledger_steps.run s ms = Some s' \<Longrightarrow> entry (fst s') w key = entry (fst s) w key" for s s'
    using assms(2)
  proof (induction ms arbitrary: s)
    case (Cons m ms)
    then obtain t where t: "ledger_step s m = Some t" "ledger_steps.run t ms = Some s'"
      by (auto simp: bind_eq_Some_conv)
    with Cons.IH [OF t(2)] Cons.prems(2) step [OF t(1)] show ?case by simp
  qed simp
  from this [OF run] show ?thesis by simp
qed

theorem batch_touches_only_named_entries_witness:
  "\<exists>L' applied. simulate_all_or_none ledger_new sample_buys = Inr (L', applied) \<and>
      entry L' sample_wallet (market_outcome ''n'' 0) = entry ledger_new sample_wallet (market_outcome ''n'' 0)"
proof -
  obtain L' applied where sim: "simulate_all_or_none ledger_new sample_buys = Inr (L', applied)"
    by (simp add: ledger_eval sample_buys_def)
  have no: "\<forall>m\<in>set sample_buys. lm_wallet m = sample_wallet \<longrightarrow> market_outcome ''n'' 0 \<notin> set (touched_keys m)"
    by (simp add: sample_buys_def sample_mutation_def touched_keys_def)
  from batch_touches_only_named_entries [OF sim no] sim show ?thesis by blast
qed

end
