(* ===== verification/Second_Classifier.thy ===== *)
theory Second_Classifier
  imports Ledger_Properties "HOL-Library.AList"
begin
section \<open>Classifying a complete second (crates/position-ledger/src/lib.rs)\<close>

text \<open>
  First-entry classification of one wallet's complete second, and the scoped variant that drops the
  markets or event groups a problem reaches. The trait object \<open>ScopeLookups\<close> is a record of its three
  functions, \<open>has_market\<close> is a function argument, and a \<open>BTreeSet\<close> or \<open>BTreeMap\<close> that is only
  searched is a set or a map; where the code iterates one, the sorted keys are listed.
\<close>

subsection \<open>Data\<close>

datatype entry_classification =
    Admitted | NotFirstEntry | NotBuy | NotAnEntry | AmbiguousFirstEntrySameSecond
  | WalletHistoryIncomplete

fun entry_classification_as_str :: "entry_classification \<Rightarrow> string" where
  "entry_classification_as_str Admitted = ''admitted''"
| "entry_classification_as_str NotFirstEntry = ''not_first_entry''"
| "entry_classification_as_str NotBuy = ''not_buy''"
| "entry_classification_as_str NotAnEntry = ''not_an_entry''"
| "entry_classification_as_str AmbiguousFirstEntrySameSecond = ''ambiguous_first_entry_same_second''"
| "entry_classification_as_str WalletHistoryIncomplete = ''wallet_history_incomplete''"

record 'p trade_decision =
  td_source_trade_id :: source_trade_id
  td_market_id :: market_id
  td_outcome_id :: outcome_id
  td_side :: side
  td_amount :: share_amount
  td_price :: 'p
  td_action :: leader_action
  td_action_order_dependent :: bool
  td_entry :: entry_classification

datatype 'p second_verdict =
    OrderIndependent "'p applied_effect list" "'p trade_decision list" "(market_id \<times> source_trade_id) list"
  | OrderDependent source_trade_id

datatype same_second_entry_policy = PolicyLegacy | PolicyHomogeneousPieces

subsection \<open>The decisions of a second\<close>

definition touched_count :: "'p ledger_mutation list \<Rightarrow> market_outcome_id \<Rightarrow> nat" where
  "touched_count ms key = count_list (concat (map touched_keys ms)) key"

definition decision_of ::
    "position_ledger \<Rightarrow> wallet_address \<Rightarrow> 'p ledger_mutation list \<Rightarrow> reconstruction_quality \<Rightarrow> signal_config
       \<Rightarrow> 'p ledger_mutation \<Rightarrow> 'p trade_decision option" where
  "decision_of L w ms quality config m =
     (case effective (lm_effect m) of
        Trade mk oc sd amount price \<Rightarrow>
          (let trade = \<lparr>it_wallet = w, it_market_id = mk, it_outcome_id = oc, it_side = sd, it_price = price,
                        it_contracts = amount, it_observed_at = lm_source_time m,
                        it_received_at = lm_source_time m, it_source_trade_id = lm_source_trade_id m,
                        it_transaction_hash = Some (lm_transaction_hash m), it_provenance = RestPoll\<rparr> in
           Some \<lparr>td_source_trade_id = lm_source_trade_id m,
                 td_market_id = mk,
                 td_outcome_id = oc,
                 td_side = sd,
                 td_amount = amount,
                 td_price = price,
                 td_action = classify_leader_action trade (position L w) quality config,
                 td_action_order_dependent = touched_count ms (market_outcome mk oc) > 1,
                 td_entry = NotAnEntry\<rparr>)
      | _ \<Rightarrow> None)"

definition is_candidate :: "'p trade_decision \<Rightarrow> bool" where
  "is_candidate d \<longleftrightarrow> td_side d = Buy \<and> td_action d = Entry"

definition first_pass :: "'p trade_decision \<Rightarrow> 'p trade_decision" where
  "first_pass d = (if td_side d \<noteq> Buy then d\<lparr>td_entry := NotBuy\<rparr>
                   else if td_action d \<noteq> Entry then d\<lparr>td_entry := NotAnEntry\<rparr> else d)"

definition candidate_indices :: "'p trade_decision list \<Rightarrow> market_id \<Rightarrow> nat list" where
  "candidate_indices ds mk =
     filter (\<lambda>i. is_candidate (ds ! i) \<and> td_market_id (ds ! i) = mk) [0..<length ds]"

definition candidate_markets :: "'p trade_decision list \<Rightarrow> market_id list" where
  "candidate_markets ds = sort (remdups (map td_market_id (filter is_candidate ds)))"

text \<open>\<open>min_by\<close> keeps the first of equal minima.\<close>

fun min_index_by :: "(nat \<Rightarrow> string) \<Rightarrow> nat list \<Rightarrow> nat option" where
  "min_index_by key [] = None"
| "min_index_by key (i # is) =
     (case min_index_by key is of
        None \<Rightarrow> Some i
      | Some j \<Rightarrow> if key j < key i then Some j else Some i)"

definition homogeneous_second ::
    "same_second_entry_policy \<Rightarrow> wallet_address \<Rightarrow> 'p ledger_mutation list \<Rightarrow> 'p trade_decision list
       \<Rightarrow> market_id \<Rightarrow> nat option \<Rightarrow> bool" where
  "homogeneous_second policy w ms ds mk representative \<longleftrightarrow>
     policy = PolicyHomogeneousPieces \<and>
     (case representative of
        None \<Rightarrow> False
      | Some f \<Rightarrow> list_all (\<lambda>d. td_side d = Buy \<and> td_action d = Entry \<and> td_outcome_id d = td_outcome_id (ds ! f))
                    (filter (\<lambda>d. td_market_id d = mk) ds)) \<and>
     list_all (\<lambda>m. lm_wallet m = w \<and> lm_source_time m = lm_source_time (hd ms) \<and>
                 (\<not> list_ex (\<lambda>key. mo_market key = mk) (touched_keys m) \<or>
                  (case effective (lm_effect m) of Trade _ _ Buy _ _ \<Rightarrow> True | _ \<Rightarrow> False))) ms"

definition market_verdict :: "bool \<Rightarrow> bool \<Rightarrow> nat list \<Rightarrow> entry_classification" where
  "market_verdict history_complete homogeneous indices =
     (if \<not> history_complete then WalletHistoryIncomplete
      else if length indices \<ge> 2 \<and> \<not> homogeneous then AmbiguousFirstEntrySameSecond else Admitted)"

text \<open>The body of the loop over the candidate markets, on the decisions and the first entries.\<close>

definition classify_market ::
    "same_second_entry_policy \<Rightarrow> wallet_address \<Rightarrow> 'p ledger_mutation list \<Rightarrow> bool \<Rightarrow> (market_id \<Rightarrow> bool)
       \<Rightarrow> market_id \<times> nat list \<Rightarrow> 'p trade_decision list \<times> (market_id \<times> source_trade_id) list
       \<Rightarrow> 'p trade_decision list \<times> (market_id \<times> source_trade_id) list" where
  "classify_market policy w ms history_complete has_market candidate acc =
     (let (mk, indices) = candidate; (ds, entries) = acc in
      if has_market mk then
        (fold (\<lambda>i ds. ds[i := (ds ! i)\<lparr>td_entry := NotFirstEntry\<rparr>]) indices ds, entries)
      else
        let representative = min_index_by (\<lambda>i. td_source_trade_id (ds ! i)) indices;
            homogeneous = homogeneous_second policy w ms ds mk representative;
            entries' = (case min_index_by (\<lambda>i. td_source_trade_id (ds ! i)) indices of
                          None \<Rightarrow> entries
                        | Some i \<Rightarrow> entries @ [(mk, td_source_trade_id (ds ! i))]);
            verdict = market_verdict history_complete homogeneous indices in
        (fold (\<lambda>i ds.
            ds[i := (if homogeneous \<and> verdict = Admitted then
                       (if Some i = representative
                        then (ds ! i)\<lparr>td_action_order_dependent := False, td_entry := Admitted\<rparr>
                        else (ds ! i)\<lparr>td_entry := NotFirstEntry\<rparr>)
                     else (ds ! i)\<lparr>td_entry := verdict\<rparr>)]) indices ds,
         entries'))"

definition classify_entries ::
    "same_second_entry_policy \<Rightarrow> wallet_address \<Rightarrow> 'p ledger_mutation list \<Rightarrow> bool \<Rightarrow> (market_id \<Rightarrow> bool)
       \<Rightarrow> 'p trade_decision list \<Rightarrow> 'p trade_decision list \<times> (market_id \<times> source_trade_id) list" where
  "classify_entries policy w ms history_complete has_market ds =
     (let candidates = map (\<lambda>mk. (mk, candidate_indices ds mk)) (candidate_markets ds) in
      fold (classify_market policy w ms history_complete has_market) candidates (map first_pass ds, []))"

definition classify_with_second_proof ::
    "second_proof \<Rightarrow> same_second_entry_policy \<Rightarrow> position_ledger \<Rightarrow> wallet_address \<Rightarrow> 'p ledger_mutation list
       \<Rightarrow> reconstruction_quality \<Rightarrow> signal_config \<Rightarrow> bool \<Rightarrow> (market_id \<Rightarrow> bool)
       \<Rightarrow> ledger_error + 'p second_verdict" where
  "classify_with_second_proof mode policy L w ms quality config history_complete has_market =
     rbind (order_independent_validity L w ms mode) (\<lambda>trigger.
       case trigger of
         Some sid \<Rightarrow> Inr (OrderDependent sid)
       | None \<Rightarrow>
           rbind (simulate_all_or_none L ms) (\<lambda>(_, applied).
             let ds = List.map_filter (decision_of L w ms quality config) ms;
                 (ds', entries) = classify_entries policy w ms history_complete has_market ds in
             Inr (OrderIndependent applied ds' entries)))"

definition classify_complete_second ::
    "same_second_entry_policy \<Rightarrow> position_ledger \<Rightarrow> wallet_address \<Rightarrow> 'p ledger_mutation list
       \<Rightarrow> reconstruction_quality \<Rightarrow> signal_config \<Rightarrow> bool \<Rightarrow> (market_id \<Rightarrow> bool)
       \<Rightarrow> ledger_error + 'p second_verdict" where
  "classify_complete_second = classify_with_second_proof ProofRepaired"

definition classify_complete_second_legacy ::
    "position_ledger \<Rightarrow> wallet_address \<Rightarrow> 'p ledger_mutation list
       \<Rightarrow> reconstruction_quality \<Rightarrow> signal_config \<Rightarrow> bool \<Rightarrow> (market_id \<Rightarrow> bool)
       \<Rightarrow> ledger_error + 'p second_verdict" where
  "classify_complete_second_legacy = classify_with_second_proof ProofLegacy PolicyLegacy"

definition classify_complete_historical_second ::
    "position_ledger \<Rightarrow> wallet_address \<Rightarrow> 'p ledger_mutation list \<Rightarrow> reconstruction_quality
       \<Rightarrow> (market_id \<Rightarrow> bool) \<Rightarrow> ledger_error + 'p second_verdict" where
  "classify_complete_historical_second L w ms quality has_market =
     classify_complete_second PolicyLegacy L w ms quality signal_config_default True has_market"

subsection \<open>Scopes and drops\<close>

datatype scope_kind = ScopeEvent | ScopeMarket

datatype drop_cause =
    DropConversion | DropOrderDependent | DropOverflow | DropUnderflow | DropUnknownCondition
  | DropUnknownType | DropUnmapped | DropUnrepresentable

text \<open>Both orders are derived from the order of the constructors.\<close>

fun scope_kind_rank :: "scope_kind \<Rightarrow> nat" where
  "scope_kind_rank ScopeEvent = 0"
| "scope_kind_rank ScopeMarket = 1"

fun drop_cause_rank :: "drop_cause \<Rightarrow> nat" where
  "drop_cause_rank DropConversion = 0"
| "drop_cause_rank DropOrderDependent = 1"
| "drop_cause_rank DropOverflow = 2"
| "drop_cause_rank DropUnderflow = 3"
| "drop_cause_rank DropUnknownCondition = 4"
| "drop_cause_rank DropUnknownType = 5"
| "drop_cause_rank DropUnmapped = 6"
| "drop_cause_rank DropUnrepresentable = 7"

lemma scope_kind_rank_inject: "scope_kind_rank a = scope_kind_rank b \<longleftrightarrow> a = b"
  by (cases a; cases b) simp_all

lemma drop_cause_rank_inject: "drop_cause_rank a = drop_cause_rank b \<longleftrightarrow> a = b"
  by (cases a; cases b) simp_all

instantiation scope_kind :: linorder
begin

definition less_eq_scope_kind :: "scope_kind \<Rightarrow> scope_kind \<Rightarrow> bool" where
  "less_eq_scope_kind a b \<longleftrightarrow> scope_kind_rank a \<le> scope_kind_rank b"

definition less_scope_kind :: "scope_kind \<Rightarrow> scope_kind \<Rightarrow> bool" where
  "less_scope_kind a b \<longleftrightarrow> scope_kind_rank a < scope_kind_rank b"

instance
  by standard (auto simp: less_eq_scope_kind_def less_scope_kind_def scope_kind_rank_inject)

end

instantiation drop_cause :: linorder
begin

definition less_eq_drop_cause :: "drop_cause \<Rightarrow> drop_cause \<Rightarrow> bool" where
  "less_eq_drop_cause a b \<longleftrightarrow> drop_cause_rank a \<le> drop_cause_rank b"

definition less_drop_cause :: "drop_cause \<Rightarrow> drop_cause \<Rightarrow> bool" where
  "less_drop_cause a b \<longleftrightarrow> drop_cause_rank a < drop_cause_rank b"

instance
  by standard (auto simp: less_eq_drop_cause_def less_drop_cause_def drop_cause_rank_inject)

end

record scope =
  sc_kind :: scope_kind
  sc_id :: string

record scope_problem =
  sp_scope :: scope
  sp_cause :: drop_cause
  sp_trigger :: source_trade_id

datatype market_lookup = LookupUnknown | LookupUngrouped | LookupGrouped string

record scope_lookups =
  sl_market :: "string \<Rightarrow> market_lookup"
  sl_token_market :: "string \<Rightarrow> string option"
  sl_is_group :: "string \<Rightarrow> bool"

record 'd second_record =
  sr_aggregate :: "'d activity_aggregate"
  sr_mutation :: "ledger_error + 'd ledger_mutation"

record 'd scoped_second =
  ss_problem_second :: bool
  ss_problems :: "scope_problem list"
  ss_ignored :: "(source_trade_id \<times> activity_type) list"
  ss_apply :: "'d ledger_mutation list"
  ss_decisions :: "'d trade_decision list"
  ss_consumed :: "market_id list"

definition event_scope :: "string \<Rightarrow> scope" where
  "event_scope i = \<lparr>sc_kind = ScopeEvent, sc_id = i\<rparr>"

definition market_scope :: "string \<Rightarrow> scope" where
  "market_scope i = \<lparr>sc_kind = ScopeMarket, sc_id = i\<rparr>"

definition activity_row_anomaly_trigger :: "activity_row_anomaly \<Rightarrow> source_trade_id" where
  "activity_row_anomaly_trigger a = ''activity-row-anomaly:v1:'' @ an_raw_row_hash a"

definition canonical_scope_id :: "string \<Rightarrow> bool" where
  "canonical_scope_id i \<longleftrightarrow> take 2 i = ''0x'' \<and> drop 2 i \<noteq> [] \<and>
     list_all (\<lambda>c. is_ascii_digit c \<or> is_lower_hex_letter c) (drop 2 i)"

definition to_ascii_lowercase :: "string \<Rightarrow> string" where
  "to_ascii_lowercase = map (\<lambda>c. if 65 \<le> (of_char c :: nat) \<and> (of_char c :: nat) \<le> 90
                               then char_of ((of_char c :: nat) + 32) else c)"

text \<open>A condition id in the text form of a database byte string, \<open>\x..\<close>, is read as \<open>0x..\<close>.\<close>

definition normalized_condition :: "string \<Rightarrow> string" where
  "normalized_condition c =
     (let lowercase = to_ascii_lowercase c in
      if take 2 lowercase = [CHR 0x5C, CHR ''x''] then ''0x'' @ drop 2 lowercase else lowercase)"

definition scope_of_condition :: "bool \<Rightarrow> scope_lookups \<Rightarrow> string \<Rightarrow> scope option" where
  "scope_of_condition event_cause lookups i =
     (if event_cause \<and> sl_is_group lookups i then Some (event_scope i)
      else (case sl_market lookups i of
              LookupGrouped g \<Rightarrow> Some (if event_cause then event_scope g else market_scope i)
            | LookupUngrouped \<Rightarrow> Some (market_scope i)
            | LookupUnknown \<Rightarrow> None))"

definition resolve_scope ::
    "activity_type \<Rightarrow> string option \<Rightarrow> string option \<Rightarrow> drop_cause \<Rightarrow> scope_lookups \<Rightarrow> scope option" where
  "resolve_scope atype condition asset cause lookups =
     (let event_cause = (cause = DropConversion \<or> cause = DropUnknownType \<or>
                         cause = DropUnrepresentable \<and> type_requires_wallet_fence atype);
          by_condition =
            (case map_option normalized_condition condition of
               None \<Rightarrow> None
             | Some i \<Rightarrow> if canonical_scope_id i then scope_of_condition event_cause lookups i else None) in
      case by_condition of
        Some s \<Rightarrow> Some s
      | None \<Rightarrow>
          (case Option.bind asset (sl_token_market lookups) of
             None \<Rightarrow> None
           | Some market \<Rightarrow>
               Some (case sl_market lookups market of
                       LookupGrouped g \<Rightarrow> if event_cause then event_scope g else market_scope market
                     | _ \<Rightarrow> market_scope market)))"

definition resolve_problem_scope :: "'d activity_aggregate \<Rightarrow> drop_cause \<Rightarrow> scope_lookups \<Rightarrow> scope option" where
  "resolve_problem_scope a cause lookups =
     (let c = gid_components (agg_group_id a) in
      resolve_scope (gc_activity_type c) (gc_condition_id c) (gc_asset c) cause lookups)"

definition resolve_anomaly_scope :: "activity_row_anomaly \<Rightarrow> scope_lookups \<Rightarrow> scope option" where
  "resolve_anomaly_scope a lookups =
     resolve_scope (an_activity_type a) (an_condition_id a) (an_asset a) DropUnrepresentable lookups"

definition effect_market :: "'p ledger_effect \<Rightarrow> market_id option" where
  "effect_market e =
     (case effective e of
        Trade mk _ _ _ _ \<Rightarrow> Some mk
      | Split mk _ \<Rightarrow> Some mk
      | Merge mk _ \<Rightarrow> Some mk
      | Redeem mk _ _ \<Rightarrow> Some mk
      | _ \<Rightarrow> None)"

definition record_market :: "'d ledger_mutation \<Rightarrow> 'd activity_aggregate \<Rightarrow> string option" where
  "record_market m a =
     (case effect_market (lm_effect m) of
        Some mk \<Rightarrow> Some mk
      | None \<Rightarrow> if effective (lm_effect m) = RequiresAnchor then gc_condition_id (gid_components (agg_group_id a))
                else None)"

definition market_is_dropped :: "string \<Rightarrow> scope set \<Rightarrow> scope_lookups \<Rightarrow> bool" where
  "market_is_dropped market dropped lookups =
     (if market_scope market \<in> dropped then True
      else (case sl_market lookups market of
              LookupGrouped g \<Rightarrow> event_scope g \<in> dropped
            | _ \<Rightarrow> False))"

definition scope_is_dropped :: "scope \<Rightarrow> scope set \<Rightarrow> scope_lookups \<Rightarrow> bool" where
  "scope_is_dropped s dropped lookups =
     (case sc_kind s of
        ScopeEvent \<Rightarrow> s \<in> dropped
      | ScopeMarket \<Rightarrow> market_is_dropped (sc_id s) dropped lookups)"

definition record_scope_problem ::
    "(scope \<times> scope_problem) list \<Rightarrow> scope \<Rightarrow> drop_cause \<Rightarrow> source_trade_id \<Rightarrow> (scope \<times> scope_problem) list" where
  "record_scope_problem problems s cause trigger =
     (case map_of problems s of
        None \<Rightarrow> AList.update s \<lparr>sp_scope = s, sp_cause = cause, sp_trigger = trigger\<rparr> problems
      | Some p \<Rightarrow>
          if trigger < sp_trigger p \<or> trigger = sp_trigger p \<and> cause < sp_cause p
          then AList.update s (p\<lparr>sp_cause := cause, sp_trigger := trigger\<rparr>) problems
          else problems)"


subsection \<open>The scoped second\<close>

record 'd scoped_state =
  st_problems :: "(scope \<times> scope_problem) list"
  st_ignored :: "(source_trade_id \<times> activity_type) list"
  st_mutations :: "'d ledger_mutation list"
  st_consumed :: "(string \<times> market_id) list"
  st_effective :: "string \<rightharpoonup> 'd activity_aggregate"
  st_failed :: "string set"

definition note_problem :: "scope \<Rightarrow> drop_cause \<Rightarrow> source_trade_id \<Rightarrow> 'd scoped_state \<Rightarrow> 'd scoped_state" where
  "note_problem s cause trigger st = st\<lparr>st_problems := record_scope_problem (st_problems st) s cause trigger\<rparr>"

definition note_ignored :: "source_trade_id \<Rightarrow> activity_type \<Rightarrow> 'd scoped_state \<Rightarrow> 'd scoped_state" where
  "note_ignored sid t st = st\<lparr>st_ignored := st_ignored st @ [(sid, t)]\<rparr>"

definition scoped_anomaly ::
    "scope set \<Rightarrow> scope_lookups \<Rightarrow> activity_row_anomaly \<Rightarrow> 'd scoped_state \<Rightarrow> 'd scoped_state" where
  "scoped_anomaly dropped lookups a st =
     (let trigger = activity_row_anomaly_trigger a in
      case resolve_anomaly_scope a lookups of
        Some s \<Rightarrow> if \<not> scope_is_dropped s dropped lookups then note_problem s DropUnrepresentable trigger st else st
      | None \<Rightarrow> note_ignored trigger (an_activity_type a) st)"

definition is_buy_trade :: "'p ledger_effect \<Rightarrow> bool" where
  "is_buy_trade e \<longleftrightarrow> (case effective e of Trade _ _ Buy _ _ \<Rightarrow> True | _ \<Rightarrow> False)"

text \<open>The cause of a problem with a record, when it has one.\<close>

definition record_cause ::
    "'d second_record \<Rightarrow> ledger_error + drop_cause option" where
  "record_cause r =
     (let c = gid_components (agg_group_id (sr_aggregate r)) in
      case sr_mutation r of
        Inl (ErrInvalidMapping _) \<Rightarrow> Inr (Some DropUnmapped)
      | Inl e \<Rightarrow> Inl e
      | Inr m \<Rightarrow>
          Inr (case effective (lm_effect m) of
                 Conversion \<Rightarrow> Some DropConversion
               | UnknownEffect \<Rightarrow> Some DropUnknownType
               | RequiresAnchor \<Rightarrow> if gc_condition_id c = None then Some DropUnknownCondition else None
               | e \<Rightarrow>
                   (let canonical = (case gc_condition_id c of None \<Rightarrow> False | Some i \<Rightarrow> canonical_scope_id i) in
                    if effect_market e \<noteq> None \<and> \<not> canonical then Some DropUnmapped else None)))"

definition scoped_problem_record ::
    "scope set \<Rightarrow> scope_lookups \<Rightarrow> 'd second_record \<Rightarrow> drop_cause \<Rightarrow> 'd scoped_state \<Rightarrow> 'd scoped_state" where
  "scoped_problem_record dropped lookups r cause st =
     (let a = sr_aggregate r; key = gid_key (agg_group_id a) in
      case resolve_problem_scope a cause lookups of
        None \<Rightarrow> note_ignored key (gc_activity_type (gid_components (agg_group_id a))) st
      | Some s \<Rightarrow>
          (let st1 = (case sr_mutation r of
                        Inr m \<Rightarrow> if is_buy_trade (lm_effect m)
                                 then st\<lparr>st_consumed := AList.update key (sc_id s) (st_consumed st)\<rparr> else st
                      | Inl _ \<Rightarrow> st) in
           if \<not> scope_is_dropped s dropped lookups then note_problem s cause key st1 else st1))"

definition scoped_valid_record ::
    "scope set \<Rightarrow> scope_lookups \<Rightarrow> 'd activity_aggregate \<Rightarrow> 'd ledger_mutation \<Rightarrow> 'd scoped_state \<Rightarrow> 'd scoped_state" where
  "scoped_valid_record dropped lookups a m st =
     (let st1 = (case effective (lm_effect m) of
                   Trade mk _ Buy _ _ \<Rightarrow>
                     st\<lparr>st_consumed := AList.update (lm_source_trade_id m) mk (st_consumed st)\<rparr>
                 | _ \<Rightarrow> st) in
      if (case record_market m a of None \<Rightarrow> False | Some mk \<Rightarrow> market_is_dropped mk dropped lookups) then st1
      else st1\<lparr>st_effective := (st_effective st1)(lm_source_trade_id m \<mapsto> a),
               st_mutations := st_mutations st1 @ [m]\<rparr>)"

definition scoped_record ::
    "scope set \<Rightarrow> scope_lookups \<Rightarrow> 'd scoped_state \<Rightarrow> 'd second_record \<Rightarrow> ledger_error + 'd scoped_state" where
  "scoped_record dropped lookups st r =
     (let a = sr_aggregate r; c = gid_components (agg_group_id a);
          raw_only = (case sr_mutation r of
                        Inr m \<Rightarrow> (case effective (lm_effect m) of RawOnly \<Rightarrow> Some m | _ \<Rightarrow> None) | Inl _ \<Rightarrow> None) in
      case raw_only of
        Some m \<Rightarrow> Inr (st\<lparr>st_mutations := st_mutations st @ [m]\<rparr>)
      | None \<Rightarrow>
          if gc_activity_type c = ActTrade \<and> agg_share_sum a \<noteq> 0 \<and> gc_asset c = None
          then Inr (note_ignored (gid_key (agg_group_id a)) ActTrade st)
          else rbind (record_cause r) (\<lambda>cause.
                 case cause of
                   Some cs \<Rightarrow> Inr (scoped_problem_record dropped lookups r cs st)
                 | None \<Rightarrow> Inr (case sr_mutation r of
                                 Inr m \<Rightarrow> scoped_valid_record dropped lookups a m st | Inl _ \<Rightarrow> st)))"

definition component_cause ::
    "position_ledger \<Rightarrow> wallet_address \<Rightarrow> 'd ledger_mutation list \<Rightarrow> ledger_error + drop_cause option" where
  "component_cause L w component =
     (case component_order_independent L w component ProofRepaired of
        Inr True \<Rightarrow> Inr None
      | Inr False \<Rightarrow> Inr (Some DropOrderDependent)
      | Inl e \<Rightarrow>
          (case e of
             ErrUnderflow _ \<Rightarrow> if length component = 1 then Inr (Some DropUnderflow) else Inl e
           | ErrOverflow _ \<Rightarrow> if length component = 1 then Inr (Some DropOverflow) else Inl e
           | _ \<Rightarrow> Inl e))"

definition forget_mutation :: "'d ledger_mutation \<Rightarrow> 'd scoped_state \<Rightarrow> 'd scoped_state" where
  "forget_mutation m st =
     (let st1 = (case st_effective st (lm_source_trade_id m) of
                   Some a \<Rightarrow> note_ignored (lm_source_trade_id m) (gc_activity_type (gid_components (agg_group_id a))) st
                 | None \<Rightarrow> st) in
      st1\<lparr>st_consumed := AList.delete (lm_source_trade_id m) (st_consumed st1)\<rparr>)"

definition scoped_component ::
    "position_ledger \<Rightarrow> wallet_address \<Rightarrow> scope set \<Rightarrow> scope_lookups \<Rightarrow> 'd scoped_state \<Rightarrow> 'd ledger_mutation list
       \<Rightarrow> ledger_error + 'd scoped_state" where
  "scoped_component L w dropped lookups st component =
     (case component of
        [] \<Rightarrow> Inr st
      | leading # _ \<Rightarrow>
          rbind (component_cause L w component) (\<lambda>cause.
            case cause of
              None \<Rightarrow> Inr st
            | Some cs \<Rightarrow>
                (case st_effective st (lm_source_trade_id leading) of
                   None \<Rightarrow> Inl (ErrInvalidMapping (lm_source_trade_id leading))
                 | Some a \<Rightarrow>
                     (let st1 = (case resolve_problem_scope a cs lookups of
                                   Some s \<Rightarrow> if s \<notin> dropped then note_problem s cs (lm_source_trade_id leading) st else st
                                 | None \<Rightarrow> fold forget_mutation component st) in
                      Inr (st1\<lparr>st_failed := st_failed st1 \<union> set (map lm_source_trade_id component)\<rparr>)))))"

definition mismatched_anomaly :: "(source_timestamp \<Rightarrow> i64) \<Rightarrow> wallet_address \<Rightarrow> i64 \<Rightarrow> activity_row_anomaly \<Rightarrow> bool" where
  "mismatched_anomaly unix_timestamp w second a \<longleftrightarrow>
     an_wallet a \<noteq> w \<or> unix_timestamp (an_source_time a) \<noteq> second"

definition suppress_admitted :: "'p trade_decision \<Rightarrow> 'p trade_decision" where
  "suppress_admitted d = (if td_entry d = Admitted then d\<lparr>td_entry := NotAnEntry\<rparr> else d)"

definition outside_drops :: "'d scoped_state \<Rightarrow> scope set \<Rightarrow> scope_lookups \<Rightarrow> 'd ledger_mutation \<Rightarrow> bool" where
  "outside_drops st drops lookups m \<longleftrightarrow>
     lm_source_trade_id m \<notin> st_failed st \<and>
     (case Option.bind (st_effective st (lm_source_trade_id m)) (record_market m) of
        None \<Rightarrow> True
      | Some mk \<Rightarrow> \<not> market_is_dropped mk drops lookups)"

definition classify_scoped_second_with_anomalies ::
    "(source_timestamp \<Rightarrow> i64) \<Rightarrow> same_second_entry_policy \<Rightarrow> position_ledger \<Rightarrow> wallet_address \<Rightarrow> i64
       \<Rightarrow> 'd second_record list \<Rightarrow> activity_row_anomaly list \<Rightarrow> scope set \<Rightarrow> bool \<Rightarrow> reconstruction_quality
       \<Rightarrow> signal_config \<Rightarrow> bool \<Rightarrow> (market_id \<Rightarrow> bool) \<Rightarrow> scope_lookups \<Rightarrow> ledger_error + 'd scoped_second" where
  "classify_scoped_second_with_anomalies unix_timestamp policy L w source_second records anomalies dropped
       certified quality config history_complete has_market lookups =
     (case find (mismatched_anomaly unix_timestamp w source_second) anomalies of
        Some a \<Rightarrow> Inl (ErrInvalidMapping (activity_row_anomaly_trigger a))
      | None \<Rightarrow>
          (let ordered = sort_key (\<lambda>r. gid_key (agg_group_id (sr_aggregate r))) records;
               empty = \<lparr>st_problems = [], st_ignored = [], st_mutations = [], st_consumed = [],
                        st_effective = Map.empty, st_failed = {}\<rparr>;
               st0 = fold (scoped_anomaly dropped lookups) anomalies empty in
           rbind (try_fold (scoped_record dropped lookups) st0 ordered) (\<lambda>st1.
           rbind (try_fold (scoped_component L w dropped lookups) st1 (mutation_components (st_mutations st1))) (\<lambda>st2.
             let new_drops = set (map fst (st_problems st2));
                 applied = filter (outside_drops st2 new_drops lookups) (st_mutations st2);
                 problem_second = (certified \<or> st_problems st2 \<noteq> []) in
             rbind (classify_complete_second policy L w applied quality config history_complete has_market) (\<lambda>verdict.
               case verdict of
                 OrderDependent trigger \<Rightarrow> Inl (ErrInvalidMapping trigger)
               | OrderIndependent _ ds _ \<Rightarrow>
                   Inr \<lparr>ss_problem_second = problem_second,
                        ss_problems = map snd (sort_key (\<lambda>p. sc_kind (fst p)) (sort_key (\<lambda>p. sc_id (fst p)) (st_problems st2))),
                        ss_ignored = sort_key fst (st_ignored st2),
                        ss_apply = applied,
                        ss_decisions = (if problem_second then map suppress_admitted ds else ds),
                        ss_consumed = sort (remdups (map snd (st_consumed st2)))\<rparr>)))))"

definition classify_scoped_second ::
    "(source_timestamp \<Rightarrow> i64) \<Rightarrow> same_second_entry_policy \<Rightarrow> position_ledger \<Rightarrow> wallet_address
       \<Rightarrow> 'd second_record list \<Rightarrow> scope set \<Rightarrow> bool \<Rightarrow> reconstruction_quality
       \<Rightarrow> signal_config \<Rightarrow> bool \<Rightarrow> (market_id \<Rightarrow> bool) \<Rightarrow> scope_lookups \<Rightarrow> ledger_error + 'd scoped_second" where
  "classify_scoped_second unix_timestamp policy L w records =
     classify_scoped_second_with_anomalies unix_timestamp policy L w
       (case records of [] \<Rightarrow> 0 | r # _ \<Rightarrow> unix_timestamp (agg_source_time (sr_aggregate r))) records []"

definition classify_scoped_historical_second ::
    "(source_timestamp \<Rightarrow> i64) \<Rightarrow> position_ledger \<Rightarrow> wallet_address \<Rightarrow> 'd second_record list \<Rightarrow> scope set
       \<Rightarrow> bool \<Rightarrow> reconstruction_quality \<Rightarrow> (market_id \<Rightarrow> bool) \<Rightarrow> scope_lookups \<Rightarrow> ledger_error + 'd scoped_second" where
  "classify_scoped_historical_second unix_timestamp L w records dropped certified quality has_market lookups =
     classify_scoped_second unix_timestamp PolicyHomogeneousPieces L w records dropped certified quality
       signal_config_default True has_market lookups"

definition classify_scoped_historical_second_with_anomalies ::
    "(source_timestamp \<Rightarrow> i64) \<Rightarrow> position_ledger \<Rightarrow> wallet_address \<Rightarrow> i64 \<Rightarrow> 'd second_record list
       \<Rightarrow> activity_row_anomaly list \<Rightarrow> scope set \<Rightarrow> bool \<Rightarrow> reconstruction_quality \<Rightarrow> (market_id \<Rightarrow> bool)
       \<Rightarrow> scope_lookups \<Rightarrow> ledger_error + 'd scoped_second" where
  "classify_scoped_historical_second_with_anomalies unix_timestamp L w source_second records anomalies dropped
       certified quality has_market lookups =
     classify_scoped_second_with_anomalies unix_timestamp PolicyHomogeneousPieces L w source_second records anomalies
       dropped certified quality signal_config_default True has_market lookups"

end
