(* ===== verification/Second_Properties.thy ===== *)
theory Second_Properties
  imports Second_Classifier
begin

section \<open>What the classification of a second guarantees\<close>

text \<open>
  The lemmas follow the loops: \<open>admitted_ok\<close> is the invariant of the loop over candidate markets,
  \<open>recorded\<close> and \<open>filed\<close> are the invariants of the loops of the scoped second. The two properties
  say when an entry is admitted and that a scoped second stays clear of every dropped scope.
\<close>

lemma fold_update_nth:
  assumes "distinct is" and "\<forall>i\<in>set is. i < length ds"
  shows "length (fold (\<lambda>i ds. ds[i := f i (ds ! i)]) is ds) = length ds \<and>
    (\<forall>j. fold (\<lambda>i ds. ds[i := f i (ds ! i)]) is ds ! j = (if j \<in> set is then f j (ds ! j) else ds ! j))"
  using assms
proof (induction "is" arbitrary: ds)
  case (Cons i "is")
  have "length (fold (\<lambda>i ds. ds[i := f i (ds ! i)]) is (ds[i := f i (ds ! i)])) = length (ds[i := f i (ds ! i)]) \<and>
    (\<forall>j. fold (\<lambda>i ds. ds[i := f i (ds ! i)]) is (ds[i := f i (ds ! i)]) ! j =
      (if j \<in> set is then f j ((ds[i := f i (ds ! i)]) ! j) else (ds[i := f i (ds ! i)]) ! j))"
    by (rule Cons.IH) (use Cons.prems in auto)
  with Cons.prems show ?case by (auto simp: nth_list_update)
qed simp

text \<open>The fields a verdict never changes.\<close>

definition decision_core :: "'p trade_decision \<Rightarrow> source_trade_id \<times> market_id \<times> outcome_id \<times> side \<times> share_amount \<times> 'p \<times> leader_action" where
  "decision_core d = (td_source_trade_id d, td_market_id d, td_outcome_id d, td_side d, td_amount d, td_price d, td_action d)"

lemma candidate_indices_props:
  "distinct (candidate_indices ds mk)" "\<forall>i\<in>set (candidate_indices ds mk). i < length ds"
  "i \<in> set (candidate_indices ds mk) \<longleftrightarrow> i < length ds \<and> is_candidate (ds ! i) \<and> td_market_id (ds ! i) = mk"
  by (auto simp: candidate_indices_def)

lemma classify_market_nth:
  assumes "distinct indices" and "\<forall>i\<in>set indices. i < length ds"
    and "classify_market policy w ms hist has_market (mk, indices) (ds, entries) = (ds', entries')"
  shows "length ds' = length ds" and "decision_core (ds' ! j) = decision_core (ds ! j)"
    and "j \<notin> set indices \<Longrightarrow> ds' ! j = ds ! j"
    and "j \<in> set indices \<Longrightarrow> td_entry (ds' ! j) = Admitted \<Longrightarrow>
      \<not> has_market mk \<and> hist \<and> (length indices < 2 \<or> min_index_by (\<lambda>i. td_source_trade_id (ds ! i)) indices = Some j)"
proof -
  let ?rep = "min_index_by (\<lambda>i. td_source_trade_id (ds ! i)) indices"
  let ?hom = "homogeneous_second policy w ms ds mk ?rep"
  let ?v = "market_verdict hist ?hom indices"
  let ?f = "\<lambda>i d. if has_market mk then d\<lparr>td_entry := NotFirstEntry\<rparr>
     else if ?hom \<and> ?v = Admitted then
       (if Some i = ?rep then d\<lparr>td_action_order_dependent := False, td_entry := Admitted\<rparr> else d\<lparr>td_entry := NotFirstEntry\<rparr>)
     else d\<lparr>td_entry := ?v\<rparr>"
  have ds': "ds' = fold (\<lambda>i ds. ds[i := ?f i (ds ! i)]) indices ds"
    using assms(3) by (cases "has_market mk") (auto simp: classify_market_def Let_def)
  have nth: "ds' ! j = (if j \<in> set indices then ?f j (ds ! j) else ds ! j)"
    and "length ds' = length ds"
    using fold_update_nth [OF assms(1,2), of ?f] ds' by simp_all
  then show "length ds' = length ds" by simp
  show "decision_core (ds' ! j) = decision_core (ds ! j)"
    unfolding nth by (simp add: decision_core_def)
  show "j \<notin> set indices \<Longrightarrow> ds' ! j = ds ! j" unfolding nth by simp
  show "j \<in> set indices \<Longrightarrow> td_entry (ds' ! j) = Admitted \<Longrightarrow>
      \<not> has_market mk \<and> hist \<and> (length indices < 2 \<or> ?rep = Some j)"
    unfolding nth by (auto simp: market_verdict_def split: if_splits)
qed


definition admitted_ok ::
    "'p trade_decision list \<Rightarrow> (market_id \<Rightarrow> bool) \<Rightarrow> bool \<Rightarrow> market_id set \<Rightarrow> 'p trade_decision list \<Rightarrow> bool" where
  "admitted_ok ds0 has_market hist M ds \<longleftrightarrow>
     length ds = length ds0 \<and>
     (\<forall>j<length ds0. decision_core (ds ! j) = decision_core (ds0 ! j)) \<and>
     (\<forall>j<length ds0. td_entry (ds ! j) = Admitted \<longrightarrow>
        td_market_id (ds0 ! j) \<in> M \<and> is_candidate (ds0 ! j) \<and> \<not> has_market (td_market_id (ds0 ! j)) \<and> hist) \<and>
     (\<forall>i<length ds0. \<forall>j<length ds0. td_entry (ds ! i) = Admitted \<longrightarrow> td_entry (ds ! j) = Admitted \<longrightarrow>
        td_market_id (ds0 ! i) = td_market_id (ds0 ! j) \<longrightarrow> i = j)"

lemma admitted_ok_first_pass:
  assumes "\<forall>d\<in>set ds0. td_entry d \<noteq> Admitted"
  shows "admitted_ok ds0 has_market hist {} (map first_pass ds0)"
  using assms by (auto simp: admitted_ok_def first_pass_def decision_core_def)

lemma short_distinct_unique:
  "distinct xs \<Longrightarrow> length xs < 2 \<Longrightarrow> i \<in> set xs \<Longrightarrow> j \<in> set xs \<Longrightarrow> i = j"
  by (cases xs; cases "tl xs") auto

lemma admitted_ok_step:
  assumes ok: "admitted_ok ds0 has_market hist M ds" and new: "mk \<notin> M"
    and step: "classify_market policy w ms hist has_market (mk, candidate_indices ds0 mk) (ds, en) = (ds', en')"
  shows "admitted_ok ds0 has_market hist (insert mk M) ds'"
proof -
  let ?is = "candidate_indices ds0 mk"
  have len: "length ds = length ds0" using ok by (simp add: admitted_ok_def)
  have bound: "\<forall>i\<in>set ?is. i < length ds" using candidate_indices_props(2) [of ds0 mk] by (simp add: len)
  note nth = classify_market_nth [OF candidate_indices_props(1) bound step]
  have old: "td_market_id (ds0 ! j) \<in> M \<and> is_candidate (ds0 ! j) \<and> \<not> has_market (td_market_id (ds0 ! j)) \<and> hist"
    if "j < length ds0" "td_entry (ds' ! j) = Admitted" "j \<notin> set ?is" for j
    using ok that nth(3) [of j] by (simp add: admitted_ok_def)
  have fresh: "td_market_id (ds0 ! j) = mk \<and> is_candidate (ds0 ! j) \<and> \<not> has_market mk \<and> hist \<and>
      (length ?is < 2 \<or> min_index_by (\<lambda>i. td_source_trade_id (ds ! i)) ?is = Some j)"
    if "td_entry (ds' ! j) = Admitted" "j \<in> set ?is" for j
    using nth(4) [of j] that candidate_indices_props(3) [of j ds0 mk] by simp
  have "i = j" if i: "i < length ds0" "td_entry (ds' ! i) = Admitted" and j: "j < length ds0" "td_entry (ds' ! j) = Admitted"
    and same: "td_market_id (ds0 ! i) = td_market_id (ds0 ! j)" for i j
  proof (cases "i \<in> set ?is")
    case True
    then have "j \<in> set ?is" using old [OF j] fresh [OF i(2) True] same new by auto
    then show ?thesis
      using fresh [OF i(2) True] fresh [OF j(2)] True short_distinct_unique candidate_indices_props(1) by fastforce
  next
    case False
    then have "j \<notin> set ?is" using old [OF i] fresh [OF j(2)] same new by auto
    then show ?thesis
      using ok i j same nth(3) False unfolding admitted_ok_def by metis
  qed
  moreover have "td_market_id (ds0 ! j) \<in> insert mk M \<and> is_candidate (ds0 ! j) \<and> \<not> has_market (td_market_id (ds0 ! j)) \<and> hist"
    if "j < length ds0" "td_entry (ds' ! j) = Admitted" for j
    using old [OF that] fresh [OF that(2)] by (cases "j \<in> set ?is") auto
  moreover have "decision_core (ds' ! j) = decision_core (ds0 ! j)" if "j < length ds0" for j
    using ok that nth(2) [of j] by (simp add: admitted_ok_def)
  ultimately show ?thesis using nth(1) len by (simp add: admitted_ok_def)
qed

lemma admitted_ok_fold:
  assumes "admitted_ok ds0 has_market hist M (fst acc)" and "distinct mks" and "set mks \<inter> M = {}"
  shows "admitted_ok ds0 has_market hist (M \<union> set mks)
     (fst (fold (classify_market policy w ms hist has_market) (map (\<lambda>mk. (mk, candidate_indices ds0 mk)) mks) acc))"
  using assms
proof (induction mks arbitrary: M acc)
  case (Cons mk mks)
  obtain ds en where acc: "acc = (ds, en)" by (cases acc)
  obtain ds' en' where step: "classify_market policy w ms hist has_market (mk, candidate_indices ds0 mk) (ds, en) = (ds', en')"
    by (metis surj_pair)
  have "admitted_ok ds0 has_market hist (insert mk M) ds'"
    by (rule admitted_ok_step [OF _ _ step]) (use Cons.prems acc in auto)
  then have "admitted_ok ds0 has_market hist (insert mk M \<union> set mks)
      (fst (fold (classify_market policy w ms hist has_market) (map (\<lambda>mk. (mk, candidate_indices ds0 mk)) mks) (ds', en')))"
    by (intro Cons.IH) (use Cons.prems in auto)
  then show ?case by (simp add: acc step)
qed simp

lemma classify_entries_ok:
  assumes "\<forall>d\<in>set ds0. td_entry d \<noteq> Admitted"
  shows "admitted_ok ds0 has_market hist (set (candidate_markets ds0))
     (fst (classify_entries policy w ms hist has_market ds0))"
  using admitted_ok_fold [OF _ _ , of ds0 has_market hist "{}" "(map first_pass ds0, [])" "candidate_markets ds0"]
    admitted_ok_first_pass [OF assms]
  by (simp add: classify_entries_def Let_def candidate_markets_def)

lemma decision_of_entry: "decision_of L w ms q config m = Some d \<Longrightarrow> td_entry d = NotAnEntry"
  by (auto simp: decision_of_def Let_def split: ledger_effect.splits)

lemma decision_of_action:
  assumes "decision_of L w ms q config m = Some d" and "td_action d = Entry"
  shows "long_contracts (state_at L w (market_outcome (td_market_id d) (td_outcome_id d))) = 0 \<and>
         short_contracts (state_at L w (market_outcome (td_market_id d) (td_outcome_id d))) = 0"
  using assms
  by (auto simp: decision_of_def Let_def classify_leader_action_def lookup_state_at classify_side_Entry_iff
      split: ledger_effect.splits if_splits side.splits)

lemma set_map_filter: "set (List.map_filter f xs) = {y. \<exists>x\<in>set xs. f x = Some y}"
  by (force simp: map_filter_def)

lemma classify_cases:
  assumes "classify_with_second_proof mode policy L w ms q config hist has_market = Inr (OrderIndependent applied ds entries)"
  shows "order_independent_validity L w ms mode = Inr None \<and>
    ds = fst (classify_entries policy w ms hist has_market (List.map_filter (decision_of L w ms q config) ms)) \<and>
    entries = snd (classify_entries policy w ms hist has_market (List.map_filter (decision_of L w ms q config) ms)) \<and>
    (\<exists>L'. simulate_all_or_none L ms = Inr (L', applied))"
proof -
  obtain x y where ce: "classify_entries policy w ms hist has_market (List.map_filter (decision_of L w ms q config) ms) = (x, y)"
    by (metis surj_pair)
  show ?thesis
    using assms by (auto simp: classify_with_second_proof_def result_simps Let_def ce split: option.splits)
qed

definition prior_entry_free :: "position_ledger \<Rightarrow> wallet_address \<Rightarrow> 'p trade_decision \<Rightarrow> bool" where
  "prior_entry_free L w d \<longleftrightarrow>
     (let st = state_at L w (market_outcome (td_market_id d) (td_outcome_id d)) in
      long_contracts st = 0 \<and> short_contracts st = 0)"

lemma admitted_facts:
  assumes verdict: "classify_with_second_proof mode policy L w ms q config hist has_market =
      Inr (OrderIndependent applied ds entries)"
    and i: "i < length ds" "td_entry (ds ! i) = Admitted"
  shows "td_side (ds ! i) = Buy \<and> td_action (ds ! i) = Entry \<and> prior_entry_free L w (ds ! i) \<and>
    \<not> has_market (td_market_id (ds ! i)) \<and> hist"
    and "j < length ds \<Longrightarrow> td_entry (ds ! j) = Admitted \<Longrightarrow> td_market_id (ds ! j) = td_market_id (ds ! i) \<Longrightarrow> j = i"
proof -
  let ?ds0 = "List.map_filter (decision_of L w ms q config) ms"
  have ds: "ds = fst (classify_entries policy w ms hist has_market ?ds0)" using classify_cases [OF verdict] by simp
  have "\<forall>d\<in>set ?ds0. td_entry d \<noteq> Admitted" by (auto simp: set_map_filter dest!: decision_of_entry)
  from classify_entries_ok [OF this, of has_market hist policy w ms]
  have ok: "admitted_ok ?ds0 has_market hist (set (candidate_markets ?ds0)) ds" by (simp add: ds)
  then have len: "length ds = length ?ds0"
    and core: "\<And>k. k < length ?ds0 \<Longrightarrow> decision_core (ds ! k) = decision_core (?ds0 ! k)"
    and adm: "\<And>k. k < length ?ds0 \<Longrightarrow> td_entry (ds ! k) = Admitted \<Longrightarrow>
       is_candidate (?ds0 ! k) \<and> \<not> has_market (td_market_id (?ds0 ! k)) \<and> hist"
    and uniq: "\<And>i j. i < length ?ds0 \<Longrightarrow> j < length ?ds0 \<Longrightarrow> td_entry (ds ! i) = Admitted \<Longrightarrow> td_entry (ds ! j) = Admitted \<Longrightarrow>
        td_market_id (?ds0 ! i) = td_market_id (?ds0 ! j) \<Longrightarrow> i = j"
    by (auto simp: admitted_ok_def)
  have "?ds0 ! i \<in> set ?ds0" using i len by simp
  then obtain m where m: "decision_of L w ms q config m = Some (?ds0 ! i)" by (auto simp: set_map_filter)
  have "td_action (?ds0 ! i) = Entry" using adm [of i] i len by (simp add: is_candidate_def)
  from decision_of_action [OF m this] have "prior_entry_free L w (?ds0 ! i)"
    by (simp add: prior_entry_free_def Let_def)
  with adm [of i] core [of i] i len
  show "td_side (ds ! i) = Buy \<and> td_action (ds ! i) = Entry \<and> prior_entry_free L w (ds ! i) \<and>
    \<not> has_market (td_market_id (ds ! i)) \<and> hist"
    by (simp add: decision_core_def is_candidate_def prior_entry_free_def)
  have mk: "td_market_id (ds ! k) = td_market_id (?ds0 ! k)" if "k < length ds" for k
    using core [of k] that len by (simp add: decision_core_def)
  show "j = i" if j: "j < length ds" "td_entry (ds ! j) = Admitted" "td_market_id (ds ! j) = td_market_id (ds ! i)"
    by (rule uniq) (use i j len mk [OF i(1)] mk [OF j(1)] in simp_all)
qed

text \<open>What an applied mutation carries: it is raw-only or it was recorded outside the dropped scopes.\<close>

definition recorded :: "scope set \<Rightarrow> scope_lookups \<Rightarrow> 'd scoped_state \<Rightarrow> bool" where
  "recorded dropped lookups st \<longleftrightarrow>
     (\<forall>m\<in>set (st_mutations st). effect_market (lm_effect m) \<noteq> None \<longrightarrow>
        st_effective st (lm_source_trade_id m) \<noteq> None \<and>
        \<not> market_is_dropped (the (effect_market (lm_effect m))) dropped lookups)"

lemma recorded_note [simp]:
  "recorded dropped lookups (note_problem s cs t st) = recorded dropped lookups st"
  "recorded dropped lookups (note_ignored sid ty st) = recorded dropped lookups st"
  "recorded dropped lookups (st\<lparr>st_consumed := c\<rparr>) = recorded dropped lookups st"
  "recorded dropped lookups (st\<lparr>st_failed := f\<rparr>) = recorded dropped lookups st"
  by (simp_all add: recorded_def note_problem_def note_ignored_def)

lemma recorded_anomaly: "recorded dropped lookups (scoped_anomaly d' l' a st) = recorded dropped lookups st"
  by (simp add: scoped_anomaly_def Let_def split: option.splits)

lemma recorded_problem: "recorded dropped lookups (scoped_problem_record d' l' r cs st) = recorded dropped lookups st"
  by (simp add: scoped_problem_record_def Let_def split: option.splits sum.splits)

lemma record_market_effect: "effect_market (lm_effect m) = Some mk \<Longrightarrow> record_market m a = Some mk"
  by (simp add: record_market_def)

lemma recorded_push:
  assumes "recorded dropped lookups st"
    and "effect_market (lm_effect m) \<noteq> None \<Longrightarrow> st_effective st (lm_source_trade_id m) \<noteq> None \<and>
        \<not> market_is_dropped (the (effect_market (lm_effect m))) dropped lookups"
  shows "recorded dropped lookups (st\<lparr>st_mutations := st_mutations st @ [m]\<rparr>)"
  using assms by (auto simp: recorded_def)

lemma recorded_grow:
  "recorded dropped lookups st \<Longrightarrow> recorded dropped lookups (st\<lparr>st_effective := (st_effective st)(k \<mapsto> a)\<rparr>)"
  by (auto simp: recorded_def)

lemma recorded_valid:
  assumes "recorded dropped lookups st"
  shows "recorded dropped lookups (scoped_valid_record dropped lookups a m st)"
proof -
  let ?st1 = "case effective (lm_effect m) of
                   Trade mk _ Buy _ _ \<Rightarrow>
                     st\<lparr>st_consumed := AList.update (lm_source_trade_id m) mk (st_consumed st)\<rparr>
                 | _ \<Rightarrow> st"
  have 1: "recorded dropped lookups ?st1"
    using assms by (simp split: ledger_effect.splits side.splits)
  show ?thesis
  proof (cases "case record_market m a of None \<Rightarrow> False | Some mk \<Rightarrow> market_is_dropped mk dropped lookups")
    case True
    then show ?thesis using 1 by (simp add: scoped_valid_record_def)
  next
    case False
    have "recorded dropped lookups
       ((?st1\<lparr>st_effective := (st_effective ?st1)(lm_source_trade_id m \<mapsto> a)\<rparr>)
          \<lparr>st_mutations := st_mutations (?st1\<lparr>st_effective := (st_effective ?st1)(lm_source_trade_id m \<mapsto> a)\<rparr>) @ [m]\<rparr>)"
      by (rule recorded_push [OF recorded_grow [OF 1]]) (use False in \<open>auto simp: record_market_effect\<close>)
    then show ?thesis using False by (simp add: scoped_valid_record_def Let_def)
  qed
qed

lemma recorded_record:
  assumes "recorded dropped lookups st" "scoped_record dropped lookups st r = Inr st'"
  shows "recorded dropped lookups st'"
proof -
  have raw: "effect_market (lm_effect m) = None" if "effective (lm_effect m) = RawOnly" for m :: "'a ledger_mutation"
    using that by (simp add: effect_market_def)
  show ?thesis
    using assms
    by (auto simp: scoped_record_def Let_def result_simps recorded_problem recorded_valid raw intro!: recorded_push
        split: option.splits sum.splits ledger_effect.splits if_splits)
qed

lemma forget_keeps:
  "st_mutations (fold forget_mutation ms st) = st_mutations st \<and> st_effective (fold forget_mutation ms st) = st_effective st \<and>
   st_problems (fold forget_mutation ms st) = st_problems st"
  by (induction ms arbitrary: st) (simp_all add: forget_mutation_def Let_def note_ignored_def split: option.splits)

lemma scoped_component_cases:
  assumes "scoped_component L w dropped lookups st c = Inr st'"
  obtains "st' = st"
  | st1 f where "st' = st1\<lparr>st_failed := f\<rparr>" "st1 = st \<or> st1 = fold forget_mutation c st \<or> (\<exists>s cs t. st1 = note_problem s cs t st)"
proof (cases c)
  case Nil
  then show ?thesis using assms that(1) by (simp add: scoped_component_def)
next
  case (Cons m ms)
  have step: "rbind (component_cause L w c) (\<lambda>cause. case cause of None \<Rightarrow> Inr st
      | Some cs \<Rightarrow>
                (case st_effective st (lm_source_trade_id m) of
                   None \<Rightarrow> Inl (ErrInvalidMapping (lm_source_trade_id m))
                 | Some a \<Rightarrow>
                     (let st1 = (case resolve_problem_scope a cs lookups of
                                   Some s \<Rightarrow> if s \<notin> dropped then note_problem s cs (lm_source_trade_id m) st else st
                                 | None \<Rightarrow> fold forget_mutation c st) in
                      Inr (st1\<lparr>st_failed := st_failed st1 \<union> set (map lm_source_trade_id c)\<rparr>)))) = Inr st'"
    using assms unfolding scoped_component_def Cons list.case .
  then obtain cause where cause: "component_cause L w c = Inr cause" by (auto simp: rbind_eq_Inr_iff)
  show ?thesis
  proof (cases cause)
    case None
    then show ?thesis using step cause that(1) by simp
  next
    case (Some cs)
    show ?thesis
    proof (cases "st_effective st (lm_source_trade_id m)")
      case None
      then show ?thesis using step cause Some by simp
    next
      fix a
      assume "st_effective st (lm_source_trade_id m) = Some a"
      with step cause Some
      have *: "(let st1 = (case resolve_problem_scope a cs lookups of
                                   Some s \<Rightarrow> if s \<notin> dropped then note_problem s cs (lm_source_trade_id m) st else st
                                 | None \<Rightarrow> fold forget_mutation c st) in
                      st1\<lparr>st_failed := st_failed st1 \<union> set (map lm_source_trade_id c)\<rparr>) = st'"
        by (simp add: Let_def)
      show ?thesis by (rule that(2) [OF * [symmetric, unfolded Let_def]]) (auto split: option.splits)
    qed
  qed
qed

lemma recorded_component:
  assumes "recorded dropped lookups st" "scoped_component L w dropped' lookups' st c = Inr st'"
  shows "recorded dropped lookups st'"
proof -
  have "recorded dropped lookups (fold forget_mutation c st)"
    using assms(1) forget_keeps [of c st] by (simp add: recorded_def)
  then show ?thesis using assms(1) by (rule_tac scoped_component_cases [OF assms(2)]) auto
qed

text \<open>Every problem is filed under the scope it names.\<close>

definition filed :: "'d scoped_state \<Rightarrow> bool" where
  "filed st \<longleftrightarrow> (\<forall>(s, p)\<in>set (st_problems st). sp_scope p = s)"

lemma filed_simps [simp]:
  "filed (note_ignored sid ty st) = filed st"
  "filed (st\<lparr>st_consumed := c\<rparr>) = filed st"
  "filed (st\<lparr>st_failed := f\<rparr>) = filed st"
  "filed (st\<lparr>st_mutations := ms\<rparr>) = filed st"
  "filed (st\<lparr>st_effective := e\<rparr>) = filed st"
  by (simp_all add: filed_def note_ignored_def)

lemma set_update_subset: "set (AList.update k v al) \<subseteq> insert (k, v) (set al)"
  by (induction al) auto

lemma filed_problem [simp]:
  assumes "filed st"
  shows "filed (note_problem s cs t st)"
proof -
  have found: "sp_scope p = s" if "map_of (st_problems st) s = Some p" for p
    using map_of_SomeD [OF that] assms by (auto simp: filed_def)
  have put: "\<forall>(s, p)\<in>set (AList.update s p (st_problems st)). sp_scope p = s" if "sp_scope p = s" for p
  proof (rule ballI)
    fix x
    assume "x \<in> set (AList.update s p (st_problems st))"
    with set_update_subset have "x \<in> insert (s, p) (set (st_problems st))" by (rule subsetD)
    then show "case x of (s, p) \<Rightarrow> sp_scope p = s" using assms that by (auto simp: filed_def)
  qed
  show ?thesis
  proof (cases "map_of (st_problems st) s")
    case None
    then show ?thesis
      using put [of "\<lparr>sp_scope = s, sp_cause = cs, sp_trigger = t\<rparr>"]
      by (simp add: filed_def note_problem_def record_scope_problem_def)
  next
    case (Some p)
    then show ?thesis
      using put [of "p\<lparr>sp_cause := cs, sp_trigger := t\<rparr>"] found [OF Some] assms
      by (simp add: filed_def note_problem_def record_scope_problem_def)
  qed
qed

lemma filed_steps:
  "filed st \<Longrightarrow> filed (scoped_anomaly d l a st)"
  "filed st \<Longrightarrow> filed (scoped_problem_record d l r cs st)"
  "filed st \<Longrightarrow> filed (scoped_valid_record d l a' m st)"
  by (simp_all add: scoped_anomaly_def scoped_problem_record_def scoped_valid_record_def Let_def
      split: option.splits sum.splits ledger_effect.splits side.splits)

lemma filed_record:
  assumes "filed st" "scoped_record dropped lookups st r = Inr st'"
  shows "filed st'"
  using assms
  by (auto simp: scoped_record_def Let_def result_simps filed_steps
      split: option.splits sum.splits ledger_effect.splits if_splits)

lemma filed_component:
  assumes "filed st" "scoped_component L w dropped' lookups' st c = Inr st'"
  shows "filed st'"
proof -
  have "filed (fold forget_mutation c st)" using assms(1) forget_keeps [of c st] by (simp add: filed_def)
  then show ?thesis using assms(1) by (rule_tac scoped_component_cases [OF assms(2)]) auto
qed

lemma scoped_cases:
  assumes "classify_scoped_second_with_anomalies ut policy L w sec records anomalies dropped certified q config hist has_market lookups = Inr s"
  obtains st2 ds applied entries where "recorded dropped lookups st2" "filed st2"
    "ss_apply s = filter (outside_drops st2 (set (map fst (st_problems st2))) lookups) (st_mutations st2)"
    "ss_problem_second s \<longleftrightarrow> certified \<or> st_problems st2 \<noteq> []"
    "set (ss_problems s) = set (map snd (st_problems st2))"
    "classify_complete_second policy L w (ss_apply s) q config hist has_market = Inr (OrderIndependent applied ds entries)"
    "ss_decisions s = (if ss_problem_second s then map suppress_admitted ds else ds)"
proof -
  let ?empty = "\<lparr>st_problems = [], st_ignored = [], st_mutations = [], st_consumed = [],
                        st_effective = Map.empty, st_failed = {}\<rparr> :: 'a scoped_state"
  let ?st0 = "fold (scoped_anomaly dropped lookups) anomalies ?empty"
  have "recorded dropped lookups st \<and> filed st \<longrightarrow>
    recorded dropped lookups (fold (scoped_anomaly dropped lookups) as st) \<and> filed (fold (scoped_anomaly dropped lookups) as st)"
    for as and st :: "'a scoped_state"
    by (induction as arbitrary: st) (simp_all add: recorded_anomaly filed_steps)
  moreover have "recorded dropped lookups ?empty \<and> filed ?empty" by (simp add: recorded_def filed_def)
  ultimately have st0: "recorded dropped lookups ?st0 \<and> filed ?st0" by blast
  let ?ordered = "sort_key (\<lambda>r. gid_key (agg_group_id (sr_aggregate r))) records"
  have "find (mismatched_anomaly ut w sec) anomalies = None"
    using assms by (simp add: classify_scoped_second_with_anomalies_def split: option.splits)
  with assms obtain st1 st2 verdict where
    1: "try_fold (scoped_record dropped lookups) ?st0 ?ordered = Inr st1"
    and 2: "try_fold (scoped_component L w dropped lookups) st1 (mutation_components (st_mutations st1)) = Inr st2"
    and 3: "classify_complete_second policy L w
        (filter (outside_drops st2 (set (map fst (st_problems st2))) lookups) (st_mutations st2)) q config hist has_market = Inr verdict"
    and 4: "(case verdict of
                 OrderDependent trigger \<Rightarrow> Inl (ErrInvalidMapping trigger)
               | OrderIndependent _ ds _ \<Rightarrow>
                   Inr \<lparr>ss_problem_second = certified \<or> st_problems st2 \<noteq> [],
                        ss_problems = map snd (sort_key (\<lambda>p. sc_kind (fst p)) (sort_key (\<lambda>p. sc_id (fst p)) (st_problems st2))),
                        ss_ignored = sort_key fst (st_ignored st2),
                        ss_apply = filter (outside_drops st2 (set (map fst (st_problems st2))) lookups) (st_mutations st2),
                        ss_decisions = (if certified \<or> st_problems st2 \<noteq> [] then map suppress_admitted ds else ds),
                        ss_consumed = sort (remdups (map snd (st_consumed st2)))\<rparr>) = Inr s"
    by (simp only: classify_scoped_second_with_anomalies_def Let_def rbind_eq_Inr_iff option.case) blast
  then obtain applied ds entries where v: "verdict = OrderIndependent applied ds entries" by (cases verdict) auto
  have st1: "recorded dropped lookups st1 \<and> filed st1"
    using st0 by (rule try_fold_invariant [OF _ _ 1]) (use recorded_record filed_record in blast)
  have "recorded dropped lookups st2 \<and> filed st2"
    using st1 by (rule try_fold_invariant [OF _ _ 2]) (use recorded_component filed_component in blast)
  then show ?thesis
    by (intro that [of st2 applied ds entries]) (use 3 4 v in force)+
qed

lemma scoped_apply_outside:
  assumes "recorded dropped lookups st" "filed st" "m \<in> set (st_mutations st)"
    and "outside_drops st (set (map fst (st_problems st))) lookups m" "effect_market (lm_effect m) = Some mk"
  shows "\<not> market_is_dropped mk dropped lookups \<and>
    \<not> market_is_dropped mk (sp_scope ` snd ` set (st_problems st)) lookups"
proof -
  have "fst ` set (st_problems st) = sp_scope ` snd ` set (st_problems st)"
    using assms(2) by (force simp: filed_def image_iff)
  moreover obtain a where "st_effective st (lm_source_trade_id m) = Some a"
    using assms(1,3,5) by (auto simp: recorded_def)
  moreover have "\<not> market_is_dropped mk dropped lookups" using assms(1,3,5) by (auto simp: recorded_def)
  ultimately show ?thesis
    using assms(4,5) by (simp add: outside_drops_def record_market_effect)
qed

text \<open>C14. A decision of an accepted second that is admitted is a buy that opens a position: the pre-second
  ledger holds no contracts of that market outcome, the market was not entered before, the wallet's
  history is complete, and no other decision of the second is admitted for the same market.\<close>

theorem admitted_is_first_entry:
  assumes "classify_with_second_proof mode policy L w ms quality config history_complete has_market =
      Inr (OrderIndependent applied ds entries)"
    and "i < length ds" "td_entry (ds ! i) = Admitted"
  shows "td_side (ds ! i) = Buy \<and> td_action (ds ! i) = Entry \<and> prior_entry_free L w (ds ! i) \<and>
    \<not> has_market (td_market_id (ds ! i)) \<and> history_complete \<and>
    (\<forall>j. j < length ds \<and> td_entry (ds ! j) = Admitted \<and> td_market_id (ds ! j) = td_market_id (ds ! i) \<longrightarrow> j = i)"
  using admitted_facts [OF assms] by blast

text \<open>C15. A scoped second applies no mutation in a market that was dropped before the second or that the
  second itself drops, and its verdict on the rest is consistent: a second with a problem admits no
  entry, and what it applies is accepted by the equal-second check.\<close>

theorem scoped_second_respects_drops:
  assumes run: "classify_scoped_second_with_anomalies unix_timestamp policy L w sec records anomalies dropped
      certified quality config history_complete has_market lookups = Inr s"
  shows "(\<forall>m\<in>set (ss_apply s). \<forall>mk. effect_market (lm_effect m) = Some mk \<longrightarrow>
            \<not> market_is_dropped mk dropped lookups \<and> \<not> market_is_dropped mk (sp_scope ` set (ss_problems s)) lookups) \<and>
    (ss_problem_second s \<longleftrightarrow> certified \<or> ss_problems s \<noteq> []) \<and>
    (ss_problem_second s \<longrightarrow> (\<forall>d\<in>set (ss_decisions s). td_entry d \<noteq> Admitted)) \<and>
    order_independent_validity L w (ss_apply s) ProofRepaired = Inr None"
proof -
  from run obtain st ds applied entries where inv: "recorded dropped lookups st" "filed st"
    and ap: "ss_apply s = filter (outside_drops st (set (map fst (st_problems st))) lookups) (st_mutations st)"
    and problem: "ss_problem_second s \<longleftrightarrow> certified \<or> st_problems st \<noteq> []"
    and problems: "set (ss_problems s) = set (map snd (st_problems st))"
    and cl: "classify_complete_second policy L w (ss_apply s) quality config history_complete has_market =
        Inr (OrderIndependent applied ds entries)"
    and ds: "ss_decisions s = (if ss_problem_second s then map suppress_admitted ds else ds)"
    by (rule scoped_cases)
  have "\<not> market_is_dropped mk dropped lookups \<and> \<not> market_is_dropped mk (sp_scope ` set (ss_problems s)) lookups"
    if "m \<in> set (ss_apply s)" "effect_market (lm_effect m) = Some mk" for m mk
    using scoped_apply_outside [OF inv, of m mk] that by (simp add: ap problems)
  moreover have "ss_problems s = [] \<longleftrightarrow> st_problems st = []" using problems by (metis list.map_disc_iff set_empty)
  moreover have "td_entry (suppress_admitted d) \<noteq> Admitted" for d :: "'a trade_decision"
    by (simp add: suppress_admitted_def)
  moreover have "order_independent_validity L w (ss_apply s) ProofRepaired = Inr None"
    using classify_cases cl unfolding classify_complete_second_def by blast
  ultimately show ?thesis using problem ds by auto
qed

lemma sample_buys_valid: "order_independent_validity ledger_new sample_wallet sample_buys ProofRepaired = Inr None"
proof -
  have "mutation_components sample_buys = [sample_buys]" by code_simp
  then show ?thesis
    by (simp add: order_independent_validity_def sample_buys_def sample_mutation_def component_order_independent_def
        same_side_component_validity_def is_same_side_def apply_trade_def amount_checked_add_def amount_checked_sub_def
        checked_add_def checked_sub_def position_def ledger_new_def default_state_def)
qed

definition sample_decision :: "string \<Rightarrow> share_amount \<Rightarrow> bool \<Rightarrow> entry_classification \<Rightarrow> nat trade_decision" where
  "sample_decision sid n dep e = \<lparr>td_source_trade_id = sid, td_market_id = ''m'', td_outcome_id = 0, td_side = Buy,
     td_amount = n, td_price = 3, td_action = Entry, td_action_order_dependent = dep, td_entry = e\<rparr>"

lemma sample_decisions:
  "List.map_filter (decision_of ledger_new sample_wallet sample_buys 90 signal_config_default) sample_buys =
     [sample_decision ''a'' 5 True NotAnEntry, sample_decision ''b'' 9 True NotAnEntry]"
  by (simp add: sample_buys_def sample_mutation_def sample_decision_def map_filter_def decision_of_def touched_count_def
      classify_leader_action_def position_def ledger_new_def lookup_state_def default_state_def signal_config_default_def
      classify_side_def touched_keys_def)

lemma sample_entries:
  "classify_entries PolicyHomogeneousPieces sample_wallet sample_buys True (\<lambda>_. False)
      [sample_decision ''a'' 5 True NotAnEntry, sample_decision ''b'' 9 True NotAnEntry] =
   ([sample_decision ''a'' 5 False Admitted, sample_decision ''b'' 9 True NotFirstEntry], [(''m'', ''a'')])"
  by code_simp

lemma sample_classified:
  "\<exists>applied. classify_with_second_proof ProofRepaired PolicyHomogeneousPieces ledger_new sample_wallet sample_buys 90
     signal_config_default True (\<lambda>_. False) =
   Inr (OrderIndependent applied [sample_decision ''a'' 5 False Admitted, sample_decision ''b'' 9 True NotFirstEntry] [(''m'', ''a'')])"
proof -
  obtain L' applied where "simulate_all_or_none ledger_new sample_buys = Inr (L', applied)"
    by (simp add: sample_buys_def ledger_eval)
  then show ?thesis
    by (simp add: classify_with_second_proof_def sample_buys_valid sample_decisions sample_entries)
qed

theorem admitted_is_first_entry_witness:
  "prior_entry_free ledger_new sample_wallet (sample_decision ''a'' 5 False Admitted) \<and>
   (\<exists>applied. classify_with_second_proof ProofRepaired PolicyHomogeneousPieces ledger_new sample_wallet sample_buys 90
     signal_config_default True (\<lambda>_. False) =
   Inr (OrderIndependent applied [sample_decision ''a'' 5 False Admitted, sample_decision ''b'' 9 True NotFirstEntry] [(''m'', ''a'')]))"
proof -
  from sample_classified obtain applied where c:
    "classify_with_second_proof ProofRepaired PolicyHomogeneousPieces ledger_new sample_wallet sample_buys 90
     signal_config_default True (\<lambda>_. False) =
   Inr (OrderIndependent applied [sample_decision ''a'' 5 False Admitted, sample_decision ''b'' 9 True NotFirstEntry] [(''m'', ''a'')])" ..
  from admitted_is_first_entry [OF c, of 0] c show ?thesis by (auto simp: sample_decision_def)
qed

text \<open>A second with one good buy and one row whose market is not mapped.\<close>

definition sample_aggregate :: "string \<Rightarrow> string \<Rightarrow> nat activity_aggregate" where
  "sample_aggregate sid condition =
     \<lparr>agg_group_id = \<lparr>gid_key = sid, gid_components = \<lparr>gc_activity_type = ActTrade, gc_wallet = sample_wallet,
        gc_transaction_hash = ''0x1'', gc_condition_id = Some condition, gc_asset = Some ''7'', gc_outcome = Some 0,
        gc_side = Some Buy\<rparr>\<rparr>, agg_row_count = 1, agg_share_sum = 5, agg_price_weighted_share_sum = 3,
      agg_source_usdc_sum = 2, agg_source_time = 1700000000, agg_is_combo = False, agg_semantic_revision = ''r''\<rparr>"

definition sample_records :: "nat second_record list" where
  "sample_records =
     [\<lparr>sr_aggregate = sample_aggregate ''b'' ''0xbb'', sr_mutation = Inl (ErrInvalidMapping ''b'')\<rparr>,
      \<lparr>sr_aggregate = sample_aggregate ''a'' ''0xaa'', sr_mutation = Inr (sample_mutation ''a'' (Trade ''0xaa'' 0 Buy 5 3))\<rparr>]"

definition sample_lookups :: scope_lookups where
  "sample_lookups = \<lparr>sl_market = (\<lambda>_. LookupUngrouped), sl_token_market = (\<lambda>_. None), sl_is_group = (\<lambda>_. False)\<rparr>"

abbreviation sample_scoped :: "ledger_error + nat scoped_second" where
  "sample_scoped \<equiv> classify_scoped_second_with_anomalies (\<lambda>t. t) PolicyLegacy ledger_new sample_wallet 1700000000
     sample_records [] {} False 90 signal_config_default True (\<lambda>_. False) sample_lookups"

lemma sample_first_stage:
  "try_fold (scoped_record {} sample_lookups)
      \<lparr>st_problems = [], st_ignored = [], st_mutations = [], st_consumed = [], st_effective = Map.empty, st_failed = {}\<rparr>
      (sort_key (\<lambda>r. gid_key (agg_group_id (sr_aggregate r))) sample_records) =
   Inr \<lparr>st_problems = [(market_scope ''0xbb'', \<lparr>sp_scope = market_scope ''0xbb'', sp_cause = DropUnmapped, sp_trigger = ''b''\<rparr>)],
        st_ignored = [], st_mutations = [sample_mutation ''a'' (Trade ''0xaa'' 0 Buy 5 3)],
        st_consumed = [(''a'', ''0xaa'')], st_effective = [''a'' \<mapsto> sample_aggregate ''a'' ''0xaa''], st_failed = {}\<rparr>"
proof -
  have sorted: "sort_key (\<lambda>r. gid_key (agg_group_id (sr_aggregate r))) sample_records = rev sample_records"
    by code_simp
  have ids: "canonical_scope_id ''0xaa''" "normalized_condition ''0xbb'' = ''0xbb''" "canonical_scope_id ''0xbb''"
    by code_simp+
  show ?thesis
    unfolding sorted
    by (simp add: sample_records_def sample_mutation_def scoped_record_def sample_aggregate_def Let_def record_cause_def
        effect_market_def ids scoped_valid_record_def record_market_def market_is_dropped_def sample_lookups_def
        scoped_problem_record_def resolve_problem_scope_def resolve_scope_def scope_of_condition_def scope_is_dropped_def
        market_scope_def note_problem_def record_scope_problem_def)
qed

definition sample_problem_second :: "nat scoped_second" where
  "sample_problem_second =
     \<lparr>ss_problem_second = True,
      ss_problems = [\<lparr>sp_scope = market_scope ''0xbb'', sp_cause = DropUnmapped, sp_trigger = ''b''\<rparr>],
      ss_ignored = [], ss_apply = [sample_mutation ''a'' (Trade ''0xaa'' 0 Buy 5 3)],
      ss_decisions = [(sample_decision ''a'' 5 False NotAnEntry)\<lparr>td_market_id := ''0xaa''\<rparr>], ss_consumed = [''0xaa'']\<rparr>"

lemma sample_scoped_eq: "sample_scoped = Inr sample_problem_second"
proof -
  let ?m = "sample_mutation ''a'' (Trade ''0xaa'' 0 Buy 5 3)"
  have comps: "mutation_components [?m] = [[?m]]" by code_simp
  have ok: "component_order_independent ledger_new sample_wallet [?m] ProofRepaired = Inr True"
    by (simp add: sample_mutation_def component_order_independent_def same_side_component_validity_def is_same_side_def
        apply_trade_def amount_checked_add_def amount_checked_sub_def checked_add_def checked_sub_def position_def
        ledger_new_def default_state_def)
  have valid: "order_independent_validity ledger_new sample_wallet [?m] ProofRepaired = Inr None"
    by (simp add: order_independent_validity_def comps ok)
  have ds: "List.map_filter (decision_of ledger_new sample_wallet [?m] 90 signal_config_default) [?m] =
      [(sample_decision ''a'' 5 False NotAnEntry)\<lparr>td_market_id := ''0xaa''\<rparr>]"
    by (simp add: sample_mutation_def sample_decision_def map_filter_def decision_of_def touched_count_def
      classify_leader_action_def position_def ledger_new_def lookup_state_def default_state_def signal_config_default_def
      classify_side_def touched_keys_def)
  have entries: "classify_entries PolicyLegacy sample_wallet [?m] True (\<lambda>_. False)
      [(sample_decision ''a'' 5 False NotAnEntry)\<lparr>td_market_id := ''0xaa''\<rparr>] =
      ([(sample_decision ''a'' 5 False Admitted)\<lparr>td_market_id := ''0xaa''\<rparr>], [(''0xaa'', ''a'')])"
    by code_simp
  obtain L' applied where sim: "simulate_all_or_none ledger_new [?m] = Inr (L', applied)" by (simp add: ledger_eval)
  have cls: "classify_complete_second PolicyLegacy ledger_new sample_wallet [?m] 90 signal_config_default True (\<lambda>_. False) =
      Inr (OrderIndependent applied [(sample_decision ''a'' 5 False Admitted)\<lparr>td_market_id := ''0xaa''\<rparr>] [(''0xaa'', ''a'')])"
    by (simp only: classify_complete_second_def classify_with_second_proof_def valid sim ds entries rbind_simps option.case
        prod.case Let_def)
  have out: "outside_drops \<lparr>st_problems = P, st_ignored = [], st_mutations = [?m],
        st_consumed = [(''a'', ''0xaa'')], st_effective = [''a'' \<mapsto> sample_aggregate ''a'' ''0xaa''], st_failed = {}\<rparr>
      {market_scope ''0xbb''} sample_lookups ?m" for P
    by (simp add: outside_drops_def sample_mutation_def record_market_def effect_market_def market_is_dropped_def
        market_scope_def sample_lookups_def)
  show ?thesis
    by (simp add: classify_scoped_second_with_anomalies_def sample_first_stage Let_def comps scoped_component_def
        component_cause_def ok out cls
        sample_problem_second_def suppress_admitted_def sample_decision_def)
qed

theorem scoped_second_respects_drops_witness:
  "sample_scoped = Inr sample_problem_second \<and> sample_mutation ''a'' (Trade ''0xaa'' 0 Buy 5 3) \<in> set (ss_apply sample_problem_second) \<and>
   \<not> market_is_dropped ''0xaa'' (sp_scope ` set (ss_problems sample_problem_second)) sample_lookups \<and>
   td_entry (ss_decisions sample_problem_second ! 0) \<noteq> Admitted"
proof -
  have "sample_mutation ''a'' (Trade ''0xaa'' 0 Buy 5 3) \<in> set (ss_apply sample_problem_second)"
    "effect_market (lm_effect (sample_mutation ''a'' (Trade ''0xaa'' 0 Buy 5 3))) = Some ''0xaa''"
    "ss_problem_second sample_problem_second" "ss_decisions sample_problem_second ! 0 \<in> set (ss_decisions sample_problem_second)"
    by (simp_all add: sample_problem_second_def sample_mutation_def effect_market_def)
  with scoped_second_respects_drops [OF sample_scoped_eq] sample_scoped_eq show ?thesis by blast
qed

end
