(* ===== verification/Event_Frame.thy ===== *)
theory Event_Frame
  imports Core_Types Bytes
begin

section \<open>Frames, envelopes and receipts of the event log (crates/event-log/src)\<close>

text \<open>
  The wire format of \<open>frame.rs\<close>, the hash chain of \<open>envelope.rs\<close> and the fixed-width records of
  \<open>receipt.rs\<close>. The crates blake3, zstd, crc32fast and serde_json are not part of the sources: their
  functions are the fields of a \<open>codec\<close> record that every definition takes. A \<open>blake3::Hasher\<close> is
  the bytes it has been fed; a hash is its 32 bytes. A reader is the bytes of a file, a position, and
  what happens at the end of the bytes: end of file, or an I/O error. A sink takes a number of bytes
  and then fails, or never fails.
\<close>

type_synonym log_path = string
type_synonym blake3_hash = bytes

subsection \<open>Errors\<close>

datatype io_kind = UnexpectedEof | WouldBlock | NotFound | InvalidData | OtherKind

datatype io_error = IoError (io_kind: io_kind) string

datatype poison_reason = PoisonAppend | PoisonFlush | PoisonSynchronize

datatype retention_error = RetentionInvalid string | RetentionIo io_error

datatype log_error =
    LogRetention retention_error
  | LogRetired u64 u64
  | LogFeedArchive u64 string
  | LogCancelled
  | LogBadHeader log_path
  | LogLocked log_path
  | LogCrcMismatch event_seq u64
  | LogChainBroken event_seq u64 string string
  | LogSequenceMismatch u64 event_seq event_seq
  | LogRawPayloadHashMismatch event_seq u64 string string
  | LogChainComputation event_seq u64
  | LogTruncated event_seq u64
  | LogIo io_error
  | LogSerde string
  | LogEnvelopeDecode event_seq u64 string
  | LogCompress string
  | LogDecompress event_seq u64 string
  | LogPoisoned poison_reason
  | LogSequenceOverflow
  | LogFrameTooLarge u64 u32 u32
  | LogExpectedTailMismatch log_path u64 u64

datatype frame_read_error =
    FrameTruncated u64
  | FrameCrcMismatch u64
  | FrameTooLarge u64 u32
  | FrameDecompress string
  | FrameIo io_error

subsection \<open>Envelopes\<close>

datatype content_type = ContentJson | ContentMessagePack | ContentCbor | ContentRaw

record event_envelope =
  ev_seq :: event_seq
  ev_source_id :: string
  ev_schema_version :: u32
  ev_parser_version :: u32
  ev_observed_at :: source_timestamp
  ev_received_at :: source_timestamp
  ev_content_type :: content_type
  ev_raw_payload_hash :: blake3_hash
  ev_prev_hash :: blake3_hash
  ev_this_hash :: blake3_hash
  ev_payload :: bytes

record envelope_in =
  ei_source_id :: string
  ei_schema_version :: u32
  ei_parser_version :: u32
  ei_observed_at :: source_timestamp
  ei_received_at :: source_timestamp
  ei_content_type :: content_type
  ei_payload :: bytes

record hash_input =
  hi_seq :: event_seq
  hi_source_id :: string
  hi_schema_version :: u32
  hi_parser_version :: u32
  hi_observed_at :: source_timestamp
  hi_received_at :: source_timestamp
  hi_content_type :: content_type
  hi_prev_hash :: blake3_hash
  hi_payload :: bytes

record canonical_fields =
  cf_content_type :: content_type
  cf_observed_at :: source_timestamp
  cf_parser_version :: u32
  cf_prev_hash :: string
  cf_raw_payload_hash :: string
  cf_received_at :: source_timestamp
  cf_schema_version :: u32
  cf_seq :: u64
  cf_source_id :: string

text \<open>
  \<open>cd_single_frame\<close> is the streaming decoder restricted to one frame: the unread input when one
  whole frame decodes. \<open>cd_canonical\<close> is \<open>serde_json::to_value\<close> followed by \<open>to_vec\<close>.
\<close>

record codec =
  cd_blake3 :: "bytes \<Rightarrow> blake3_hash"
  cd_to_hex :: "blake3_hash \<Rightarrow> string"
  cd_crc32 :: "bytes \<Rightarrow> u32"
  cd_encode_all :: "int \<Rightarrow> bytes \<Rightarrow> string + bytes"
  cd_decode_all :: "bytes \<Rightarrow> string + bytes"
  cd_single_frame :: "bytes \<Rightarrow> bytes option"
  cd_canonical :: "canonical_fields \<Rightarrow> string + bytes"
  cd_to_vec :: "event_envelope \<Rightarrow> string + bytes"
  cd_from_slice :: "bytes \<Rightarrow> string + event_envelope"

definition genesis_hash :: blake3_hash where
  "genesis_hash = replicate 32 0"

definition compute_hashes :: "codec \<Rightarrow> hash_input \<Rightarrow> log_error + blake3_hash \<times> bytes \<times> blake3_hash" where
  "compute_hashes C i =
     (let raw_payload_hash = cd_blake3 C (hi_payload i);
          fields = \<lparr>cf_content_type = hi_content_type i, cf_observed_at = hi_observed_at i,
                    cf_parser_version = hi_parser_version i, cf_prev_hash = cd_to_hex C (hi_prev_hash i),
                    cf_raw_payload_hash = cd_to_hex C raw_payload_hash, cf_received_at = hi_received_at i,
                    cf_schema_version = hi_schema_version i, cf_seq = hi_seq i, cf_source_id = hi_source_id i\<rparr> in
      case cd_canonical C fields of
        Inl e \<Rightarrow> Inl (LogSerde e)
      | Inr canonical_bytes \<Rightarrow>
          Inr (raw_payload_hash, canonical_bytes,
               cd_blake3 C (hi_prev_hash i @ canonical_bytes @ hi_payload i)))"

datatype chain_error = PrevHashMismatch string string | ThisHashMismatch string string | ComputeError

definition envelope_hash_input :: "event_envelope \<Rightarrow> hash_input" where
  "envelope_hash_input e =
     \<lparr>hi_seq = ev_seq e, hi_source_id = ev_source_id e, hi_schema_version = ev_schema_version e,
      hi_parser_version = ev_parser_version e, hi_observed_at = ev_observed_at e, hi_received_at = ev_received_at e,
      hi_content_type = ev_content_type e, hi_prev_hash = ev_prev_hash e, hi_payload = ev_payload e\<rparr>"

definition verify_chain :: "codec \<Rightarrow> event_envelope \<Rightarrow> blake3_hash \<Rightarrow> chain_error + unit" where
  "verify_chain C e expected_prev_hash =
     (if ev_prev_hash e \<noteq> expected_prev_hash
      then Inl (PrevHashMismatch (cd_to_hex C expected_prev_hash) (cd_to_hex C (ev_prev_hash e)))
      else (case compute_hashes C (envelope_hash_input e) of
              Inr (_, _, expected_this) \<Rightarrow>
                if expected_this = ev_this_hash e then Inr ()
                else Inl (ThisHashMismatch (cd_to_hex C expected_this) (cd_to_hex C (ev_this_hash e)))
            | Inl _ \<Rightarrow> Inl ComputeError))"

subsection \<open>Readers and sinks\<close>

record reader =
  rd_data :: bytes
  rd_pos :: nat
  rd_end :: "io_error option"

definition rd_rest :: "reader \<Rightarrow> bytes" where
  "rd_rest r = drop (rd_pos r) (rd_data r)"

definition advance :: "nat \<Rightarrow> reader \<Rightarrow> reader" where
  "advance n r = r\<lparr>rd_pos := rd_pos r + n\<rparr>"

definition seek :: "u64 \<Rightarrow> reader \<Rightarrow> reader" where
  "seek off r = r\<lparr>rd_pos := unat off\<rparr>"

definition stream_position :: "reader \<Rightarrow> u64" where
  "stream_position r = word_of_nat (rd_pos r)"

definition read_one :: "reader \<Rightarrow> io_error + u8 option" where
  "read_one r =
     (case rd_rest r of
        b # _ \<Rightarrow> Inr (Some b)
      | [] \<Rightarrow> (case rd_end r of None \<Rightarrow> Inr None | Some e \<Rightarrow> Inl e))"

definition read_exact :: "reader \<Rightarrow> nat \<Rightarrow> io_error + bytes \<times> reader" where
  "read_exact r n =
     (if n \<le> length (rd_rest r) then Inr (take n (rd_rest r), advance n r)
      else Inl (case rd_end r of None \<Rightarrow> IoError UnexpectedEof ''failed to fill whole buffer'' | Some e \<Rightarrow> e))"

definition take_read_to_end :: "reader \<Rightarrow> nat \<Rightarrow> io_error + bytes \<times> reader" where
  "take_read_to_end r n =
     (if n \<le> length (rd_rest r) then Inr (take n (rd_rest r), advance n r)
      else (case rd_end r of None \<Rightarrow> Inr (rd_rest r, advance (length (rd_rest r)) r) | Some e \<Rightarrow> Inl e))"

record sink =
  sk_bytes :: bytes
  sk_fault :: "(nat \<times> io_error) option"

definition write_all :: "sink \<Rightarrow> bytes \<Rightarrow> (io_error + unit) \<times> sink" where
  "write_all w bs =
     (case sk_fault w of
        None \<Rightarrow> (Inr (), w\<lparr>sk_bytes := sk_bytes w @ bs\<rparr>)
      | Some (n, e) \<Rightarrow>
          if length bs \<le> n then (Inr (), \<lparr>sk_bytes = sk_bytes w @ bs, sk_fault = Some (n - length bs, e)\<rparr>)
          else (Inl e, \<lparr>sk_bytes = sk_bytes w @ take n bs, sk_fault = Some (0, e)\<rparr>))"

definition after_write :: "(io_error + unit) \<times> sink \<Rightarrow> (sink \<Rightarrow> (log_error + 'a) \<times> sink) \<Rightarrow> (log_error + 'a) \<times> sink" where
  "after_write r k = (case r of (Inl e, w) \<Rightarrow> (Inl (LogIo e), w) | (Inr _, w) \<Rightarrow> k w)"

subsection \<open>Frames\<close>

definition MAGIC :: bytes where
  "MAGIC = str_bytes ''EDGE''"

definition VERSION :: u8 where "VERSION = 1"

definition HEADER_LEN :: u64 where "HEADER_LEN = 5"

definition ZSTD_LEVEL :: i32 where "ZSTD_LEVEL = 3"

definition MAX_FRAME_BYTES :: u32 where "MAX_FRAME_BYTES = 64 * 1024 * 1024"

definition write_file_header :: "sink \<Rightarrow> (log_error + unit) \<times> sink" where
  "write_file_header w =
     after_write (write_all w MAGIC) (\<lambda>w1. after_write (write_all w1 [VERSION]) (\<lambda>w2. (Inr (), w2)))"

definition verify_file_header :: "log_path \<Rightarrow> reader \<Rightarrow> log_error + reader" where
  "verify_file_header path r =
     (case read_exact r 5 of
        Inl _ \<Rightarrow> Inl (LogBadHeader path)
      | Inr (buf, r') \<Rightarrow>
          if take 4 buf \<noteq> MAGIC \<or> buf ! 4 \<noteq> VERSION then Inl (LogBadHeader path) else Inr r')"

definition write_frame :: "codec \<Rightarrow> sink \<Rightarrow> bytes \<Rightarrow> (log_error + u64) \<times> sink" where
  "write_frame C w json_bytes =
     (case cd_encode_all C ZSTD_LEVEL json_bytes of
        Inl e \<Rightarrow> (Inl (LogCompress e), w)
      | Inr compressed \<Rightarrow>
          if 2 ^ 32 \<le> length compressed then (Inl (LogCompress ''compressed frame exceeds 4 GiB''), w)
          else
            let len = word_of_nat (length compressed) :: u32 in
            if MAX_FRAME_BYTES < len then (Inl (LogFrameTooLarge 0 len MAX_FRAME_BYTES), w)
            else
              let crc = cd_crc32 C compressed in
              after_write (write_all w (le_bytes 4 (unat len))) (\<lambda>w1.
              after_write (write_all w1 compressed) (\<lambda>w2.
              after_write (write_all w2 (le_bytes 4 (unat crc))) (\<lambda>w3. (Inr (ucast len + 8), w3)))))"

definition complete_zstd_frame_has_trailing_bytes :: "codec \<Rightarrow> bytes \<Rightarrow> bool" where
  "complete_zstd_frame_has_trailing_bytes C compressed =
     (case cd_single_frame C compressed of None \<Rightarrow> False | Some rest \<Rightarrow> rest \<noteq> [])"

definition read_exact_frame :: "reader \<Rightarrow> nat \<Rightarrow> u64 \<Rightarrow> frame_read_error + bytes \<times> reader" where
  "read_exact_frame r n byte_offset =
     map_err (\<lambda>e. if io_kind e = UnexpectedEof then FrameTruncated byte_offset else FrameIo e) (read_exact r n)"

text \<open>
  A frame that is read comes with its raw bytes, which the code hands to the \<open>raw\<close> callback in three
  pieces, and the reader after it.
\<close>

definition read_frame_observed ::
    "codec \<Rightarrow> reader \<Rightarrow> u64 \<Rightarrow> frame_read_error + (bytes \<times> bytes \<times> reader) option" where
  "read_frame_observed C r byte_offset =
     rbind (map_err FrameIo (read_one r)) (\<lambda>probe.
       case probe of
         None \<Rightarrow> Inr None
       | Some b \<Rightarrow>
           rbind (read_exact_frame (advance 1 r) 3 byte_offset) (\<lambda>(len_rest, r1).
             let len_bytes = b # len_rest; len_raw = word_of_nat (le_value len_bytes) :: u32 in
             if MAX_FRAME_BYTES < len_raw then Inl (FrameTooLarge byte_offset len_raw)
             else rbind (map_err FrameIo (take_read_to_end r1 (unat len_raw))) (\<lambda>(compressed, r2).
               if length compressed < unat len_raw then
                 (if complete_zstd_frame_has_trailing_bytes C compressed then Inl (FrameCrcMismatch byte_offset)
                  else Inl (FrameTruncated byte_offset))
               else
                 (case read_exact_frame r2 4 byte_offset of
                    Inl e \<Rightarrow>
                      if e = FrameTruncated byte_offset \<and> complete_zstd_frame_has_trailing_bytes C compressed
                      then Inl (FrameCrcMismatch byte_offset) else Inl e
                  | Inr (crc_buf, r3) \<Rightarrow>
                      if word_of_nat (le_value crc_buf) \<noteq> cd_crc32 C compressed then Inl (FrameCrcMismatch byte_offset)
                      else rbind (map_err FrameDecompress (cd_decode_all C compressed)) (\<lambda>json.
                        Inr (Some (json, len_bytes @ compressed @ crc_buf, r3)))))))"

subsection \<open>Receipts\<close>

record append_receipt =
  ar_sequence :: event_seq
  ar_this_hash :: blake3_hash

record receipt_record =
  rr_receipt :: append_receipt
  rr_received_millis :: i64
  rr_byte_offset :: "u64 option"

definition RECEIPT_RECORD_LEN :: u64 where "RECEIPT_RECORD_LEN = 80"

definition i64_le_bytes :: "i64 \<Rightarrow> bytes" where
  "i64_le_bytes x = le_bytes 8 (nat (x mod 2 ^ 64))"

definition i64_from_le_bytes :: "bytes \<Rightarrow> i64" where
  "i64_from_le_bytes bs = (let n = int (le_value bs) in if n < 2 ^ 63 then n else n - 2 ^ 64)"

definition receipt_encode :: "codec \<Rightarrow> receipt_record \<Rightarrow> bytes" where
  "receipt_encode C r =
     (let body = ar_this_hash (rr_receipt r) @ i64_le_bytes (rr_received_millis r) @
                 le_bytes 8 (unat (case rr_byte_offset r of None \<Rightarrow> - 1 | Some off \<Rightarrow> off)) in
      body @ cd_blake3 C body)"

definition receipt_read :: "codec \<Rightarrow> reader \<Rightarrow> event_seq \<Rightarrow> io_error + receipt_record \<times> reader" where
  "receipt_read C r sequence =
     rbind (read_exact r 80) (\<lambda>(bs, r').
       if drop 48 bs \<noteq> cd_blake3 C (take 48 bs) then Inl (IoError OtherKind ''checkpoint receipt checksum mismatch'')
       else
         let offset = word_of_nat (le_value (take 8 (drop 40 bs))) :: u64 in
         Inr (\<lparr>rr_receipt = \<lparr>ar_sequence = sequence, ar_this_hash = take 32 bs\<rparr>,
               rr_received_millis = i64_from_le_bytes (take 8 (drop 32 bs)),
               rr_byte_offset = (if offset = - 1 then None else Some offset)\<rparr>, r'))"

end
