(* ===== verification/Event_Scanner.thy ===== *)
theory Event_Scanner
  imports Event_Frame
begin

section \<open>Scanning, reading and retention of the event log (crates/event-log/src)\<close>

text \<open>
  The one frame verifier of \<open>scanner.rs\<close> with the two walks over it, the isolated reads of \<open>reader.rs\<close>
  and the retention authority of \<open>retention.rs\<close>. A file is a \<open>log_file\<close>: its path, what
  \<open>canonicalize\<close> answers, its bytes, the I/O error at their end if there is one, and what
  \<open>RetentionAuthority::load\<close> answers for it. The observer of a walk is the list of frames it was
  shown. After an error the scan state is never read again, so errors carry no state.
\<close>

subsection \<open>Scan state\<close>

record log_tail_binding =
  tb_path :: log_path
  tb_physical_tail :: u64
  tb_last_sequence :: "event_seq option"
  tb_last_hash :: blake3_hash

record incomplete_tail =
  it_byte_offset :: u64
  it_next_sequence :: event_seq

record scan_outcome =
  so_verified_tail :: log_tail_binding
  so_incomplete_tail :: "incomplete_tail option"

record scan_state =
  ss_next_sequence :: u64
  ss_previous_hash :: blake3_hash
  ss_physical_tail :: u64

definition after_header :: scan_state where
  "after_header = \<lparr>ss_next_sequence = 0, ss_previous_hash = genesis_hash, ss_physical_tail = HEADER_LEN\<rparr>"

definition at_frame :: "event_seq \<Rightarrow> blake3_hash \<Rightarrow> u64 \<Rightarrow> scan_state" where
  "at_frame sequence previous_hash byte_offset =
     \<lparr>ss_next_sequence = sequence, ss_previous_hash = previous_hash, ss_physical_tail = byte_offset\<rparr>"

definition tail_binding :: "log_path \<Rightarrow> scan_state \<Rightarrow> log_tail_binding" where
  "tail_binding path st =
     \<lparr>tb_path = path, tb_physical_tail = ss_physical_tail st,
      tb_last_sequence = checked_sub (ss_next_sequence st) 1, tb_last_hash = ss_previous_hash st\<rparr>"

datatype scan_step = StepFrame event_envelope | StepEof | StepIncomplete incomplete_tail

definition verify_envelope :: "codec \<Rightarrow> event_envelope \<Rightarrow> event_seq \<Rightarrow> blake3_hash \<Rightarrow> u64 \<Rightarrow> log_error + unit" where
  "verify_envelope C e expected_sequence previous_hash frame_start =
     (if ev_seq e \<noteq> expected_sequence then Inl (LogSequenceMismatch frame_start expected_sequence (ev_seq e))
      else
        let computed_raw_hash = cd_blake3 C (ev_payload e) in
        if computed_raw_hash \<noteq> ev_raw_payload_hash e
        then Inl (LogRawPayloadHashMismatch (ev_seq e) frame_start (cd_to_hex C computed_raw_hash)
                    (cd_to_hex C (ev_raw_payload_hash e)))
        else (case verify_chain C e previous_hash of
                Inr _ \<Rightarrow> Inr ()
              | Inl (PrevHashMismatch expected actual) \<Rightarrow> Inl (LogChainBroken (ev_seq e) frame_start expected actual)
              | Inl (ThisHashMismatch expected actual) \<Rightarrow> Inl (LogChainBroken (ev_seq e) frame_start expected actual)
              | Inl ComputeError \<Rightarrow> Inl (LogChainComputation (ev_seq e) frame_start)))"

text \<open>The step with the raw bytes of a verified frame, the state and the reader after it.\<close>

definition read_verified_frame_observed ::
    "codec \<Rightarrow> reader \<Rightarrow> scan_state \<Rightarrow> log_error + scan_step \<times> bytes \<times> scan_state \<times> reader" where
  "read_verified_frame_observed C r st =
     (let frame_start = ss_physical_tail st in
      case read_frame_observed C r frame_start of
        Inr None \<Rightarrow> Inr (StepEof, [], st, r)
      | Inl (FrameTruncated byte_offset) \<Rightarrow>
          Inr (StepIncomplete \<lparr>it_byte_offset = byte_offset, it_next_sequence = ss_next_sequence st\<rparr>, [], st, r)
      | Inl (FrameCrcMismatch byte_offset) \<Rightarrow> Inl (LogCrcMismatch (ss_next_sequence st) byte_offset)
      | Inl (FrameTooLarge byte_offset len) \<Rightarrow> Inl (LogFrameTooLarge byte_offset len MAX_FRAME_BYTES)
      | Inl (FrameDecompress message) \<Rightarrow> Inl (LogDecompress (ss_next_sequence st) frame_start message)
      | Inl (FrameIo e) \<Rightarrow> Inl (LogIo e)
      | Inr (Some (json, raw, r')) \<Rightarrow>
          rbind (map_err (LogEnvelopeDecode (ss_next_sequence st) frame_start) (cd_from_slice C json)) (\<lambda>e.
          rbind (verify_envelope C e (ss_next_sequence st) (ss_previous_hash st) frame_start) (\<lambda>_.
          rbind (ok_or LogSequenceOverflow (checked_add (ss_next_sequence st) 1)) (\<lambda>next_sequence.
            Inr (StepFrame e, raw,
                 \<lparr>ss_next_sequence = next_sequence, ss_previous_hash = ev_this_hash e,
                  ss_physical_tail = stream_position r'\<rparr>, r')))))"

subsection \<open>Retention authority\<close>

record retention_boundary =
  rb_sequence :: event_seq
  rb_offset :: u64

record retention_pin =
  rp_sequence :: event_seq
  rp_offset :: u64
  rp_hash :: blake3_hash
  rp_predecessor_hash :: blake3_hash
  rp_reducer :: bool
  rp_wallet :: "wallet_address option"

record pathless_tail =
  pl_physical_tail :: u64
  pl_last_sequence :: "event_seq option"
  pl_last_hash :: blake3_hash

record feed_entry =
  fe_epoch :: u64
  fe_frame_count :: u64
  fe_length :: u64
  fe_hash :: blake3_hash

record retention_authority =
  ra_format_version :: u32
  ra_epoch :: u64
  ra_advanced_at :: i64
  ra_boundary :: retention_boundary
  ra_chain_head :: blake3_hash
  ra_pins :: "retention_pin list"
  ra_retained_tail :: pathless_tail
  ra_feed :: "feed_entry list"

record log_file =
  lf_path :: log_path
  lf_open_error :: "io_error option"
  lf_canonical :: "io_error + log_path"
  lf_data :: bytes
  lf_fault :: "io_error option"
  lf_authority :: "retention_error + retention_authority option"

definition file_len :: "log_file \<Rightarrow> u64" where
  "file_len F = word_of_nat (length (lf_data F))"

definition file_reader :: "log_file \<Rightarrow> reader" where
  "file_reader F = \<lparr>rd_data = lf_data F, rd_pos = 0, rd_end = lf_fault F\<rparr>"

definition open_read :: "log_file \<Rightarrow> log_error + reader" where
  "open_read F = (case lf_open_error F of None \<Rightarrow> Inr (file_reader F) | Some e \<Rightarrow> Inl (LogIo e))"

definition pathless :: "log_tail_binding \<Rightarrow> pathless_tail" where
  "pathless b = \<lparr>pl_physical_tail = tb_physical_tail b, pl_last_sequence = tb_last_sequence b, pl_last_hash = tb_last_hash b\<rparr>"

definition resolve_tail :: "pathless_tail \<Rightarrow> log_file \<Rightarrow> log_error + log_tail_binding" where
  "resolve_tail t F =
     rbind (map_err LogIo (lf_canonical F)) (\<lambda>path.
       Inr \<lparr>tb_path = path, tb_physical_tail = pl_physical_tail t, tb_last_sequence = pl_last_sequence t,
            tb_last_hash = pl_last_hash t\<rparr>)"

definition RETENTION_FORMAT_VERSION :: u32 where "RETENTION_FORMAT_VERSION = 1"

fun pins_valid :: "retention_authority \<Rightarrow> (event_seq \<times> u64) option \<Rightarrow> retention_pin list \<Rightarrow> bool" where
  "pins_valid a previous [] = True"
| "pins_valid a previous (pin # pins) =
     (if rb_sequence (ra_boundary a) \<le> rp_sequence pin
         \<or> rp_offset pin < HEADER_LEN
         \<or> rb_offset (ra_boundary a) \<le> rp_offset pin
         \<or> (case previous of None \<Rightarrow> False | Some (sq, offset) \<Rightarrow> rp_sequence pin \<le> sq \<or> rp_offset pin \<le> offset)
         \<or> (rp_wallet pin \<noteq> None \<and> \<not> rp_reducer pin)
         \<or> (rp_sequence pin + 1 = rb_sequence (ra_boundary a) \<and> rp_hash pin \<noteq> ra_chain_head a)
      then False
      else pins_valid a (Some (rp_sequence pin, rp_offset pin)) pins)"

fun feed_valid :: "u64 \<Rightarrow> u64 \<Rightarrow> feed_entry list \<Rightarrow> bool" where
  "feed_valid epoch previous_epoch [] = True"
| "feed_valid epoch previous_epoch (e # es) =
     (if fe_epoch e \<le> previous_epoch \<or> epoch < fe_epoch e \<or> fe_frame_count e = 0 \<or> fe_length e = 0 then False
      else feed_valid epoch (fe_epoch e) es)"

definition validate :: "retention_authority \<Rightarrow> retention_error + unit" where
  "validate a =
     (if ra_format_version a \<noteq> RETENTION_FORMAT_VERSION \<or> ra_epoch a = 0
      then Inl (RetentionInvalid ''unsupported version or zero epoch'')
      else if rb_sequence (ra_boundary a) = 0
         \<or> rb_offset (ra_boundary a) \<le> HEADER_LEN
         \<or> pl_physical_tail (ra_retained_tail a) \<le> rb_offset (ra_boundary a)
         \<or> (case pl_last_sequence (ra_retained_tail a) of None \<Rightarrow> True | Some sq \<Rightarrow> sq < rb_sequence (ra_boundary a))
      then Inl (RetentionInvalid ''invalid boundary or retained tail'')
      else if \<not> pins_valid a None (ra_pins a) then Inl (RetentionInvalid ''invalid or unsorted pins'')
      else if \<not> feed_valid (ra_epoch a) 0 (ra_feed a) then Inl (RetentionInvalid ''invalid or unsorted feed epochs'')
      else Inr ())"

text \<open>
  \<open>load\<close> on what reading the authority file gives; \<open>missing\<close> tells whether no file, not even a
  dangling link, has its name.
\<close>

definition authority_load ::
    "(bytes \<Rightarrow> blake3_hash) \<Rightarrow> (bytes \<Rightarrow> string + retention_authority \<times> blake3_hash) \<Rightarrow> (retention_authority \<Rightarrow> string + bytes)
       \<Rightarrow> io_error + bytes \<Rightarrow> bool \<Rightarrow> retention_error + retention_authority option" where
  "authority_load blake3 from_slice to_vec contents missing =
     (case contents of
        Inl e \<Rightarrow> if io_kind e = NotFound \<and> missing then Inr None else Inl (RetentionIo e)
      | Inr bs \<Rightarrow>
          rbind (map_err RetentionInvalid (from_slice bs)) (\<lambda>(authority, checksum).
          rbind (map_err RetentionInvalid (to_vec authority)) (\<lambda>canonical.
            if blake3 canonical \<noteq> checksum then Inl (RetentionInvalid ''checksum mismatch'')
            else rbind (validate authority) (\<lambda>_. Inr (Some authority)))))"

record retention_write_error =
  rw_visible :: bool
  rw_source :: retention_error

text \<open>
  \<open>stage\<close> returns the bytes it wrote to the temporary file, \<open>file_error\<close> being the first failure of
  opening, writing or synchronizing it; after \<open>publish\<close> these bytes are the authority file.
\<close>

definition authority_stage ::
    "(bytes \<Rightarrow> blake3_hash) \<Rightarrow> (retention_authority \<Rightarrow> string + bytes) \<Rightarrow> (retention_authority \<times> blake3_hash \<Rightarrow> string + bytes)
       \<Rightarrow> io_error option \<Rightarrow> retention_authority \<Rightarrow> retention_write_error + bytes" where
  "authority_stage blake3 to_vec checked_to_vec file_error a =
     (let before = (\<lambda>e. \<lparr>rw_visible = False, rw_source = e\<rparr>) in
      rbind (map_err before (validate a)) (\<lambda>_.
      rbind (map_err (\<lambda>e. before (RetentionInvalid e)) (to_vec a)) (\<lambda>canonical.
      rbind (map_err (\<lambda>e. before (RetentionInvalid e)) (checked_to_vec (a, blake3 canonical))) (\<lambda>bs.
        case file_error of Some e \<Rightarrow> Inl (before (RetentionIo e)) | None \<Rightarrow> Inr bs))))"

definition authority_publish :: "io_error option \<Rightarrow> retention_write_error + unit" where
  "authority_publish rename_error =
     (case rename_error of Some e \<Rightarrow> Inl \<lparr>rw_visible = False, rw_source = RetentionIo e\<rparr> | None \<Rightarrow> Inr ())"

definition authority_write ::
    "(bytes \<Rightarrow> blake3_hash) \<Rightarrow> (retention_authority \<Rightarrow> string + bytes) \<Rightarrow> (retention_authority \<times> blake3_hash \<Rightarrow> string + bytes)
       \<Rightarrow> io_error option \<Rightarrow> io_error option \<Rightarrow> io_error option \<Rightarrow> retention_authority \<Rightarrow> retention_write_error + bytes" where
  "authority_write blake3 to_vec checked_to_vec file_error rename_error sync_error a =
     rbind (authority_stage blake3 to_vec checked_to_vec file_error a) (\<lambda>bs.
     rbind (authority_publish rename_error) (\<lambda>_.
       case sync_error of
         Some e \<Rightarrow> Inl \<lparr>rw_visible = True, rw_source = RetentionIo e\<rparr>
       | None \<Rightarrow> Inr bs))"

text \<open>The pins of a validated authority are strictly sorted, where a binary search finds the one match.\<close>

definition authority_pin :: "retention_authority \<Rightarrow> event_seq \<Rightarrow> retention_pin option" where
  "authority_pin a sequence = find (\<lambda>pin. rp_sequence pin = sequence) (ra_pins a)"

definition read_at :: "codec \<Rightarrow> log_file \<Rightarrow> u64 \<Rightarrow> event_seq \<Rightarrow> blake3_hash \<Rightarrow> log_error + event_envelope \<times> u64" where
  "read_at C F byte_offset expected_sequence expected_previous_hash =
     rbind (open_read F) (\<lambda>r0.
     rbind (verify_file_header (lf_path F) r0) (\<lambda>r.
     rbind (read_verified_frame_observed C (seek byte_offset r)
              (at_frame expected_sequence expected_previous_hash byte_offset)) (\<lambda>(step, _, st, _).
       case step of
         StepFrame e \<Rightarrow> Inr (e, ss_physical_tail st)
       | StepEof \<Rightarrow> Inl (LogTruncated expected_sequence byte_offset)
       | StepIncomplete i \<Rightarrow> Inl (LogTruncated (it_next_sequence i) (it_byte_offset i)))))"

definition verify_pin :: "codec \<Rightarrow> log_file \<Rightarrow> retention_authority \<Rightarrow> retention_pin \<Rightarrow> log_error + event_envelope \<times> u64" where
  "verify_pin C F a pin =
     rbind (read_at C F (rp_offset pin) (rp_sequence pin) (rp_predecessor_hash pin)) (\<lambda>(e, end_offset).
       if ev_this_hash e \<noteq> rp_hash pin \<or> rb_offset (ra_boundary a) < end_offset
       then Inl (LogRetention (RetentionInvalid ''pinned frame mismatch''))
       else Inr (e, end_offset))"

definition verify_pins :: "codec \<Rightarrow> log_file \<Rightarrow> retention_authority \<Rightarrow> log_error + unit" where
  "verify_pins C F a = try_fold (\<lambda>_ pin. rbind (verify_pin C F a pin) (\<lambda>_. Inr ())) () (ra_pins a)"

definition authenticate_binding :: "codec \<Rightarrow> log_file \<Rightarrow> retention_authority \<Rightarrow> log_tail_binding \<Rightarrow> log_error + unit" where
  "authenticate_binding C F a b =
     (if rb_offset (ra_boundary a) < tb_physical_tail b then Inr ()
      else
        rbind (ok_or (LogRetention (RetentionInvalid ''binding is not pinned''))
                 (Option.bind (tb_last_sequence b) (authority_pin a))) (\<lambda>pin.
        rbind (map_err LogIo (lf_canonical F)) (\<lambda>path.
          if path \<noteq> tb_path b \<or> tb_last_hash b \<noteq> rp_hash pin
          then Inl (LogRetention (RetentionInvalid ''pinned binding mismatch''))
          else
            rbind (verify_pin C F a pin) (\<lambda>(_, end_offset).
              if end_offset \<noteq> tb_physical_tail b
              then Inl (LogRetention (RetentionInvalid ''pinned binding end offset mismatch''))
              else Inr ()))))"

subsection \<open>Prefix tracking\<close>

datatype prefix_verdict = NotRequested | PrefixMatched | PrefixShorter | PrefixMismatch

definition require_match :: "prefix_verdict \<Rightarrow> log_error + unit" where
  "require_match v =
     (case v of
        NotRequested \<Rightarrow> Inr ()
      | PrefixMatched \<Rightarrow> Inr ()
      | PrefixShorter \<Rightarrow> Inl (LogIo (IoError InvalidData ''event log is shorter than the recorded migration boundary''))
      | PrefixMismatch \<Rightarrow> Inl (LogIo (IoError InvalidData ''event log does not match the recorded migration boundary'')))"

definition require_retained :: "prefix_verdict \<Rightarrow> log_error + unit" where
  "require_retained v =
     (if v = NotRequested \<or> v = PrefixMatched then Inr ()
      else Inl (LogRetention (RetentionInvalid ''event log does not reach its committed retained tail'')))"

record prefix_tracker =
  pt_expected :: "log_tail_binding option"
  pt_same_file :: bool
  pt_matched :: bool

definition tracker_new :: "log_tail_binding option \<Rightarrow> log_path \<Rightarrow> prefix_tracker" where
  "tracker_new expected resolved_path =
     \<lparr>pt_expected = expected,
      pt_same_file = (case expected of None \<Rightarrow> True | Some b \<Rightarrow> tb_path b = resolved_path),
      pt_matched = False\<rparr>"

definition tracker_observe :: "scan_state \<Rightarrow> prefix_tracker \<Rightarrow> prefix_tracker" where
  "tracker_observe st t =
     (case pt_expected t of
        None \<Rightarrow> t
      | Some b \<Rightarrow>
          if pt_same_file t \<and> ss_physical_tail st = tb_physical_tail b
             \<and> checked_sub (ss_next_sequence st) 1 = tb_last_sequence b \<and> ss_previous_hash st = tb_last_hash b
          then t\<lparr>pt_matched := True\<rparr> else t)"

definition tracker_verdict :: "prefix_tracker \<Rightarrow> scan_state \<Rightarrow> prefix_verdict" where
  "tracker_verdict t final_state =
     (case pt_expected t of
        None \<Rightarrow> NotRequested
      | Some b \<Rightarrow>
          if \<not> pt_same_file t then PrefixMismatch
          else if pt_matched t then PrefixMatched
          else if ss_physical_tail final_state < tb_physical_tail b then PrefixShorter
          else PrefixMismatch)"

definition verdict_before_read :: "prefix_tracker \<Rightarrow> scan_state \<Rightarrow> prefix_verdict option" where
  "verdict_before_read t st =
     (case pt_expected t of
        None \<Rightarrow> None
      | Some b \<Rightarrow> if tb_physical_tail b \<le> ss_physical_tail st then Some (tracker_verdict t st) else None)"

datatype walk_boundary = PhysicalEof | ExpectedPrefix

record walk_request =
  wq_expected_prefix :: "log_tail_binding option"
  wq_boundary :: walk_boundary

definition until_expected_prefix :: "log_tail_binding \<Rightarrow> walk_request" where
  "until_expected_prefix b = \<lparr>wq_expected_prefix = Some b, wq_boundary = ExpectedPrefix\<rparr>"

definition walk_request_from :: "log_tail_binding option \<Rightarrow> walk_request" where
  "walk_request_from b = \<lparr>wq_expected_prefix = b, wq_boundary = PhysicalEof\<rparr>"

definition require_retained_length :: "log_file \<Rightarrow> log_tail_binding option \<Rightarrow> log_error + unit" where
  "require_retained_length F retained =
     (case retained of
        Some tail \<Rightarrow>
          if file_len F < tb_physical_tail tail
          then Inl (LogRetention (RetentionInvalid ''event log is shorter than its committed retained tail''))
          else Inr ()
      | None \<Rightarrow> Inr ())"

definition fresh_state :: "retention_authority option \<Rightarrow> scan_state" where
  "fresh_state authority =
     (case authority of
        Some a \<Rightarrow> at_frame (rb_sequence (ra_boundary a)) (ra_chain_head a) (rb_offset (ra_boundary a))
      | None \<Rightarrow> after_header)"

end
