(* ===== verification/Event_Walk.thy ===== *)
theory Event_Walk
  imports Event_Scanner
begin

section \<open>The walks over the event log (crates/event-log/src/scanner.rs)\<close>

text \<open>
  Every frame that is read moves the reader forward by at least its length and checksum fields, which
  is why both walks terminate: the plain walk under a request, and the walk that keeps a digest of
  the bytes it has verified, with a byte bound and a cancellation flag.
\<close>

subsection \<open>Every frame moves the reader forward\<close>

lemma read_exact_Inr:
  assumes "read_exact r n = Inr (bs, r')"
  shows "n \<le> length (rd_rest r) \<and> bs = take n (rd_rest r) \<and> r' = advance n r"
  using assms by (simp add: read_exact_def split: if_splits)

lemma rd_rest_advance [simp]: "rd_rest (advance n r) = drop n (rd_rest r)"
  by (simp add: rd_rest_def advance_def add.commute)

lemma advance_simps [simp]:
  "rd_data (advance n r) = rd_data r" "rd_end (advance n r) = rd_end r" "rd_pos (advance n r) = rd_pos r + n"
  by (simp_all add: advance_def)

lemma advance_advance [simp]: "advance m (advance n r) = advance (n + m) r"
  by (simp add: advance_def add.assoc)

lemma advance_0 [simp]: "advance 0 r = r"
  by (simp add: advance_def)

lemma take_three: "take (a + (b + c)) xs = take a xs @ take b (drop a xs) @ take c (drop b (drop a xs))"
  by (simp add: take_add add.commute)

lemma read_frame_Some:
  assumes "read_frame_observed C r off = Inr (Some (json, raw, r'))"
  shows "r' = advance (length raw) r \<and> 8 \<le> length raw \<and> length raw \<le> length (rd_rest r) \<and>
    raw = take (length raw) (rd_rest r)"
proof -
  from assms obtain b where b: "read_one r = Inr (Some b)"
    by (auto simp: read_frame_observed_def result_simps split: option.splits)
  then obtain rest where rest: "rd_rest r = b # rest" by (auto simp: read_one_def split: list.splits option.splits)
  from assms b obtain len_rest r1 where l: "read_exact_frame (advance 1 r) 3 off = Inr (len_rest, r1)"
    by (auto simp: read_frame_observed_def result_simps)
  then have l1: "3 \<le> length rest" "len_rest = take 3 rest" "r1 = advance 4 r"
    using read_exact_Inr [of "advance 1 r" 3] by (auto simp: read_exact_frame_def result_simps rest)
  define n where "n = unat (word_of_nat (le_value (b # len_rest)) :: u32)"
  from assms b l obtain compressed r2 where c: "take_read_to_end r1 n = Inr (compressed, r2)"
    and tail: "(if length compressed < n then
                 (if complete_zstd_frame_has_trailing_bytes C compressed then Inl (FrameCrcMismatch off)
                  else Inl (FrameTruncated off))
               else
                 (case read_exact_frame r2 4 off of
                    Inl e \<Rightarrow>
                      if e = FrameTruncated off \<and> complete_zstd_frame_has_trailing_bytes C compressed
                      then Inl (FrameCrcMismatch off) else Inl e
                  | Inr (crc_buf, r3) \<Rightarrow>
                      if word_of_nat (le_value crc_buf) \<noteq> cd_crc32 C compressed then Inl (FrameCrcMismatch off)
                      else rbind (map_err FrameDecompress (cd_decode_all C compressed)) (\<lambda>json.
                        Inr (Some (json, (b # len_rest) @ compressed @ crc_buf, r3))))) = Inr (Some (json, raw, r'))"
    by (auto simp: read_frame_observed_def result_simps n_def Let_def split: if_splits)
  from tail have full: "\<not> length compressed < n" by (auto split: if_splits)
  with c have c1: "n \<le> length (drop 3 rest)" "compressed = take n (drop 3 rest)" "r2 = advance (4 + n) r"
    by (auto simp: take_read_to_end_def l1(3) rest split: if_splits option.splits)
  from tail full obtain crc_buf r3 where crc: "read_exact_frame r2 4 off = Inr (crc_buf, r3)"
    by (auto split: sum.splits if_splits)
  then have crc1: "4 \<le> length (drop n (drop 3 rest))" "crc_buf = take 4 (drop n (drop 3 rest))" "r3 = advance (8 + n) r"
    using read_exact_Inr [of r2 4] by (auto simp: read_exact_frame_def result_simps c1(3) rest drop_Cons' add.commute)
  from tail full crc have r: "raw = (b # len_rest) @ compressed @ crc_buf" "r' = r3"
    by (auto simp: result_simps split: if_splits)
  have len: "length raw = 8 + n" using r(1) l1 c1 crc1 by simp
  have "raw = take (8 + n) (rd_rest r)"
    using take_three [of 3 n 4 rest] by (simp add: r(1) l1(2) c1(2) crc1(2) rest add.commute take_Cons')
  then show ?thesis using len r(2) crc1 l1 c1 by (simp add: rest)
qed

lemma read_verified_frame_StepFrame:
  assumes "read_verified_frame_observed C r st = Inr (StepFrame e, raw, st', r')"
  shows "\<exists>json. read_frame_observed C r (ss_physical_tail st) = Inr (Some (json, raw, r')) \<and> cd_from_slice C json = Inr e \<and>
    verify_envelope C e (ss_next_sequence st) (ss_previous_hash st) (ss_physical_tail st) = Inr () \<and>
    checked_add (ss_next_sequence st) 1 = Some (ss_next_sequence st') \<and>
    st' = \<lparr>ss_next_sequence = ss_next_sequence st', ss_previous_hash = ev_this_hash e,
           ss_physical_tail = stream_position r'\<rparr>"
  using assms
  by (auto simp: read_verified_frame_observed_def Let_def result_simps split: sum.splits option.splits frame_read_error.splits)

lemma frame_moves_forward:
  assumes "read_verified_frame_observed C r st = Inr (StepFrame e, raw, st', r')"
  shows "length (rd_data r') - rd_pos r' < length (rd_data r) - rd_pos r"
  using read_verified_frame_StepFrame [OF assms] read_frame_Some [of C r "ss_physical_tail st" _ raw r']
  by (auto simp: rd_rest_def)

subsection \<open>The walk under a request\<close>

definition finish_walk ::
    "bool \<Rightarrow> prefix_tracker \<Rightarrow> log_path \<Rightarrow> scan_state \<Rightarrow> incomplete_tail option \<Rightarrow> prefix_verdict
       \<Rightarrow> log_error + scan_outcome \<times> prefix_verdict" where
  "finish_walk retained_required retention path st incomplete v =
     rbind (if retained_required then require_retained (tracker_verdict retention st) else Inr ()) (\<lambda>_.
       Inr (\<lparr>so_verified_tail = tail_binding path st, so_incomplete_tail = incomplete\<rparr>, v))"

function walk_loop ::
    "codec \<Rightarrow> walk_boundary \<Rightarrow> log_path \<Rightarrow> bool \<Rightarrow> prefix_tracker \<Rightarrow> prefix_tracker \<Rightarrow> scan_state \<Rightarrow> reader
       \<Rightarrow> (log_error + scan_outcome \<times> prefix_verdict) \<times> (u64 \<times> event_envelope) list" where
  "walk_loop C boundary path retained_required prefix retention st r =
     (case if boundary = ExpectedPrefix then verdict_before_read prefix st else None of
        Some v \<Rightarrow> (finish_walk retained_required retention path st None v, [])
      | None \<Rightarrow>
          (case read_verified_frame_observed C r st of
             Inl e \<Rightarrow> (Inl e, [])
           | Inr (step, raw, st', r') \<Rightarrow>
               (case step of
                  StepFrame e \<Rightarrow>
                    (let (res, seen) = walk_loop C boundary path retained_required (tracker_observe st' prefix)
                                         (tracker_observe st' retention) st' r' in
                     (res, (ss_physical_tail st, e) # seen))
                | StepEof \<Rightarrow>
                    (finish_walk retained_required retention path st None (tracker_verdict prefix st), [])
                | StepIncomplete i \<Rightarrow>
                    (finish_walk retained_required retention path st (Some i) (tracker_verdict prefix st), []))))"
  by pat_completeness auto
termination
  by (relation "measure (\<lambda>(C, b, p, rr, pre, ret, st, r). length (rd_data r) - rd_pos r)") (auto dest: frame_moves_forward)

declare walk_loop.simps [simp del]

definition walk_locked ::
    "codec \<Rightarrow> log_file \<Rightarrow> walk_request \<Rightarrow> (log_error + scan_outcome \<times> prefix_verdict) \<times> (u64 \<times> event_envelope) list" where
  "walk_locked C F request =
     (let expected = wq_expected_prefix request;
          prepared =
            rbind (map_err LogIo (lf_canonical F)) (\<lambda>resolved_path.
            rbind (verify_file_header (lf_path F) (file_reader F)) (\<lambda>r0.
            rbind (map_err LogRetention (lf_authority F)) (\<lambda>authority.
              let st = fresh_state authority; r = seek (ss_physical_tail st) r0;
                  tracker = tracker_new expected resolved_path in
            rbind (case (authority, expected) of
                     (Some a, Some b) \<Rightarrow>
                       rbind (authenticate_binding C F a b) (\<lambda>_.
                         Inr (tracker\<lparr>pt_matched := (tb_physical_tail b \<le> rb_offset (ra_boundary a))\<rparr>))
                   | _ \<Rightarrow> Inr tracker) (\<lambda>tracker.
            rbind (case authority of
                     None \<Rightarrow> Inr None
                   | Some a \<Rightarrow> rbind (resolve_tail (ra_retained_tail a) F) (\<lambda>b. Inr (Some b))) (\<lambda>retained.
            rbind (require_retained_length F retained) (\<lambda>_.
              let retained_required =
                    (wq_boundary request = PhysicalEof \<or>
                     (case retained of
                        None \<Rightarrow> False
                      | Some tail \<Rightarrow>
                          (case expected of None \<Rightarrow> False | Some b \<Rightarrow> tb_physical_tail tail \<le> tb_physical_tail b))) in
              Inr (resolved_path, retained_required, tracker_observe st tracker,
                   tracker_observe st (tracker_new retained resolved_path), st, r))))))) in
      case prepared of
        Inl e \<Rightarrow> (Inl e, [])
      | Inr (path, retained_required, prefix, retention, st, r) \<Rightarrow>
          walk_loop C (wq_boundary request) path retained_required prefix retention st r)"

definition inspect_open :: "codec \<Rightarrow> log_file \<Rightarrow> log_error + scan_outcome" where
  "inspect_open C F = rbind (fst (walk_locked C F (walk_request_from None))) (\<lambda>(outcome, _). Inr outcome)"

definition inspect :: "codec \<Rightarrow> log_file \<Rightarrow> log_error + scan_outcome" where
  "inspect C F = rbind (open_read F) (\<lambda>_. inspect_open C F)"

definition scanner_verify :: "codec \<Rightarrow> log_file \<Rightarrow> log_error + log_tail_binding" where
  "scanner_verify C F =
     rbind (inspect C F) (\<lambda>outcome.
       case so_incomplete_tail outcome of
         None \<Rightarrow> Inr (so_verified_tail outcome)
       | Some i \<Rightarrow> Inl (LogTruncated (it_next_sequence i) (it_byte_offset i)))"

text \<open>\<open>F\<close> is the file at the path the binding names.\<close>

definition verify_prefix :: "codec \<Rightarrow> log_file \<Rightarrow> log_tail_binding \<Rightarrow> log_error + log_tail_binding" where
  "verify_prefix C F binding =
     rbind (open_read F) (\<lambda>_.
     rbind (fst (walk_locked C F (walk_request_from (Some binding)))) (\<lambda>(outcome, v).
       case so_incomplete_tail outcome of
         Some i \<Rightarrow> Inl (LogTruncated (it_next_sequence i) (it_byte_offset i))
       | None \<Rightarrow> rbind (require_match v) (\<lambda>_. Inr (so_verified_tail outcome))))"

definition walk_prefix ::
    "codec \<Rightarrow> log_file \<Rightarrow> log_tail_binding \<Rightarrow> (log_error + log_tail_binding option) \<times> (u64 \<times> event_envelope) list" where
  "walk_prefix C F sealed =
     (case rbind (map_err LogRetention (lf_authority F)) (\<lambda>authority.
             case authority of
               Some a \<Rightarrow> if tb_physical_tail sealed \<le> rb_offset (ra_boundary a)
                         then Inl (LogRetired (tb_physical_tail sealed) (rb_offset (ra_boundary a))) else open_read F
             | None \<Rightarrow> open_read F) of
        Inl e \<Rightarrow> (Inl e, [])
      | Inr _ \<Rightarrow>
          (let (res, seen) = walk_locked C F (until_expected_prefix sealed) in
           (rbind res (\<lambda>(outcome, v).
              case so_incomplete_tail outcome of
                Some i \<Rightarrow> Inl (LogTruncated (it_next_sequence i) (it_byte_offset i))
              | None \<Rightarrow> Inr (if v = PrefixMatched then Some (so_verified_tail outcome) else None)), seen)))"

subsection \<open>The walk with a running digest\<close>

text \<open>
  \<open>BoundedReader\<close> shows the bytes below its bound. A cancellation flag is a function: its value at
  each check, counted from 0.
\<close>

definition bounded_reader :: "u64 option \<Rightarrow> reader \<Rightarrow> reader" where
  "bounded_reader bound r =
     (case bound of
        None \<Rightarrow> r
      | Some b \<Rightarrow> if unat b \<le> length (rd_data r) then r\<lparr>rd_data := take (unat b) (rd_data r), rd_end := None\<rparr> else r)"

definition check_cancelled :: "(nat \<Rightarrow> bool) \<Rightarrow> nat \<Rightarrow> log_error + unit" where
  "check_cancelled cancel k = (if cancel k then Inl LogCancelled else Inr ())"

function hash_chunks :: "(nat \<Rightarrow> bool) \<Rightarrow> nat \<Rightarrow> reader \<Rightarrow> nat \<Rightarrow> bytes \<Rightarrow> log_error + bytes" where
  "hash_chunks cancel k r remaining hasher =
     (if remaining = 0 then rbind (check_cancelled cancel k) (\<lambda>_. Inr hasher)
      else if cancel k then Inl LogCancelled
      else
        let count = min (min remaining (64 * 1024)) (length (rd_rest r)) in
        if count = 0
        then Inl (LogIo (case rd_end r of None \<Rightarrow> IoError UnexpectedEof ''checkpoint prefix shortened'' | Some e \<Rightarrow> e))
        else hash_chunks cancel (Suc k) (advance count r) (remaining - count) (hasher @ take count (rd_rest r)))"
  by pat_completeness auto
termination
  by (relation "measure (\<lambda>(cancel, k, r, remaining, hasher). remaining)") (auto simp: Let_def)

declare hash_chunks.simps [simp del]

definition hash_reader_prefix :: "(nat \<Rightarrow> bool) \<Rightarrow> reader \<Rightarrow> u64 \<Rightarrow> log_error + bytes" where
  "hash_reader_prefix cancel r physical_tail =
     rbind (check_cancelled cancel 0) (\<lambda>_. hash_chunks cancel 1 r (unat physical_tail) [])"

definition hash_open_prefix :: "(nat \<Rightarrow> bool) \<Rightarrow> log_file \<Rightarrow> u64 \<Rightarrow> log_error + bytes" where
  "hash_open_prefix cancel F physical_tail =
     rbind (map_err LogRetention (lf_authority F)) (\<lambda>authority.
       let offset = (case authority of None \<Rightarrow> 0 | Some a \<Rightarrow> rb_offset (ra_boundary a)) in
     rbind (ok_or (LogRetired physical_tail offset) (checked_sub physical_tail offset)) (\<lambda>len.
       hash_reader_prefix cancel (seek offset (file_reader F)) len))"

function hashed_loop ::
    "codec \<Rightarrow> (nat \<Rightarrow> bool) \<Rightarrow> nat \<Rightarrow> log_path \<Rightarrow> bool \<Rightarrow> prefix_tracker \<Rightarrow> prefix_tracker \<Rightarrow> scan_state \<Rightarrow> reader \<Rightarrow> bytes
       \<Rightarrow> (log_error + scan_outcome \<times> prefix_verdict) \<times> (u64 \<times> event_envelope) list \<times> bytes" where
  "hashed_loop C cancel k path retained_required prefix retention st r digest =
     (if cancel k then (Inl LogCancelled, [], digest)
      else
        (case read_verified_frame_observed C r st of
           Inl e \<Rightarrow> (Inl e, [], digest)
         | Inr (step, raw, st', r') \<Rightarrow>
             (case step of
                StepFrame e \<Rightarrow>
                  (let (res, seen, digest') =
                         hashed_loop C cancel (Suc k) path retained_required (tracker_observe st' prefix)
                           (tracker_observe st' retention) st' r' (digest @ raw) in
                   (res, (ss_physical_tail st, e) # seen, digest'))
              | StepEof \<Rightarrow>
                  (finish_walk retained_required retention path st None (tracker_verdict prefix st), [], digest)
              | StepIncomplete i \<Rightarrow>
                  (finish_walk retained_required retention path st (Some i) (tracker_verdict prefix st), [], digest))))"
  by pat_completeness auto
termination
  by (relation "measure (\<lambda>(C, c, k, p, rr, pre, ret, st, r, d). length (rd_data r) - rd_pos r)")
    (auto dest: frame_moves_forward)

declare hashed_loop.simps [simp del]

definition resume_state :: "u64 option \<Rightarrow> log_path \<Rightarrow> log_tail_binding \<Rightarrow> log_error + scan_state" where
  "resume_state bound resolved_path resume =
     (if (case bound of None \<Rightarrow> False | Some b \<Rightarrow> b < tb_physical_tail resume)
      then Inl (LogIo (IoError OtherKind ''checkpoint exceeds captured source bound''))
      else if tb_path resume \<noteq> resolved_path then Inl (LogIo (IoError OtherKind ''checkpoint path mismatch''))
      else
        rbind (case tb_last_sequence resume of
                 None \<Rightarrow> Inr 0
               | Some sq \<Rightarrow> ok_or LogSequenceOverflow (checked_add sq 1)) (\<lambda>next_sequence.
          Inr (at_frame next_sequence (tb_last_hash resume) (tb_physical_tail resume))))"

definition walk_hashed ::
    "codec \<Rightarrow> log_file \<Rightarrow> log_tail_binding option \<Rightarrow> log_tail_binding option \<Rightarrow> u64 option \<Rightarrow> bytes \<Rightarrow> (nat \<Rightarrow> bool)
       \<Rightarrow> (log_error + scan_outcome \<times> prefix_verdict) \<times> (u64 \<times> event_envelope) list \<times> bytes" where
  "walk_hashed C F expected resume bound digest cancel =
     (let rd = bounded_reader bound (file_reader F);
          started =
            rbind (check_cancelled cancel 0) (\<lambda>_.
            rbind (map_err LogIo (lf_canonical F)) (\<lambda>resolved_path.
            rbind (map_err LogRetention (lf_authority F)) (\<lambda>authority.
            rbind (case authority of
                     None \<Rightarrow> Inr ()
                   | Some a \<Rightarrow>
                       rbind (case expected of None \<Rightarrow> Inr () | Some b \<Rightarrow> authenticate_binding C F a b) (\<lambda>_.
                         case resume of
                           None \<Rightarrow> Inr ()
                         | Some b \<Rightarrow>
                             rbind (authenticate_binding C F a b) (\<lambda>_.
                               if tb_physical_tail b < rb_offset (ra_boundary a)
                               then Inl (LogRetired (tb_physical_tail b) (rb_offset (ra_boundary a))) else Inr ()))) (\<lambda>_.
              case resume of
                Some b \<Rightarrow>
                  rbind (resume_state bound resolved_path b) (\<lambda>st.
                    Inr (resolved_path, authority, st, seek (tb_physical_tail b) rd, digest))
              | None \<Rightarrow>
                  rbind (verify_file_header (lf_path F) rd) (\<lambda>r0.
                    let st = fresh_state authority in
                    Inr (resolved_path, authority, st, seek (ss_physical_tail st) r0,
                         if authority = None then MAGIC @ [VERSION] else [])))))) in
      case started of
        Inl e \<Rightarrow> (Inl e, [], digest)
      | Inr (path, authority, st, r, digest0) \<Rightarrow>
          (let tracker = tracker_new expected path;
               prefix = (if resume \<noteq> None \<or>
                            (case authority of
                               None \<Rightarrow> False
                             | Some a \<Rightarrow>
                                 (case expected of
                                    None \<Rightarrow> False | Some b \<Rightarrow> tb_physical_tail b \<le> rb_offset (ra_boundary a)))
                         then tracker\<lparr>pt_matched := True\<rparr> else tracker) in
           case rbind (case authority of
                         None \<Rightarrow> Inr None
                       | Some a \<Rightarrow> rbind (resolve_tail (ra_retained_tail a) F) (\<lambda>b. Inr (Some b))) (\<lambda>retained.
                  rbind (require_retained_length F retained) (\<lambda>_. Inr retained)) of
             Inl e \<Rightarrow> (Inl e, [], digest0)
           | Inr retained \<Rightarrow>
               (let tracker = tracker_new retained path;
                    retention = (if (case (resume, retained) of
                                       (Some b, Some tail) \<Rightarrow> tb_physical_tail tail < tb_physical_tail b
                                     | _ \<Rightarrow> False)
                                 then tracker\<lparr>pt_matched := True\<rparr> else tracker);
                    retained_required =
                      (case retained of
                         None \<Rightarrow> False
                       | Some tail \<Rightarrow> (case bound of None \<Rightarrow> True | Some b \<Rightarrow> tb_physical_tail tail \<le> b)) in
                hashed_loop C cancel 1 path retained_required (tracker_observe st prefix)
                  (tracker_observe st retention) st r digest0)))"

definition walk_bounded_cancellable ::
    "codec \<Rightarrow> log_file \<Rightarrow> u64 \<Rightarrow> log_tail_binding \<Rightarrow> log_tail_binding option \<Rightarrow> bytes \<Rightarrow> (nat \<Rightarrow> bool)
       \<Rightarrow> (log_error + log_tail_binding) \<times> (u64 \<times> event_envelope) list \<times> bytes" where
  "walk_bounded_cancellable C F byte_bound expected resume digest cancel =
     (case rbind (check_cancelled cancel 0) (\<lambda>_.
           rbind (open_read F) (\<lambda>r.
             if resume \<noteq> None then verify_file_header (lf_path F) r else Inr r)) of
        Inl e \<Rightarrow> (Inl e, [], digest)
      | Inr _ \<Rightarrow>
          (let (res, seen, digest') =
                 walk_hashed C F (Some expected) resume (Some byte_bound) digest (\<lambda>k. cancel (Suc k)) in
           (rbind res (\<lambda>(outcome, v). rbind (require_match v) (\<lambda>_. Inr (so_verified_tail outcome))), seen, digest')))"

definition walk_bounded ::
    "codec \<Rightarrow> log_file \<Rightarrow> u64 \<Rightarrow> log_tail_binding \<Rightarrow> log_tail_binding option \<Rightarrow> bytes
       \<Rightarrow> (log_error + log_tail_binding) \<times> (u64 \<times> event_envelope) list \<times> bytes" where
  "walk_bounded C F byte_bound expected resume digest =
     walk_bounded_cancellable C F byte_bound expected resume digest (\<lambda>_. False)"

definition hash_prefix :: "(nat \<Rightarrow> bool) \<Rightarrow> log_file \<Rightarrow> u64 \<Rightarrow> log_error + bytes" where
  "hash_prefix cancel F physical_tail =
     rbind (check_cancelled cancel 0) (\<lambda>_.
     rbind (open_read F) (\<lambda>_. hash_open_prefix (\<lambda>k. cancel (Suc k)) F physical_tail))"

end
