(* ===== verification/Event_Writer.thy ===== *)
theory Event_Writer
  imports Event_Walk
begin

section \<open>Writing and replaying the event log (crates/event-log/src/writer.rs and reader.rs)\<close>

text \<open>
  The writer over its buffered file: \<open>sk_bytes\<close> are the bytes it has handed to the buffer, on disk or
  not. What the operating system answers to each call (lock, truncate, flush, synchronize, length) is
  an argument. An operation returns its result and the writer after it; opening also returns the
  bytes of the file after it. The failure injection of the scenario feature is not part of the model.
\<close>

record os_calls =
  os_open :: "io_error option"
  os_lock :: "io_error option"
  os_flush :: "io_error option"
  os_sync :: "io_error option"
  os_set_len :: "io_error option"
  os_seek :: "io_error option"
  os_sink :: "(nat \<times> io_error) option"

definition os_call :: "io_error option \<Rightarrow> log_error + unit" where
  "os_call o' = (case o' of None \<Rightarrow> Inr () | Some e \<Rightarrow> Inl (LogIo e))"

record log_writer =
  wr_path :: log_path
  wr_inner :: sink
  wr_next_seq :: u64
  wr_last_hash :: blake3_hash
  wr_cursor :: u64
  wr_poison_reason :: "poison_reason option"

subsection \<open>Opening\<close>

definition from_file :: "log_path \<Rightarrow> sink \<Rightarrow> u64 \<Rightarrow> blake3_hash \<Rightarrow> u64 \<Rightarrow> log_writer" where
  "from_file path file next_seq last_hash cursor =
     \<lparr>wr_path = path, wr_inner = file, wr_next_seq = next_seq, wr_last_hash = last_hash, wr_cursor = cursor,
      wr_poison_reason = None\<rparr>"

definition lock_exclusive :: "os_calls \<Rightarrow> log_path \<Rightarrow> log_error + unit" where
  "lock_exclusive os path =
     rbind (os_call (os_open os)) (\<lambda>_.
       case os_lock os of
         None \<Rightarrow> Inr ()
       | Some e \<Rightarrow> Inl (if io_kind e = WouldBlock then LogLocked path else LogIo e))"

definition create_log :: "os_calls \<Rightarrow> log_file \<Rightarrow> (log_error + log_writer) \<times> bytes" where
  "create_log os F =
     (let (written, file) = write_file_header \<lparr>sk_bytes = lf_data F, sk_fault = os_sink os\<rparr> in
      (rbind written (\<lambda>_. rbind (os_call (os_flush os)) (\<lambda>_. rbind (os_call (os_sync os)) (\<lambda>_.
         Inr (from_file (lf_path F) file 0 genesis_hash HEADER_LEN)))), sk_bytes file))"

text \<open>Truncation to the verified tail when the final frame is incomplete, then the synchronized writer.\<close>

definition repair_and_attach :: "os_calls \<Rightarrow> log_file \<Rightarrow> scan_outcome \<Rightarrow> (log_error + log_writer) \<times> bytes" where
  "repair_and_attach os F scan =
     (let tail = so_verified_tail scan; repaired = (so_incomplete_tail scan \<noteq> None) in
      case (if repaired then os_set_len os else None) of
        Some e \<Rightarrow> (Inl (LogIo e), lf_data F)
      | None \<Rightarrow>
          (let data = (if repaired then take (unat (tb_physical_tail tail)) (lf_data F) else lf_data F) in
           (rbind (os_call (os_sync os)) (\<lambda>_.
            rbind (os_call (os_seek os)) (\<lambda>_.
            rbind (case tb_last_sequence tail of
                     None \<Rightarrow> Inr 0
                   | Some sq \<Rightarrow> ok_or LogSequenceOverflow (checked_add sq 1)) (\<lambda>next_seq.
              Inr (from_file (lf_path F) \<lparr>sk_bytes = data, sk_fault = os_sink os\<rparr> next_seq (tb_last_hash tail)
                     (tb_physical_tail tail))))), data)))"

definition writer_open :: "codec \<Rightarrow> os_calls \<Rightarrow> log_file \<Rightarrow> (log_error + log_writer) \<times> bytes" where
  "writer_open C os F =
     (case lock_exclusive os (lf_path F) of
        Inl e \<Rightarrow> (Inl e, lf_data F)
      | Inr _ \<Rightarrow>
          if file_len F = 0 then
            (case lf_authority F of
               Inl e \<Rightarrow> (Inl (LogRetention e), lf_data F)
             | Inr (Some _) \<Rightarrow> (Inl (LogBadHeader (lf_path F)), lf_data F)
             | Inr None \<Rightarrow> create_log os F)
          else
            (case inspect_open C F of
               Inl e \<Rightarrow> (Inl e, lf_data F)
             | Inr scan \<Rightarrow> repair_and_attach os F scan))"

definition finish_verified_open ::
    "os_calls \<Rightarrow> log_file \<Rightarrow> scan_outcome \<Rightarrow> prefix_verdict \<Rightarrow> bool \<Rightarrow> (log_error + log_writer \<times> log_tail_binding) \<times> bytes" where
  "finish_verified_open os F scan v has_expected_prefix =
     (case rbind (case so_incomplete_tail scan of
                    Some i \<Rightarrow>
                      if has_expected_prefix \<and> v \<noteq> PrefixMatched
                      then Inl (LogTruncated (it_next_sequence i) (it_byte_offset i)) else Inr ()
                  | None \<Rightarrow> Inr ()) (\<lambda>_. require_match v) of
        Inl e \<Rightarrow> (Inl e, lf_data F)
      | Inr _ \<Rightarrow>
          (let (res, data) = repair_and_attach os F scan in
           (rbind res (\<lambda>w. Inr (w, so_verified_tail scan)), data)))"

definition open_verified ::
    "codec \<Rightarrow> os_calls \<Rightarrow> log_file \<Rightarrow> log_tail_binding option
       \<Rightarrow> (log_error + log_writer \<times> log_tail_binding) \<times> (u64 \<times> event_envelope) list \<times> bytes" where
  "open_verified C os F expected_prefix =
     (case lock_exclusive os (lf_path F) of
        Inl e \<Rightarrow> (Inl e, [], lf_data F)
      | Inr _ \<Rightarrow>
          if file_len F = 0 then
            (case (if expected_prefix \<noteq> None then Inl (LogBadHeader (lf_path F))
                   else rbind (map_err LogRetention (lf_authority F)) (\<lambda>a.
                          if a \<noteq> None then Inl (LogBadHeader (lf_path F)) else Inr ())) of
               Inl e \<Rightarrow> (Inl e, [], lf_data F)
             | Inr _ \<Rightarrow>
                 (let (res, data) = create_log os F in
                  (rbind res (\<lambda>w. rbind (map_err LogIo (lf_canonical F)) (\<lambda>path.
                     Inr (w, \<lparr>tb_path = path, tb_physical_tail = HEADER_LEN, tb_last_sequence = None,
                              tb_last_hash = genesis_hash\<rparr>))), [], data)))
          else
            (let (res, seen) = walk_locked C F (walk_request_from expected_prefix) in
             case res of
               Inl e \<Rightarrow> (Inl e, seen, lf_data F)
             | Inr (scan, v) \<Rightarrow>
                 (let (opened, data) = finish_verified_open os F scan v (expected_prefix \<noteq> None) in
                  (opened, seen, data))))"

datatype checkpoint_prefix = CheckpointVerify | CheckpointDefer

text \<open>The checkpoint a locked open resumes from, and the digest the raw-prefix check leaves.\<close>

definition checkpoint_resume ::
    "codec \<Rightarrow> log_file \<Rightarrow> retention_authority option \<Rightarrow> log_tail_binding \<Rightarrow> (log_tail_binding \<times> string) option
       \<Rightarrow> checkpoint_prefix \<Rightarrow> bytes \<Rightarrow> log_tail_binding option \<times> bytes" where
  "checkpoint_resume C F authority expected checkpoint mode digest =
     (case checkpoint of
        None \<Rightarrow> (None, digest)
      | Some (tail, expected_hash) \<Rightarrow>
          (case lf_canonical F of
             Inl _ \<Rightarrow> (None, digest)
           | Inr path \<Rightarrow>
               if tb_path tail \<noteq> path \<or> tb_physical_tail tail < tb_physical_tail expected
                  \<or> (case authority of None \<Rightarrow> False | Some a \<Rightarrow> tb_physical_tail tail < rb_offset (ra_boundary a))
               then (None, digest)
               else if mode = CheckpointDefer
               then (if tb_physical_tail tail \<le> file_len F then Some tail else None, digest)
               else (case hash_open_prefix (\<lambda>_. False) F (tb_physical_tail tail) of
                       Inl _ \<Rightarrow> (None, digest)
                     | Inr hasher \<Rightarrow>
                         if cd_to_hex C (cd_blake3 C hasher) \<noteq> expected_hash then (None, digest)
                         else (Some tail, hasher))))"

record checkpoint_verification =
  cv_used :: bool
  cv_deferred :: bool

definition open_verified_checkpoint ::
    "codec \<Rightarrow> os_calls \<Rightarrow> log_file \<Rightarrow> log_tail_binding \<Rightarrow> (log_tail_binding \<times> string) option \<Rightarrow> checkpoint_prefix \<Rightarrow> bytes
       \<Rightarrow> (log_error + log_writer \<times> log_tail_binding \<times> checkpoint_verification) \<times> (u64 \<times> event_envelope) list \<times> bytes \<times> bytes"
  where
  "open_verified_checkpoint C os F expected checkpoint mode digest =
     (case rbind (lock_exclusive os (lf_path F)) (\<lambda>_.
           rbind (map_err LogRetention (lf_authority F)) (\<lambda>authority.
           rbind (case authority of None \<Rightarrow> Inr () | Some a \<Rightarrow> authenticate_binding C F a expected) (\<lambda>_. Inr authority))) of
        Inl e \<Rightarrow> (Inl e, [], digest, lf_data F)
      | Inr authority \<Rightarrow>
          (let (resume, digest1) = checkpoint_resume C F authority expected checkpoint mode digest;
               used = (resume \<noteq> None);
               deferred = (used \<and> mode = CheckpointDefer) in
           case (if used \<and> \<not> deferred then rbind (verify_file_header (lf_path F) (file_reader F)) (\<lambda>_. Inr ()) else Inr ()) of
             Inl e \<Rightarrow> (Inl e, [], digest1, lf_data F)
           | Inr _ \<Rightarrow>
               (let (res, seen, digest2) = walk_hashed C F (Some expected) resume None digest1 (\<lambda>_. False) in
                case res of
                  Inl e \<Rightarrow> (Inl e, seen, digest2, lf_data F)
                | Inr (scan, v) \<Rightarrow>
                    (let (opened, data) = finish_verified_open os F scan v True in
                     (rbind opened (\<lambda>(w, b). Inr (w, b, \<lparr>cv_used = used, cv_deferred = deferred\<rparr>)),
                      seen, digest2, data)))))"

definition open_with_expected_tail :: "codec \<Rightarrow> os_calls \<Rightarrow> log_file \<Rightarrow> log_tail_binding \<Rightarrow> (log_error + log_writer) \<times> bytes" where
  "open_with_expected_tail C os F expected =
     (case rbind (map_err LogRetention (lf_authority F)) (\<lambda>authority.
           rbind (case authority of None \<Rightarrow> Inr () | Some a \<Rightarrow> authenticate_binding C F a expected) (\<lambda>_.
           rbind (inspect C F) (\<lambda>scan.
             let tail = so_verified_tail scan in
             if tb_path tail \<noteq> tb_path expected
             then Inl (LogIo (IoError InvalidData ''expected tail binding names a different event log''))
             else if tb_physical_tail tail \<noteq> tb_physical_tail expected \<or> tb_last_sequence tail \<noteq> tb_last_sequence expected
                     \<or> tb_last_hash tail \<noteq> tb_last_hash expected
             then Inl (LogExpectedTailMismatch (lf_path F) (tb_physical_tail expected) (tb_physical_tail tail))
             else Inr ()))) of
        Inl e \<Rightarrow> (Inl e, lf_data F)
      | Inr _ \<Rightarrow> writer_open C os F)"

subsection \<open>Appending\<close>

definition ensure_healthy :: "log_writer \<Rightarrow> log_error + unit" where
  "ensure_healthy w = (case wr_poison_reason w of Some reason \<Rightarrow> Inl (LogPoisoned reason) | None \<Rightarrow> Inr ())"

definition poison :: "poison_reason \<Rightarrow> log_writer \<Rightarrow> log_writer" where
  "poison reason w = w\<lparr>wr_poison_reason := Some reason\<rparr>"

definition new_hash_input :: "event_seq \<Rightarrow> blake3_hash \<Rightarrow> envelope_in \<Rightarrow> hash_input" where
  "new_hash_input seq prev_hash i =
     \<lparr>hi_seq = seq, hi_source_id = ei_source_id i, hi_schema_version = ei_schema_version i,
      hi_parser_version = ei_parser_version i, hi_observed_at = ei_observed_at i, hi_received_at = ei_received_at i,
      hi_content_type = ei_content_type i, hi_prev_hash = prev_hash, hi_payload = ei_payload i\<rparr>"

definition new_envelope :: "event_seq \<Rightarrow> blake3_hash \<Rightarrow> blake3_hash \<Rightarrow> blake3_hash \<Rightarrow> envelope_in \<Rightarrow> event_envelope" where
  "new_envelope seq raw_payload_hash prev_hash this_hash i =
     \<lparr>ev_seq = seq, ev_source_id = ei_source_id i, ev_schema_version = ei_schema_version i,
      ev_parser_version = ei_parser_version i, ev_observed_at = ei_observed_at i, ev_received_at = ei_received_at i,
      ev_content_type = ei_content_type i, ev_raw_payload_hash = raw_payload_hash, ev_prev_hash = prev_hash,
      ev_this_hash = this_hash, ev_payload = ei_payload i\<rparr>"

definition writer_append :: "codec \<Rightarrow> envelope_in \<Rightarrow> log_writer \<Rightarrow> (log_error + event_seq) \<times> log_writer" where
  "writer_append C i w =
     (case rbind (ensure_healthy w) (\<lambda>_.
           rbind (ok_or LogSequenceOverflow (checked_add (wr_next_seq w) 1)) (\<lambda>next_seq.
           rbind (compute_hashes C (new_hash_input (wr_next_seq w) (wr_last_hash w) i)) (\<lambda>(raw, _, this_hash).
           rbind (map_err LogSerde (cd_to_vec C (new_envelope (wr_next_seq w) raw (wr_last_hash w) this_hash i))) (\<lambda>json.
             Inr (next_seq, this_hash, json))))) of
        Inl e \<Rightarrow> (Inl e, w)
      | Inr (next_seq, this_hash, json) \<Rightarrow>
          (case write_frame C (wr_inner w) json of
             (Inl e, inner) \<Rightarrow>
               (Inl e, let w' = w\<lparr>wr_inner := inner\<rparr> in
                       case e of LogIo _ \<Rightarrow> poison PoisonAppend w' | _ \<Rightarrow> w')
           | (Inr frame_bytes, inner) \<Rightarrow>
               (case checked_add (wr_cursor w) frame_bytes of
                  None \<Rightarrow>
                    (Inl (LogIo (IoError InvalidData ''event-log byte cursor overflowed'')),
                     poison PoisonAppend (w\<lparr>wr_inner := inner\<rparr>))
                | Some cursor \<Rightarrow>
                    (Inr (wr_next_seq w),
                     w\<lparr>wr_inner := inner, wr_cursor := cursor, wr_next_seq := next_seq, wr_last_hash := this_hash\<rparr>))))"

definition writer_flush :: "io_error option \<Rightarrow> log_writer \<Rightarrow> (log_error + unit) \<times> log_writer" where
  "writer_flush answer w =
     (case ensure_healthy w of
        Inl e \<Rightarrow> (Inl e, w)
      | Inr _ \<Rightarrow>
          (case answer of
             Some e \<Rightarrow> (Inl (LogIo e), poison PoisonFlush w)
           | None \<Rightarrow> (Inr (), w)))"

definition writer_sync :: "io_error option \<Rightarrow> io_error option \<Rightarrow> log_writer \<Rightarrow> (log_error + unit) \<times> log_writer" where
  "writer_sync flushed synced w =
     (case writer_flush flushed w of
        (Inl e, w') \<Rightarrow> (Inl e, w')
      | (Inr _, w') \<Rightarrow>
          (case synced of
             Some e \<Rightarrow> (Inl (LogIo e), poison PoisonSynchronize w')
           | None \<Rightarrow> (Inr (), w')))"

definition append_synced ::
    "codec \<Rightarrow> io_error option \<Rightarrow> io_error option \<Rightarrow> envelope_in \<Rightarrow> log_writer \<Rightarrow> (log_error + append_receipt) \<times> log_writer" where
  "append_synced C flushed synced i w =
     (case writer_append C i w of
        (Inl e, w') \<Rightarrow> (Inl e, w')
      | (Inr sequence, w') \<Rightarrow>
          (case writer_sync flushed synced w' of
             (Inl e, w'') \<Rightarrow> (Inl e, w'')
           | (Inr _, w'') \<Rightarrow> (Inr \<lparr>ar_sequence = sequence, ar_this_hash = wr_last_hash w'\<rparr>, w'')))"

definition writer_verified_tail ::
    "io_error option \<Rightarrow> io_error option \<Rightarrow> io_error + u64 \<Rightarrow> io_error + log_path \<Rightarrow> log_writer
       \<Rightarrow> (log_error + log_tail_binding) \<times> log_writer" where
  "writer_verified_tail flushed synced len canonical w =
     (case writer_sync flushed synced w of
        (Inl e, w') \<Rightarrow> (Inl e, w')
      | (Inr _, w') \<Rightarrow>
          (rbind (map_err LogIo len) (\<lambda>actual_tail.
             if actual_tail \<noteq> wr_cursor w' then Inl (LogExpectedTailMismatch (wr_path w') (wr_cursor w') actual_tail)
             else
               rbind (map_err LogIo canonical) (\<lambda>path.
                 Inr \<lparr>tb_path = path, tb_physical_tail = wr_cursor w', tb_last_sequence = checked_sub (wr_next_seq w') 1,
                      tb_last_hash = wr_last_hash w'\<rparr>)), w'))"

definition writer_drop :: "io_error option \<Rightarrow> io_error option \<Rightarrow> log_writer \<Rightarrow> log_writer" where
  "writer_drop flushed synced w = (if wr_poison_reason w = None then snd (writer_sync flushed synced w) else w)"

subsection \<open>Replaying\<close>

record replay_iter =
  ri_reader :: reader
  ri_state :: scan_state
  ri_poisoned :: bool
  ri_retained_tail :: "log_tail_binding option"
  ri_reached_retained_tail :: bool

definition replay_open :: "log_file \<Rightarrow> log_error + replay_iter" where
  "replay_open F =
     rbind (open_read F) (\<lambda>r0.
     rbind (verify_file_header (lf_path F) r0) (\<lambda>r.
     rbind (map_err LogRetention (lf_authority F)) (\<lambda>authority.
       let st = fresh_state authority in
     rbind (case authority of
              None \<Rightarrow> Inr None
            | Some a \<Rightarrow> rbind (resolve_tail (ra_retained_tail a) F) (\<lambda>b. Inr (Some b))) (\<lambda>retained_tail.
     rbind (require_retained_length F retained_tail) (\<lambda>_.
       Inr \<lparr>ri_reader = seek (ss_physical_tail st) r, ri_state = st, ri_poisoned = False,
            ri_retained_tail = retained_tail, ri_reached_retained_tail = (authority = None)\<rparr>)))))"

definition replay_with_offsets :: "codec \<Rightarrow> log_file \<Rightarrow> log_error + replay_iter" where
  "replay_with_offsets C F = rbind (scanner_verify C F) (\<lambda>_. replay_open F)"

text \<open>\<open>next\<close> of the iterator without a poll interval.\<close>

definition replay_next ::
    "codec \<Rightarrow> replay_iter \<Rightarrow> (log_error + u64 \<times> event_seq \<times> event_envelope) option \<times> replay_iter" where
  "replay_next C it =
     (if ri_poisoned it then (None, it)
      else
        let frame_start = ss_physical_tail (ri_state it) in
        case read_verified_frame_observed C (ri_reader it) (ri_state it) of
          Inl e \<Rightarrow> (Some (Inl e), it\<lparr>ri_poisoned := True\<rparr>)
        | Inr (StepFrame e, _, st, r) \<Rightarrow>
            (let reached =
                   (case ri_retained_tail it of
                      None \<Rightarrow> False
                    | Some tail \<Rightarrow>
                        tracker_verdict (tracker_observe st (tracker_new (Some tail) (tb_path tail))) st = PrefixMatched) in
             (Some (Inr (frame_start, ev_seq e, e)),
              it\<lparr>ri_reader := r, ri_state := st,
                 ri_reached_retained_tail := (ri_reached_retained_tail it \<or> reached)\<rparr>))
        | Inr (StepEof, _, _, _) \<Rightarrow>
            if \<not> ri_reached_retained_tail it
            then (Some (Inl (LogRetention (RetentionInvalid ''log did not reach retained tail''))), it\<lparr>ri_poisoned := True\<rparr>)
            else (None, it)
        | Inr (StepIncomplete i, _, _, _) \<Rightarrow>
            if \<not> ri_reached_retained_tail it
            then (Some (Inl (LogRetention (RetentionInvalid ''log did not reach retained tail''))), it\<lparr>ri_poisoned := True\<rparr>)
            else (Some (Inl (LogTruncated (it_next_sequence i) (it_byte_offset i))), it\<lparr>ri_poisoned := True\<rparr>))"

end
