(* ===== verification/Poisoning.thy ===== *)
theory Poisoning
  imports Prelude
begin

section \<open>Machines that stop at their first uncertain step\<close>

text \<open>
  Several components give up for good after an operation whose effect they cannot vouch for: the
  event-log writer, the replay iterator, the feed archive. What they share is one law, that a
  poisoned machine is not changed by any operation; what follows from it is that a history has at
  most one poisoning operation and ends there.
\<close>

locale poisonable =
  fixes step :: "'op \<Rightarrow> 's \<Rightarrow> 's" and poisoned :: "'s \<Rightarrow> bool"
  assumes poisoned_step: "poisoned s \<Longrightarrow> step op s = s"
begin

lemma run_poisoned: "poisoned s \<Longrightarrow> fold step ops s = s"
  by (induction ops) (simp_all add: poisoned_step)

lemma first_poisoning:
  assumes "\<not> poisoned s" "poisoned (fold step ops s)"
  obtains before op after where "ops = before @ op # after" "\<not> poisoned (fold step before s)"
    "poisoned (step op (fold step before s))" "fold step ops s = step op (fold step before s)"
  using assms
proof (induction ops arbitrary: s thesis)
  case Nil
  then show ?case by simp
next
  case (Cons op ops)
  show ?case
  proof (cases "poisoned (step op s)")
    case True
    show ?thesis by (rule Cons.prems(1) [of "[]" op ops]) (use True Cons.prems run_poisoned [OF True] in simp_all)
  next
    case False
    obtain before op' after where "ops = before @ op' # after" "\<not> poisoned (fold step before (step op s))"
      "poisoned (step op' (fold step before (step op s)))" "fold step ops (step op s) = step op' (fold step before (step op s))"
      using Cons.IH [OF _ False] Cons.prems(3) by auto
    then show ?thesis by (intro Cons.prems(1) [of "op # before" op' after]) simp_all
  qed
qed

text \<open>An invariant of healthy machines, and what one more step may leave, covers every history.\<close>

lemma run_invariant_on:
  assumes "healthy x s" "list_all allowed ops"
    and "\<And>x s op. healthy x s \<Longrightarrow> allowed op \<Longrightarrow> (\<exists>y. grows x y \<and> (healthy y (step op s) \<or> poisoned (step op s) \<and> final y (step op s)))"
    and refl: "\<And>x. grows x x" and trans: "\<And>x y z. grows x y \<Longrightarrow> grows y z \<Longrightarrow> grows x z"
  shows "\<exists>y. grows x y \<and> (healthy y (fold step ops s) \<or> poisoned (fold step ops s) \<and> final y (fold step ops s))"
  using assms(1,2)
proof (induction ops arbitrary: x s)
  case Nil
  then show ?case using refl by auto
next
  case (Cons op ops)
  obtain y where y: "grows x y" "healthy y (step op s) \<or> poisoned (step op s) \<and> final y (step op s)"
    using assms(3) [OF Cons.prems(1)] Cons.prems(2) by auto
  show ?case
  proof (cases "healthy y (step op s)")
    case True
    from Cons.IH [OF True] Cons.prems(2) y(1) trans show ?thesis by (auto intro: trans)
  next
    case False
    with y run_poisoned show ?thesis by auto
  qed
qed

lemma run_invariant:
  assumes "healthy x s" "\<And>x s op. healthy x s \<Longrightarrow> \<not> poisoned s"
    and "\<And>x s op. healthy x s \<Longrightarrow> (\<exists>y. grows x y \<and> (healthy y (step op s) \<or> poisoned (step op s) \<and> final y (step op s)))"
    and refl: "\<And>x. grows x x" and trans: "\<And>x y z. grows x y \<Longrightarrow> grows y z \<Longrightarrow> grows x z"
  shows "\<exists>y. grows x y \<and> (healthy y (fold step ops s) \<or> poisoned (fold step ops s) \<and> final y (fold step ops s))"
  by (rule run_invariant_on [where allowed = "\<lambda>_. True" and healthy = healthy and grows = grows])
    (use assms in \<open>auto simp: list_all_iff\<close>)

end

end
