(* ===== verification/Event_Images.thy ===== *)
theory Event_Images
  imports Event_Writer Poisoning "HOL-Library.Sublist"
begin

section \<open>Event logs as lists of linked frames\<close>

text \<open>
  The library under the event-log properties. A log is a list of envelopes with their frames
  (\<open>framed\<close>), linked by \<open>framed_ok\<close>; its file is \<open>log_image\<close>, possibly with a torn frame at the end.
  The lemmas say what a read sees at each point of such a file, what a walk returns, what a cut at
  any byte leaves, and how the writer's operations extend the log (\<open>writer_holds\<close>) or fail.
\<close>

subsection \<open>Frames on the wire\<close>

text \<open>
  What the log relies on of zstd and serde_json: decoding inverts encoding, no prefix of an encoded
  block holds a complete block and more, and an envelope is read back from its own text.
\<close>

definition codec_laws :: "codec \<Rightarrow> bool" where
  "codec_laws C \<longleftrightarrow>
     (\<forall>level x c. cd_encode_all C level x = Inr c \<longrightarrow> cd_decode_all C c = Inr x) \<and>
     (\<forall>level x c p rest. cd_encode_all C level x = Inr c \<longrightarrow> prefix p c \<longrightarrow> cd_single_frame C p = Some rest \<longrightarrow> rest = []) \<and>
     (\<forall>e b. cd_to_vec C e = Inr b \<longrightarrow> cd_from_slice C b = Inr e)"

definition frame_bytes :: "codec \<Rightarrow> bytes \<Rightarrow> bytes option" where
  "frame_bytes C json =
     (case cd_encode_all C ZSTD_LEVEL json of
        Inl _ \<Rightarrow> None
      | Inr c \<Rightarrow> if length c \<le> unat MAX_FRAME_BYTES
                 then Some (le_bytes 4 (length c) @ c @ le_bytes 4 (unat (cd_crc32 C c))) else None)"

lemma frame_bytes_Some:
  assumes "frame_bytes C json = Some f"
  obtains c where "cd_encode_all C ZSTD_LEVEL json = Inr c" "length c \<le> unat MAX_FRAME_BYTES"
    "f = le_bytes 4 (length c) @ c @ le_bytes 4 (unat (cd_crc32 C c))"
  using assms by (auto simp: frame_bytes_def split: sum.splits if_splits)

lemma frame_bytes_length: "frame_bytes C json = Some f \<Longrightarrow> 8 \<le> length f"
  by (elim frame_bytes_Some) simp

lemma max_frame_small: "n \<le> unat MAX_FRAME_BYTES \<Longrightarrow> n < 2 ^ 32"
  by (simp add: MAX_FRAME_BYTES_def)

lemma word_of_nat_le_max: "n < 2 ^ 32 \<Longrightarrow> MAX_FRAME_BYTES < (word_of_nat n :: u32) \<longleftrightarrow> unat MAX_FRAME_BYTES < n"
  by (simp add: word_less_nat_alt unsigned_of_nat take_bit_eq_mod)

lemma strict_prefix_take: "n < length bs \<Longrightarrow> strict_prefix (take n bs) bs"
  by (metis length_take min.absorb4 nat_neq_iff strict_prefix_def take_is_prefix)

lemma write_all_cases:
  "write_all w bs = (res, w') \<Longrightarrow>
     res = Inr () \<and> sk_bytes w' = sk_bytes w @ bs \<or>
     (\<exists>e p. res = Inl e \<and> strict_prefix p bs \<and> sk_bytes w' = sk_bytes w @ p)"
  by (auto simp: write_all_def not_le split: option.splits if_splits) (use strict_prefix_take in blast)+

lemma write_frame_cases:
  assumes "write_frame C w json = (res, w')"
  shows "(case res of
            Inr n \<Rightarrow> (\<exists>f. frame_bytes C json = Some f \<and> sk_bytes w' = sk_bytes w @ f \<and> unat n = length f)
          | Inl (LogIo e) \<Rightarrow> (\<exists>f p. frame_bytes C json = Some f \<and> strict_prefix p f \<and> sk_bytes w' = sk_bytes w @ p)
          | Inl _ \<Rightarrow> w' = w)"
proof (cases "frame_bytes C json")
  case None
  then show ?thesis
    using assms max_frame_small [of "length _"]
    by (auto simp: write_frame_def frame_bytes_def Let_def word_of_nat_le_max split: sum.splits if_splits)
next
  case (Some f)
  then obtain c where c: "cd_encode_all C ZSTD_LEVEL json = Inr c" "length c \<le> unat MAX_FRAME_BYTES"
    and f: "f = le_bytes 4 (length c) @ c @ le_bytes 4 (unat (cd_crc32 C c))" by (rule frame_bytes_Some)
  have small: "length c < 2 ^ 32" using c(2) by (rule max_frame_small)
  let ?l = "le_bytes 4 (length c)" and ?k = "le_bytes 4 (unat (cd_crc32 C c))"
  obtain r1 w1 where 1: "write_all w ?l = (r1, w1)" by (metis surj_pair)
  obtain r2 w2 where 2: "write_all w1 c = (r2, w2)" by (metis surj_pair)
  obtain r3 w3 where 3: "write_all w2 ?k = (r3, w3)" by (metis surj_pair)
  have n: "unat (ucast (word_of_nat (length c) :: u32) + 8 :: u64) = length f"
  proof -
    have "unat (ucast (word_of_nat (length c) :: u32) :: u64) = length c"
      using small by (simp add: unsigned_ucast_eq unsigned_of_nat take_bit_eq_mod)
    then show ?thesis using small by (subst unat_add_fits) (simp_all add: f)
  qed
  have run: "write_frame C w json =
      after_write (r1, w1) (\<lambda>w1. after_write (write_all w1 c) (\<lambda>w2. after_write (write_all w2 ?k)
        (\<lambda>w3. (Inr (ucast (word_of_nat (length c) :: u32) + 8), w3))))"
    using c small by (simp add: write_frame_def Let_def word_of_nat_le_max 1 unsigned_of_nat take_bit_eq_mod)
  have px: "strict_prefix p (xs @ ys)" if "strict_prefix p xs" for p xs ys :: bytes
    using that by (auto simp: strict_prefix_def prefix_def)
  have py: "strict_prefix (xs @ p) (xs @ ys)" if "strict_prefix p ys" for p xs ys :: bytes
    using that by (auto simp: strict_prefix_def)
  from write_all_cases [OF 1] show ?thesis
  proof (elim disjE)
    assume "\<exists>e p. r1 = Inl e \<and> strict_prefix p ?l \<and> sk_bytes w1 = sk_bytes w @ p"
    then obtain e p where *: "r1 = Inl e" "strict_prefix p ?l" "sk_bytes w1 = sk_bytes w @ p" by blast
    have "strict_prefix p f" unfolding f using *(2) by (rule px)
    then show ?thesis using assms run Some * by (auto simp: after_write_def)
  next
    assume ok1: "r1 = Inr () \<and> sk_bytes w1 = sk_bytes w @ ?l"
    from write_all_cases [OF 2] show ?thesis
    proof (elim disjE)
      assume "\<exists>e p. r2 = Inl e \<and> strict_prefix p c \<and> sk_bytes w2 = sk_bytes w1 @ p"
      then obtain e p where *: "r2 = Inl e" "strict_prefix p c" "sk_bytes w2 = sk_bytes w1 @ p" by blast
      have "strict_prefix (?l @ p) f" unfolding f using *(2) by (intro py px)
      then show ?thesis using assms run Some ok1 2 * by (auto simp: after_write_def)
    next
      assume ok2: "r2 = Inr () \<and> sk_bytes w2 = sk_bytes w1 @ c"
      from write_all_cases [OF 3] show ?thesis
      proof (elim disjE)
        assume "\<exists>e p. r3 = Inl e \<and> strict_prefix p ?k \<and> sk_bytes w3 = sk_bytes w2 @ p"
        then obtain e p where *: "r3 = Inl e" "strict_prefix p ?k" "sk_bytes w3 = sk_bytes w2 @ p" by blast
        have "strict_prefix (?l @ c @ p) f" unfolding f using *(2) by (intro py)
        then show ?thesis using assms run Some ok1 ok2 2 3 * by (auto simp: after_write_def)
      next
        assume "r3 = Inr () \<and> sk_bytes w3 = sk_bytes w2 @ ?k"
        then show ?thesis using assms run Some ok1 ok2 2 3 n by (auto simp: after_write_def f)
      qed
    qed
  qed
qed

lemma le_value_4: "n < 2 ^ 32 \<Longrightarrow> le_value (le_bytes 4 n) = n"
  by (rule le_value_le_bytes) simp

lemma unat_u32_of_nat: "n < 2 ^ 32 \<Longrightarrow> unat (word_of_nat n :: u32) = n"
  by (simp add: unsigned_of_nat take_bit_eq_mod)

lemma u32_roundtrip: "(word_of_nat (le_value (le_bytes 4 (unat x))) :: u32) = x"
proof -
  have "unat x < 2 ^ 32" using unat_less_len [of x] by simp
  then show ?thesis by (simp add: le_value_4)
qed

lemma strict_prefix_append_cases:
  assumes "strict_prefix p (xs @ ys)"
  obtains "strict_prefix p xs" | q where "p = xs @ q" "strict_prefix q ys"
proof (cases "length p < length xs")
  case True
  have p: "prefix p (xs @ ys)" using assms by (rule prefix_order.less_imp_le)
  have "prefix p xs" by (rule prefix_length_prefix [OF p]) (use True in simp_all)
  moreover have "p \<noteq> xs" using True by blast
  ultimately show ?thesis using that(1) by (simp add: prefix_order.less_le)
next
  case False
  have p: "prefix p (xs @ ys)" using assms by (rule prefix_order.less_imp_le)
  have "prefix xs p" by (rule prefix_length_prefix [OF _ p]) (use False in simp_all)
  then obtain q where "p = xs @ q" by (auto simp: prefix_def)
  with assms show ?thesis using that(2) by (simp add: prefix_order.less_le)
qed

lemma read_exact_short:
  "length (rd_rest r) < n \<Longrightarrow> rd_end r = None \<Longrightarrow> read_exact_frame r n off = Inl (FrameTruncated off)"
  by (simp add: read_exact_frame_def read_exact_def)

lemma le_bytes_4_Cons: obtains b l where "le_bytes 4 n = b # l" "length l = 3"
  by (cases "le_bytes 4 n") (use length_le_bytes [of 4 n] in auto)

lemma read_frame_ok:
  assumes laws: "codec_laws C" and f: "frame_bytes C json = Some f" and rest: "rd_rest r = f @ more_bytes"
  shows "read_frame_observed C r off = Inr (Some (json, f, advance (length f) r))"
proof -
  obtain c where c: "cd_encode_all C ZSTD_LEVEL json = Inr c" "length c \<le> unat MAX_FRAME_BYTES"
    and fe: "f = le_bytes 4 (length c) @ c @ le_bytes 4 (unat (cd_crc32 C c))" using f by (rule frame_bytes_Some)
  obtain b l where l: "le_bytes 4 (length c) = b # l" "length l = 3" by (rule le_bytes_4_Cons)
  have small: "length c < 2 ^ 32" using c(2) by (rule max_frame_small)
  have ul: "unat (word_of_nat (length c) :: u32) = length c" using small by (rule unat_u32_of_nat)
  have rest': "rd_rest r = b # l @ c @ le_bytes 4 (unat (cd_crc32 C c)) @ more_bytes" by (simp add: rest fe l)
  have len: "le_value (b # l) = length c" using le_value_4 [OF small] by (simp only: l)
  have 1: "read_one r = Inr (Some b)" by (simp add: read_one_def rest')
  have 2: "read_exact_frame (advance 1 r) 3 off = Inr (l, advance 4 r)"
    by (simp add: read_exact_frame_def read_exact_def rest' l)
  have 3: "take_read_to_end (advance 4 r) (length c) = Inr (c, advance (4 + length c) r)"
    by (simp add: take_read_to_end_def rest' l)
  have 4: "read_exact_frame (advance (4 + length c) r) 4 off =
      Inr (le_bytes 4 (unat (cd_crc32 C c)), advance (8 + length c) r)"
    by (simp add: read_exact_frame_def read_exact_def rest' l add.commute drop_Cons')
  have max: "\<not> MAX_FRAME_BYTES < (word_of_nat (length c) :: u32)" using c(2) small by (simp add: word_of_nat_le_max)
  have dec: "cd_decode_all C c = Inr json" using laws c(1) by (auto simp: codec_laws_def)
  show ?thesis
    using 1 2 3 4 max dec
    by (simp add: read_frame_observed_def len Let_def ul u32_roundtrip fe l add.commute del: le_value.simps)
qed

lemma read_frame_torn:
  assumes laws: "codec_laws C" and f: "frame_bytes C json = Some f" and p: "strict_prefix p f" "p \<noteq> []"
    and rest: "rd_rest r = p" and eof: "rd_end r = None"
  shows "read_frame_observed C r off = Inl (FrameTruncated off)"
proof -
  obtain c where c: "cd_encode_all C ZSTD_LEVEL json = Inr c" "length c \<le> unat MAX_FRAME_BYTES"
    and fe: "f = le_bytes 4 (length c) @ c @ le_bytes 4 (unat (cd_crc32 C c))" using f by (rule frame_bytes_Some)
  obtain b l where l: "le_bytes 4 (length c) = b # l" "length l = 3" by (rule le_bytes_4_Cons)
  have small: "length c < 2 ^ 32" using c(2) by (rule max_frame_small)
  have ul: "unat (word_of_nat (length c) :: u32) = length c" using small by (rule unat_u32_of_nat)
  have len: "le_value (b # l) = length c" using le_value_4 [OF small] by (simp only: l)
  have whole: "\<not> complete_zstd_frame_has_trailing_bytes C q" if "prefix q c" for q
    using laws c(1) that by (auto simp: codec_laws_def complete_zstd_frame_has_trailing_bytes_def split: option.splits)
  have max: "\<not> MAX_FRAME_BYTES < (word_of_nat (length c) :: u32)" using c(2) small by (simp add: word_of_nat_le_max)
  obtain q where q: "p = b # q" "strict_prefix q (l @ c @ le_bytes 4 (unat (cd_crc32 C c)))"
    using p fe l by (cases p) auto
  have 1: "read_one r = Inr (Some b)" by (simp add: read_one_def rest q)
  show ?thesis
    using q(2)
  proof (rule strict_prefix_append_cases)
    assume "strict_prefix q l"
    then have "length q < 3" using prefix_length_less l(2) by fastforce
    then have "read_exact_frame (advance 1 r) 3 off = Inl (FrameTruncated off)"
      by (intro read_exact_short) (simp_all add: rest q eof)
    then show ?thesis by (simp add: read_frame_observed_def 1)
  next
    fix q'
    assume q': "q = l @ q'" "strict_prefix q' (c @ le_bytes 4 (unat (cd_crc32 C c)))"
    have 2: "read_exact_frame (advance 1 r) 3 off = Inr (l, advance 4 r)"
      by (simp add: read_exact_frame_def read_exact_def rest q q' l)
    show ?thesis
      using q'(2)
    proof (rule strict_prefix_append_cases)
      assume sp: "strict_prefix q' c"
      then have "length q' < length c" by (rule prefix_length_less)
      moreover from this have "take_read_to_end (advance 4 r) (length c) = Inr (q', advance (4 + length q') r)"
        by (simp add: take_read_to_end_def rest q q' l eof)
      ultimately show ?thesis
        using 1 2 whole [of q'] sp max
        by (simp add: read_frame_observed_def len Let_def ul prefix_order.less_imp_le del: le_value.simps)
    next
      fix k
      assume k: "q' = c @ k" "strict_prefix k (le_bytes 4 (unat (cd_crc32 C c)))"
      have "length k < 4" using prefix_length_less [OF k(2)] by simp
      then have 4: "read_exact_frame (advance (4 + length c) r) 4 off = Inl (FrameTruncated off)"
        by (intro read_exact_short) (simp_all add: rest q q' k l eof drop_Cons')
      have "take_read_to_end (advance 4 r) (length c) = Inr (c, advance (4 + length c) r)"
        by (simp add: take_read_to_end_def rest q q' k l)
      then show ?thesis
        using 1 2 4 max whole [of c] by (simp add: read_frame_observed_def len Let_def ul del: le_value.simps)
    qed
  qed
qed

lemma read_frame_eof: "rd_rest r = [] \<Longrightarrow> rd_end r = None \<Longrightarrow> read_frame_observed C r off = Inr None"
  by (simp add: read_frame_observed_def read_one_def)

subsection \<open>Logs of linked frames\<close>

definition event_frame :: "codec \<Rightarrow> event_envelope \<Rightarrow> bytes option" where
  "event_frame C e = (case cd_to_vec C e of Inl _ \<Rightarrow> None | Inr json \<Rightarrow> frame_bytes C json)"

text \<open>An envelope links to a sequence number and a previous hash.\<close>

definition links :: "codec \<Rightarrow> u64 \<Rightarrow> blake3_hash \<Rightarrow> event_envelope \<Rightarrow> bool" where
  "links C n h e \<longleftrightarrow>
     ev_seq e = n \<and> ev_raw_payload_hash e = cd_blake3 C (ev_payload e) \<and> ev_prev_hash e = h \<and>
     (\<exists>raw canonical. compute_hashes C (envelope_hash_input e) = Inr (raw, canonical, ev_this_hash e))"

lemma verify_chain_ok_iff:
  "verify_chain C e h = Inr () \<longleftrightarrow> ev_prev_hash e = h \<and>
     (\<exists>raw canonical. compute_hashes C (envelope_hash_input e) = Inr (raw, canonical, ev_this_hash e))"
  by (cases "compute_hashes C (envelope_hash_input e)") (auto simp: verify_chain_def split: if_splits)

lemma verify_envelope_ok_iff: "verify_envelope C e n h off = Inr () \<longleftrightarrow> links C n h e"
proof -
  have "verify_envelope C e n h off = Inr () \<longleftrightarrow>
      ev_seq e = n \<and> cd_blake3 C (ev_payload e) = ev_raw_payload_hash e \<and> verify_chain C e h = Inr ()"
  proof (cases "verify_chain C e h")
    case (Inl x)
    then show ?thesis by (cases x) (simp_all add: verify_envelope_def Let_def)
  next
    case (Inr u)
    then show ?thesis by (simp add: verify_envelope_def Let_def)
  qed
  then show ?thesis by (auto simp: verify_chain_ok_iff links_def)
qed

fun chain_ok :: "codec \<Rightarrow> u64 \<Rightarrow> blake3_hash \<Rightarrow> event_envelope list \<Rightarrow> bool" where
  "chain_ok C n h [] = True"
| "chain_ok C n h (e # es) \<longleftrightarrow> links C n h e \<and> checked_add n 1 \<noteq> None \<and> chain_ok C (n + 1) (ev_this_hash e) es"

text \<open>A log is a list of envelopes with their frames.\<close>

type_synonym framed = "(event_envelope \<times> bytes) list"

definition framed_ok :: "codec \<Rightarrow> u64 \<Rightarrow> blake3_hash \<Rightarrow> framed \<Rightarrow> bool" where
  "framed_ok C n h efs \<longleftrightarrow> chain_ok C n h (map fst efs) \<and> (\<forall>(e, f)\<in>set efs. event_frame C e = Some f)"

definition frames_of :: "framed \<Rightarrow> bytes" where
  "frames_of efs = concat (map snd efs)"

definition torn :: "codec \<Rightarrow> bytes \<Rightarrow> bool" where
  "torn C p \<longleftrightarrow> p = [] \<or> (\<exists>json f. frame_bytes C json = Some f \<and> strict_prefix p f)"

fun scan_after :: "scan_state \<Rightarrow> framed \<Rightarrow> scan_state" where
  "scan_after st [] = st"
| "scan_after st ((e, f) # efs) =
     scan_after \<lparr>ss_next_sequence = ss_next_sequence st + 1, ss_previous_hash = ev_this_hash e,
                 ss_physical_tail = ss_physical_tail st + word_of_nat (length f)\<rparr> efs"

fun offsets_from :: "u64 \<Rightarrow> framed \<Rightarrow> (u64 \<times> event_envelope) list" where
  "offsets_from off [] = []"
| "offsets_from off ((e, f) # efs) = (off, e) # offsets_from (off + word_of_nat (length f)) efs"

lemma frames_of_simps [simp]: "frames_of [] = []" "frames_of ((e, f) # efs) = f @ frames_of efs"
  "frames_of (xs @ ys) = frames_of xs @ frames_of ys"
  by (simp_all add: frames_of_def)

lemma framed_ok_simps [simp]:
  "framed_ok C n h []"
  "framed_ok C n h ((e, f) # efs) \<longleftrightarrow>
     links C n h e \<and> checked_add n 1 \<noteq> None \<and> event_frame C e = Some f \<and> framed_ok C (n + 1) (ev_this_hash e) efs"
  by (auto simp: framed_ok_def)

lemma torn_Nil [simp]: "torn C []"
  by (simp add: torn_def)

lemma event_frame_Some: "event_frame C e = Some f \<Longrightarrow> \<exists>json. cd_to_vec C e = Inr json \<and> frame_bytes C json = Some f"
  by (auto simp: event_frame_def split: sum.splits)

lemma checked_add_one: "checked_add n 1 \<noteq> None \<Longrightarrow> checked_add n (1 :: u64) = Some (n + 1)"
  by (simp add: checked_add_def split: if_splits)

lemma read_linked_frame:
  assumes laws: "codec_laws C" and f: "event_frame C e = Some f" and link: "links C (ss_next_sequence st) (ss_previous_hash st) e"
    and fits: "checked_add (ss_next_sequence st) 1 \<noteq> None" and rest: "rd_rest r = f @ bs"
    and pos: "stream_position r = ss_physical_tail st"
  shows "read_verified_frame_observed C r st =
    Inr (StepFrame e, f, scan_after st [(e, f)], advance (length f) r)"
proof -
  obtain json where json: "cd_to_vec C e = Inr json" "frame_bytes C json = Some f" using event_frame_Some [OF f] by blast
  have "cd_from_slice C json = Inr e" using laws json(1) by (auto simp: codec_laws_def)
  moreover have "stream_position (advance (length f) r) = ss_physical_tail st + word_of_nat (length f)"
    using pos by (simp add: stream_position_def)
  ultimately show ?thesis
    using read_frame_ok [OF laws json(2) rest] link [folded verify_envelope_ok_iff [where off = "ss_physical_tail st"]]
      checked_add_one [OF fits]
    by (simp add: read_verified_frame_observed_def Let_def)
qed

lemma read_torn_tail:
  assumes laws: "codec_laws C" and p: "torn C p" and rest: "rd_rest r = p" and eof: "rd_end r = None"
  shows "read_verified_frame_observed C r st =
    Inr (if p = [] then StepEof
         else StepIncomplete \<lparr>it_byte_offset = ss_physical_tail st, it_next_sequence = ss_next_sequence st\<rparr>, [], st, r)"
proof (cases "p = []")
  case True
  then show ?thesis using read_frame_eof [of r C] rest eof by (simp add: read_verified_frame_observed_def Let_def)
next
  case False
  then obtain json f where "frame_bytes C json = Some f" "strict_prefix p f" using p by (auto simp: torn_def)
  with read_frame_torn [OF laws this False rest eof] False show ?thesis
    by (simp add: read_verified_frame_observed_def Let_def)
qed

definition torn_tail :: "bytes \<Rightarrow> scan_state \<Rightarrow> incomplete_tail option" where
  "torn_tail p st =
     (if p = [] then None else Some \<lparr>it_byte_offset = ss_physical_tail st, it_next_sequence = ss_next_sequence st\<rparr>)"

lemma walk_framed:
  assumes "codec_laws C" "framed_ok C (ss_next_sequence st) (ss_previous_hash st) efs" "torn C p"
    and "rd_rest r = frames_of efs @ p" "rd_end r = None" "stream_position r = ss_physical_tail st"
    and "pt_expected pre = None" "pt_expected retention = None"
  shows "walk_loop C PhysicalEof path rr pre retention st r =
    (Inr (\<lparr>so_verified_tail = tail_binding path (scan_after st efs), so_incomplete_tail = torn_tail p (scan_after st efs)\<rparr>,
          NotRequested), offsets_from (ss_physical_tail st) efs)"
  using assms
proof (induction efs arbitrary: st r)
  case Nil
  have ret: "require_retained (tracker_verdict retention st) = Inr ()"
    using Nil.prems(8) by (simp add: tracker_verdict_def require_retained_def)
  have "tracker_verdict pre st = NotRequested" using Nil.prems(7) by (simp add: tracker_verdict_def)
  then show ?case
    using read_torn_tail [OF Nil.prems(1,3), of r st] Nil.prems ret
    by (subst walk_loop.simps) (simp add: finish_walk_def torn_tail_def)
next
  case (Cons ef efs)
  obtain e f where ef: "ef = (e, f)" by (cases ef)
  have obs: "tracker_observe s pre = pre" "tracker_observe s retention = retention" for s
    using Cons.prems(7,8) by (simp_all add: tracker_observe_def)
  have step: "read_verified_frame_observed C r st = Inr (StepFrame e, f, scan_after st [(e, f)], advance (length f) r)"
    using Cons.prems by (intro read_linked_frame) (auto simp: ef)
  have "walk_loop C PhysicalEof path rr pre retention (scan_after st [(e, f)]) (advance (length f) r) =
    (Inr (\<lparr>so_verified_tail = tail_binding path (scan_after (scan_after st [(e, f)]) efs),
           so_incomplete_tail = torn_tail p (scan_after (scan_after st [(e, f)]) efs)\<rparr>, NotRequested),
     offsets_from (ss_physical_tail (scan_after st [(e, f)])) efs)"
    using Cons.prems by (intro Cons.IH) (auto simp: ef stream_position_def)
  then show ?case using step by (subst walk_loop.simps) (simp add: obs ef)
qed

subsection \<open>Crash images\<close>

definition log_image :: "framed \<Rightarrow> bytes \<Rightarrow> bytes" where
  "log_image efs p = MAGIC @ VERSION # frames_of efs @ p"

definition last_hash :: "framed \<Rightarrow> blake3_hash" where
  "last_hash efs = (if efs = [] then genesis_hash else ev_this_hash (fst (last efs)))"

definition plain_file :: "log_file \<Rightarrow> bool" where
  "plain_file F \<longleftrightarrow> lf_open_error F = None \<and> (\<exists>path. lf_canonical F = Inr path) \<and> lf_fault F = None \<and> lf_authority F = Inr None"

definition os_healthy :: "os_calls \<Rightarrow> bool" where
  "os_healthy os \<longleftrightarrow> os_open os = None \<and> os_lock os = None \<and> os_flush os = None \<and> os_sync os = None \<and>
     os_set_len os = None \<and> os_seek os = None"

definition writer_holds :: "codec \<Rightarrow> framed \<Rightarrow> log_writer \<Rightarrow> bool" where
  "writer_holds C efs w \<longleftrightarrow>
     framed_ok C 0 genesis_hash efs \<and> sk_bytes (wr_inner w) = log_image efs [] \<and>
     wr_next_seq w = word_of_nat (length efs) \<and> wr_cursor w = word_of_nat (length (log_image efs [])) \<and>
     wr_last_hash w = last_hash efs \<and> wr_poison_reason w = None"

lemma length_log_image [simp]: "length (log_image efs p) = 5 + length (frames_of efs) + length p"
  by (simp add: log_image_def MAGIC_def)

lemma torn_take: "torn C p \<Longrightarrow> torn C (take n p)"
  unfolding torn_def by (metis prefix_order.le_less_trans take_is_prefix take_Nil)

lemma cut_framed:
  assumes "\<forall>(e, f)\<in>set efs. event_frame C e = Some f" "torn C p"
  shows "\<exists>k q. take n (frames_of efs @ p) = frames_of (take k efs) @ q \<and> torn C q \<and> k \<le> length efs \<and>
    length (frames_of (take k efs)) \<le> n \<and> (k < length efs \<longrightarrow> n < length (frames_of (take (Suc k) efs)))"
  using assms
proof (induction efs arbitrary: n)
  case Nil
  then show ?case by (intro exI [of _ 0] exI [of _ "take n p"]) (simp add: torn_take)
next
  case (Cons ef efs)
  obtain e f where ef: "ef = (e, f)" by (cases ef)
  show ?case
  proof (cases "n < length f")
    case True
    obtain json where "frame_bytes C json = Some f" using Cons.prems(1) event_frame_Some by (force simp: ef)
    then have "torn C (take n f)" using strict_prefix_take [OF True] by (auto simp: torn_def)
    with True show ?thesis by (intro exI [of _ 0] exI [of _ "take n f"]) (simp add: ef)
  next
    case False
    obtain k q where "take (n - length f) (frames_of efs @ p) = frames_of (take k efs) @ q" "torn C q" "k \<le> length efs"
      "length (frames_of (take k efs)) \<le> n - length f"
      "k < length efs \<longrightarrow> n - length f < length (frames_of (take (Suc k) efs))"
      using Cons.IH [of "n - length f"] Cons.prems by auto
    with False show ?thesis by (intro exI [of _ "Suc k"] exI [of _ q]) (auto simp: ef)
  qed
qed

lemma framed_ok_take: "framed_ok C n h efs \<Longrightarrow> framed_ok C n h (take k efs)"
proof (induction efs arbitrary: n h k)
  case Nil
  then show ?case by simp
next
  case (Cons ef efs)
  then show ?case by (cases k; cases ef) auto
qed

lemma framed_ok_count: "framed_ok C n h efs \<Longrightarrow> unat n + length efs < 2 ^ 64"
proof (induction efs arbitrary: n h)
  case Nil
  then show ?case using unat_less_len [of n] by simp
next
  case (Cons ef efs)
  obtain e f where ef: "ef = (e, f)" by (cases ef)
  have "unat (n + 1) = unat n + 1" using Cons.prems by (auto simp: ef checked_add_def unat_add_fits split: if_splits)
  moreover have "unat (n + 1) + length efs < 2 ^ 64" using Cons.prems by (intro Cons.IH) (auto simp: ef)
  ultimately show ?case by simp
qed

lemma scan_after_eq:
  "scan_after st efs =
    \<lparr>ss_next_sequence = ss_next_sequence st + word_of_nat (length efs),
     ss_previous_hash = (if efs = [] then ss_previous_hash st else ev_this_hash (fst (last efs))),
     ss_physical_tail = ss_physical_tail st + word_of_nat (length (frames_of efs))\<rparr>"
proof (induction efs arbitrary: st)
  case Nil
  then show ?case by simp
next
  case (Cons ef efs)
  then show ?case by (cases ef) simp
qed

lemma scan_whole:
  "scan_after after_header efs =
    \<lparr>ss_next_sequence = word_of_nat (length efs), ss_previous_hash = last_hash efs,
     ss_physical_tail = word_of_nat (length (log_image efs []))\<rparr>"
  by (simp add: scan_after_eq after_header_def last_hash_def HEADER_LEN_def)

lemma header_ok:
  assumes "lf_data F = log_image efs p"
  shows "verify_file_header path (file_reader F) = Inr (advance 5 (file_reader F))"
  using assms by (simp add: verify_file_header_def read_exact_def file_reader_def rd_rest_def log_image_def MAGIC_def str_bytes_def)

lemma walk_image:
  assumes laws: "codec_laws C" and ok: "framed_ok C 0 genesis_hash efs" and p: "torn C p"
    and F: "plain_file F" "lf_data F = log_image efs p"
  shows "\<exists>path. walk_locked C F (walk_request_from None) =
    (Inr (\<lparr>so_verified_tail = tail_binding path (scan_after after_header efs),
           so_incomplete_tail = torn_tail p (scan_after after_header efs)\<rparr>, NotRequested), offsets_from HEADER_LEN efs)"
proof -
  obtain path where path: "lf_canonical F = Inr path" using F(1) by (auto simp: plain_file_def)
  let ?r = "seek HEADER_LEN (advance 5 (file_reader F))" and ?t = "tracker_new None path"
  have rest: "rd_rest ?r = frames_of efs @ p"
    by (simp add: rd_rest_def seek_def file_reader_def F(2) log_image_def HEADER_LEN_def MAGIC_def str_bytes_def)
  have loop: "walk_loop C PhysicalEof path True ?t ?t after_header ?r =
    (Inr (\<lparr>so_verified_tail = tail_binding path (scan_after after_header efs),
           so_incomplete_tail = torn_tail p (scan_after after_header efs)\<rparr>, NotRequested),
     offsets_from (ss_physical_tail after_header) efs)"
    by (rule walk_framed [OF laws _ p rest])
      (use ok F(1) in \<open>simp_all add: after_header_def plain_file_def seek_def file_reader_def stream_position_def tracker_new_def\<close>)
  have obs: "tracker_observe after_header ?t = ?t" by (simp add: tracker_observe_def tracker_new_def)
  have "walk_locked C F (walk_request_from None) = walk_loop C PhysicalEof path True ?t ?t after_header ?r"
    using F(1)
    by (simp add: walk_locked_def path header_ok [OF F(2)] plain_file_def walk_request_from_def fresh_state_def Let_def
        require_retained_length_def obs) (simp add: after_header_def)
  with loop show ?thesis by (auto simp: after_header_def)
qed

lemma reopen_image:
  assumes laws: "codec_laws C" and ok: "framed_ok C 0 genesis_hash efs" and p: "torn C p"
    and F: "plain_file F" "lf_data F = log_image efs p" and small: "length (lf_data F) < 2 ^ 64" and os: "os_healthy os"
  shows "\<exists>w. writer_open C os F = (Inr w, log_image efs []) \<and> writer_holds C efs w"
proof -
  let ?st = "scan_after after_header efs"
  obtain path where walk: "walk_locked C F (walk_request_from None) =
    (Inr (\<lparr>so_verified_tail = tail_binding path ?st, so_incomplete_tail = torn_tail p ?st\<rparr>, NotRequested),
     offsets_from HEADER_LEN efs)"
    using walk_image [OF laws ok p F] by blast
  have count: "length efs < 2 ^ 64" using framed_ok_count [OF ok] by simp
  have tail: "unat (word_of_nat (length (log_image efs [])) :: u64) = length (log_image efs [])"
    by (rule unat_u64_of_nat) (use small F(2) in simp)
  have data: "(if p = [] then lf_data F else take (unat (word_of_nat (length (log_image efs [])) :: u64)) (lf_data F)) =
      log_image efs []"
    unfolding tail by (simp add: F(2) log_image_def MAGIC_def str_bytes_def)
  have nonempty: "file_len F \<noteq> 0"
  proof -
    have "unat (file_len F) = length (lf_data F)" unfolding file_len_def using small by (rule unat_u64_of_nat)
    moreover have "length (lf_data F) \<noteq> 0" by (simp add: F(2))
    ultimately show ?thesis by (metis unat_0)
  qed
  have seq: "(case checked_sub (word_of_nat (length efs) :: u64) 1 of None \<Rightarrow> Inr 0
              | Some sq \<Rightarrow> ok_or LogSequenceOverflow (checked_add sq 1)) = Inr (word_of_nat (length efs))"
  proof (cases "efs = []")
    case True
    then show ?thesis by (simp add: checked_sub_def)
  next
    case False
    then obtain k where k: "length efs = Suc k" by (cases efs) auto
    have ul: "unat (word_of_nat (Suc k) :: u64) = Suc k" "unat (word_of_nat k :: u64) = k"
      by (rule unat_u64_of_nat, use count k in simp)+
    have "checked_sub (word_of_nat (Suc k) :: u64) 1 = Some (word_of_nat k)"
      using ul by (simp add: checked_simps del: of_nat_Suc)
    moreover have "checked_add (word_of_nat k :: u64) 1 = Some (word_of_nat (Suc k))"
      using ul by (simp add: checked_simps del: of_nat_Suc)
    ultimately show ?thesis by (simp add: k del: of_nat_Suc)
  qed
  let ?w = "from_file (lf_path F) \<lparr>sk_bytes = log_image efs [], sk_fault = os_sink os\<rparr> (word_of_nat (length efs))
      (last_hash efs) (word_of_nat (length (log_image efs [])))"
  have "inspect_open C F = Inr \<lparr>so_verified_tail = tail_binding path ?st, so_incomplete_tail = torn_tail p ?st\<rparr>"
    by (simp add: inspect_open_def walk)
  moreover have "repair_and_attach os F \<lparr>so_verified_tail = tail_binding path ?st, so_incomplete_tail = torn_tail p ?st\<rparr> =
      (Inr ?w, log_image efs [])"
    using os data seq by (cases "p = []")
      (simp_all add: repair_and_attach_def tail_binding_def scan_whole torn_tail_def os_healthy_def os_call_def Let_def
        del: length_log_image)
  ultimately have "writer_open C os F = (Inr ?w, log_image efs [])"
    using os nonempty by (simp add: writer_open_def lock_exclusive_def os_healthy_def os_call_def)
  moreover have "writer_holds C efs ?w" using ok by (simp add: writer_holds_def from_file_def)
  ultimately show ?thesis by blast
qed

lemma cut_image:
  assumes log: "framed_ok C 0 genesis_hash efs" "torn C p" and cut: "5 \<le> n"
  obtains k q where "take n (log_image efs p) = log_image (take k efs) q" "torn C q" "k \<le> length efs"
    "length (log_image (take k efs) []) \<le> n" "k < length efs \<longrightarrow> n < length (log_image (take (Suc k) efs) [])"
proof -
  have frames: "\<forall>(e, f)\<in>set efs. event_frame C e = Some f" using log(1) by (simp add: framed_ok_def)
  obtain k q where cutat: "take (n - 5) (frames_of efs @ p) = frames_of (take k efs) @ q" "torn C q" "k \<le> length efs"
    "length (frames_of (take k efs)) \<le> n - 5" "k < length efs \<longrightarrow> n - 5 < length (frames_of (take (Suc k) efs))"
    using cut_framed [OF frames log(2), of "n - 5"] by blast
  have h: "log_image xs y = (MAGIC @ [VERSION]) @ frames_of xs @ y" for xs y by (simp add: log_image_def)
  have "length (MAGIC @ [VERSION]) = 5" by (simp add: MAGIC_def)
  then have "take n (log_image efs p) = (MAGIC @ [VERSION]) @ take (n - 5) (frames_of efs @ p)"
    using cut unfolding h by (subst take_append) simp
  then have "take n (log_image efs p) = log_image (take k efs) q" unfolding h [of "take k efs"] cutat(1) .
  then show ?thesis using cutat cut by (intro that [of k q]) auto
qed

lemma reopen_cut:
  assumes laws: "codec_laws C" and log: "framed_ok C 0 genesis_hash efs" "torn C p"
    and small: "length (log_image efs p) < 2 ^ 64" and cut: "5 \<le> n"
    and F: "plain_file F" "lf_data F = take n (log_image efs p)" and os: "os_healthy os"
  shows "\<exists>k w. k \<le> length efs \<and> length (log_image (take k efs) []) \<le> n \<and>
    (k < length efs \<longrightarrow> n < length (log_image (take (Suc k) efs) [])) \<and>
    writer_open C os F = (Inr w, log_image (take k efs) []) \<and> writer_holds C (take k efs) w"
proof -
  obtain k q where cutat: "take n (log_image efs p) = log_image (take k efs) q" "torn C q" "k \<le> length efs"
    "length (log_image (take k efs) []) \<le> n" "k < length efs \<longrightarrow> n < length (log_image (take (Suc k) efs) [])"
    using cut_image [OF log cut] by metis
  have "length (lf_data F) < 2 ^ 64" using small F(2) by simp
  then obtain w where "writer_open C os F = (Inr w, log_image (take k efs) [])" "writer_holds C (take k efs) w"
    using reopen_image [OF laws framed_ok_take [OF log(1)] cutat(2) F(1) _ _ os] F(2) cutat(1) by auto
  with cutat show ?thesis by blast
qed

subsection \<open>Histories of the writer\<close>

datatype writer_op =
    OpAppend envelope_in
  | OpFlush "io_error option"
  | OpSync "io_error option" "io_error option"
  | OpAppendSynced "io_error option" "io_error option" envelope_in

definition writer_step :: "codec \<Rightarrow> writer_op \<Rightarrow> log_writer \<Rightarrow> log_writer" where
  "writer_step C op w =
     (case op of
        OpAppend i \<Rightarrow> snd (writer_append C i w)
      | OpFlush answer \<Rightarrow> snd (writer_flush answer w)
      | OpSync flushed synced \<Rightarrow> snd (writer_sync flushed synced w)
      | OpAppendSynced flushed synced i \<Rightarrow> snd (append_synced C flushed synced i w))"

definition writer_poisoned :: "log_writer \<Rightarrow> bool" where
  "writer_poisoned w \<longleftrightarrow> wr_poison_reason w \<noteq> None"

lemma poisoned_refuses:
  assumes "wr_poison_reason w = Some reason"
  shows "writer_append C i w = (Inl (LogPoisoned reason), w)"
    and "writer_flush answer w = (Inl (LogPoisoned reason), w)"
    and "writer_sync flushed synced w = (Inl (LogPoisoned reason), w)"
    and "append_synced C flushed synced i w = (Inl (LogPoisoned reason), w)"
  using assms by (simp_all add: writer_append_def writer_flush_def writer_sync_def append_synced_def ensure_healthy_def)

interpretation writer: poisonable "writer_step C" writer_poisoned for C
  by unfold_locales (auto simp: writer_poisoned_def writer_step_def poisoned_refuses split: writer_op.split)

definition writer_failed :: "codec \<Rightarrow> framed \<Rightarrow> log_writer \<Rightarrow> bool" where
  "writer_failed C efs w \<longleftrightarrow>
     framed_ok C 0 genesis_hash efs \<and> (\<exists>p. torn C p \<and> sk_bytes (wr_inner w) = log_image efs p)"

lemma framed_ok_snoc:
  "framed_ok C n h (efs @ [(e, f)]) \<longleftrightarrow>
     framed_ok C n h efs \<and> links C (n + word_of_nat (length efs)) (if efs = [] then h else ev_this_hash (fst (last efs))) e \<and>
     checked_add (n + word_of_nat (length efs)) 1 \<noteq> None \<and> event_frame C e = Some f"
proof (induction efs arbitrary: n h)
  case Nil
  then show ?case by simp
next
  case (Cons ef efs)
  then show ?case by (cases ef) (auto simp: ac_simps)
qed

text \<open>The envelope an append adds to a log, for the hash it gets.\<close>

definition appended_envelope :: "codec \<Rightarrow> framed \<Rightarrow> envelope_in \<Rightarrow> blake3_hash \<Rightarrow> event_envelope" where
  "appended_envelope C efs i h = new_envelope (word_of_nat (length efs)) (cd_blake3 C (ei_payload i)) (last_hash efs) h i"

lemma appended_payload [simp]: "ev_payload (appended_envelope C efs i h) = ei_payload i"
  by (simp add: appended_envelope_def new_envelope_def)

definition grown_by :: "codec \<Rightarrow> framed \<Rightarrow> envelope_in \<Rightarrow> framed \<Rightarrow> bool" where
  "grown_by C efs i efs' \<longleftrightarrow> efs' = efs \<or> (\<exists>e f. efs' = efs @ [(e, f)] \<and> e = appended_envelope C efs i (ev_this_hash e))"

lemma grown_by_prefix: "grown_by C efs i efs' \<Longrightarrow> prefix efs efs'"
  by (auto simp: grown_by_def)

lemma append_cases:
  assumes w: "writer_holds C efs w" and run: "writer_append C i w = (res, w')"
  shows "(\<exists>e f. res = Inr (word_of_nat (length efs)) \<and> e = appended_envelope C efs i (ev_this_hash e) \<and>
              wr_last_hash w' = ev_this_hash e \<and> writer_holds C (efs @ [(e, f)]) w') \<or>
         (\<exists>err. res = Inl err \<and> writer_holds C efs w') \<or>
         (\<exists>err efs'. res = Inl err \<and> wr_poison_reason w' = Some PoisonAppend \<and> grown_by C efs i efs' \<and> writer_failed C efs' w')"
proof -
  let ?n = "word_of_nat (length efs) :: u64"
  have h: "wr_next_seq w = ?n" "wr_last_hash w = last_hash efs" "wr_poison_reason w = None"
    "sk_bytes (wr_inner w) = log_image efs []" "framed_ok C 0 genesis_hash efs"
    "wr_cursor w = word_of_nat (length (log_image efs []))"
    using w by (simp_all add: writer_holds_def)
  let ?prep = "rbind (ensure_healthy w) (\<lambda>_.
           rbind (ok_or LogSequenceOverflow (checked_add (wr_next_seq w) 1)) (\<lambda>next_seq.
           rbind (compute_hashes C (new_hash_input (wr_next_seq w) (wr_last_hash w) i)) (\<lambda>(raw, _, this_hash).
           rbind (map_err LogSerde (cd_to_vec C (new_envelope (wr_next_seq w) raw (wr_last_hash w) this_hash i))) (\<lambda>json.
             Inr (next_seq, this_hash, json)))))"
  show ?thesis
  proof (cases ?prep)
    case (Inl err)
    then have "res = Inl err" "w' = w" using run by (simp_all add: writer_append_def)
    then show ?thesis using w by blast
  next
    case (Inr x)
    then obtain next_seq this_hash json raw canon where x: "x = (next_seq, this_hash, json)"
      and fits: "checked_add ?n 1 = Some next_seq"
      and hashes: "compute_hashes C (new_hash_input ?n (last_hash efs) i) = Inr (raw, canon, this_hash)"
      and json: "cd_to_vec C (new_envelope ?n raw (last_hash efs) this_hash i) = Inr json"
      by (auto simp: result_simps h ensure_healthy_def)
    let ?e = "new_envelope ?n raw (last_hash efs) this_hash i"
    have raw: "raw = cd_blake3 C (ei_payload i)"
      using hashes by (auto simp: compute_hashes_def new_hash_input_def Let_def split: sum.splits)
    have "envelope_hash_input ?e = new_hash_input ?n (last_hash efs) i"
      by (simp add: envelope_hash_input_def new_envelope_def new_hash_input_def)
    then have link: "links C ?n (last_hash efs) ?e"
      using hashes raw by (auto simp: links_def new_envelope_def)
    have grow: "framed_ok C 0 genesis_hash (efs @ [(?e, f)])" if "frame_bytes C json = Some f" for f
      using that h(5) link fits json
      by (simp add: framed_ok_snoc event_frame_def last_hash_def split: if_splits)
    have next_seq: "next_seq = word_of_nat (Suc (length efs))"
      using fits by (auto simp: checked_add_def split: if_splits)
    obtain fr inner where wf: "write_frame C (wr_inner w) json = (fr, inner)" by (metis surj_pair)
    have run': "(res, w') = (case write_frame C (wr_inner w) json of
             (Inl e, inner) \<Rightarrow>
               (Inl e, let w' = w\<lparr>wr_inner := inner\<rparr> in
                       case e of LogIo _ \<Rightarrow> poison PoisonAppend w' | _ \<Rightarrow> w')
           | (Inr fb, inner) \<Rightarrow>
               (case checked_add (wr_cursor w) fb of
                  None \<Rightarrow>
                    (Inl (LogIo (IoError InvalidData ''event-log byte cursor overflowed'')),
                     poison PoisonAppend (w\<lparr>wr_inner := inner\<rparr>))
                | Some cursor \<Rightarrow>
                    (Inr (wr_next_seq w),
                     w\<lparr>wr_inner := inner, wr_cursor := cursor, wr_next_seq := next_seq, wr_last_hash := this_hash\<rparr>)))"
      using run Inr unfolding writer_append_def x by simp
    show ?thesis
    proof (cases fr)
      case (Inr n)
      then obtain f where f: "frame_bytes C json = Some f" "sk_bytes inner = sk_bytes (wr_inner w) @ f" "unat n = length f"
        using write_frame_cases [OF wf] by auto
      have image: "sk_bytes inner = log_image (efs @ [(?e, f)]) []" by (simp add: f h log_image_def)
      show ?thesis
      proof (cases "checked_add (wr_cursor w) n")
        case None
        then have "res = Inl (LogIo (IoError InvalidData ''event-log byte cursor overflowed''))"
          "w' = poison PoisonAppend (w\<lparr>wr_inner := inner\<rparr>)" using run' wf Inr by simp_all
        moreover have "writer_failed C (efs @ [(?e, f)]) (poison PoisonAppend (w\<lparr>wr_inner := inner\<rparr>))"
          using grow [OF f(1)] image by (simp add: writer_failed_def poison_def exI [of _ "[]"])
        moreover have "grown_by C efs i (efs @ [(?e, f)])"
          by (simp add: grown_by_def appended_envelope_def new_envelope_def raw)
        ultimately show ?thesis by (auto simp: poison_def)
      next
        case (Some cursor)
        then have res: "res = Inr ?n"
          and w': "w' = w\<lparr>wr_inner := inner, wr_cursor := cursor, wr_next_seq := next_seq, wr_last_hash := this_hash\<rparr>"
          using run' wf Inr h(1) by simp_all
        have "cursor = wr_cursor w + n" using Some by (auto simp: checked_add_def split: if_splits)
        moreover have "n = word_of_nat (length f)" by (simp flip: f(3))
        ultimately have "cursor = word_of_nat (length (log_image (efs @ [(?e, f)]) []))"
          using h(6) by simp
        then have "writer_holds C (efs @ [(?e, f)]) w'"
          using grow [OF f(1)] image next_seq h(3) by (simp add: writer_holds_def w' last_hash_def new_envelope_def)
        moreover have "?e = appended_envelope C efs i (ev_this_hash ?e)" "wr_last_hash w' = ev_this_hash ?e"
          by (simp_all add: appended_envelope_def new_envelope_def w' raw)
        ultimately show ?thesis using res by blast
      qed
    next
      case (Inl err)
      show ?thesis
      proof (cases "\<exists>io. err = LogIo io")
        case True
        then obtain io where io: "err = LogIo io" by blast
        with Inl obtain f p where f: "frame_bytes C json = Some f" "strict_prefix p f" "sk_bytes inner = sk_bytes (wr_inner w) @ p"
          using write_frame_cases [OF wf] by auto
        have "res = Inl err" "w' = poison PoisonAppend (w\<lparr>wr_inner := inner\<rparr>)" using run' wf Inl io by simp_all
        moreover have "writer_failed C efs (poison PoisonAppend (w\<lparr>wr_inner := inner\<rparr>))"
          using f h by (auto simp: writer_failed_def poison_def torn_def log_image_def)
        moreover have "grown_by C efs i efs" by (simp add: grown_by_def)
        ultimately show ?thesis by (auto simp: poison_def)
      next
        case False
        then have "inner = wr_inner w" using write_frame_cases [OF wf] Inl by (cases err) auto
        then have "res = Inl err" "w' = w" using run' wf Inl False by (cases err; simp)+
        then show ?thesis using w by blast
      qed
    qed
  qed
qed

lemma holds_failed:
  "writer_holds C efs w \<Longrightarrow> writer_failed C efs (poison reason w) \<and> writer_poisoned (poison reason w)"
  by (auto simp: writer_holds_def writer_failed_def writer_poisoned_def poison_def intro!: exI [of _ "[]"])

lemma flush_cases:
  assumes "writer_holds C efs w" "writer_flush answer w = (res, w')"
  shows "res = Inr () \<and> w' = w \<or> (\<exists>err. res = Inl err) \<and> writer_failed C efs w' \<and> writer_poisoned w'"
  using assms holds_failed [OF assms(1)]
  by (auto simp: writer_flush_def ensure_healthy_def writer_holds_def split: option.splits)

lemma sync_cases:
  assumes "writer_holds C efs w" "writer_sync flushed synced w = (res, w')"
  shows "res = Inr () \<and> w' = w \<or> (\<exists>err. res = Inl err) \<and> writer_failed C efs w' \<and> writer_poisoned w'"
proof -
  obtain r1 w1 where f: "writer_flush flushed w = (r1, w1)" by (metis surj_pair)
  from flush_cases [OF assms(1) f] show ?thesis
    using assms f holds_failed [OF assms(1)] by (auto simp: writer_sync_def split: option.splits)
qed

lemma append_synced_cases:
  assumes w: "writer_holds C efs w" and run: "append_synced C flushed synced i w = (res, w')"
  shows "(\<exists>e f. res = Inr \<lparr>ar_sequence = word_of_nat (length efs), ar_this_hash = ev_this_hash e\<rparr> \<and>
              e = appended_envelope C efs i (ev_this_hash e) \<and> writer_holds C (efs @ [(e, f)]) w') \<or>
         (\<exists>err efs'. res = Inl err \<and> grown_by C efs i efs' \<and>
              (writer_holds C efs' w' \<or> writer_poisoned w' \<and> writer_failed C efs' w'))"
proof -
  obtain r1 w1 where a: "writer_append C i w = (r1, w1)" by (metis surj_pair)
  obtain r2 w2 where s: "writer_sync flushed synced w1 = (r2, w2)" by (metis surj_pair)
  from append_cases [OF w a] show ?thesis
  proof (elim disjE exE conjE)
    fix e f
    assume ok: "r1 = Inr (word_of_nat (length efs))" "e = appended_envelope C efs i (ev_this_hash e)" "wr_last_hash w1 = ev_this_hash e"
      "writer_holds C (efs @ [(e, f)]) w1"
    from sync_cases [OF ok(4) s] show ?thesis
    proof
      assume "r2 = Inr () \<and> w2 = w1"
      then show ?thesis using run a s ok by (auto simp: append_synced_def)
    next
      assume *: "(\<exists>err. r2 = Inl err) \<and> writer_failed C (efs @ [(e, f)]) w2 \<and> writer_poisoned w2"
      then obtain err where "r2 = Inl err" by blast
      then have "res = Inl err" "w' = w2" using run a s ok by (simp_all add: append_synced_def)
      moreover have "grown_by C efs i (efs @ [(e, f)])" using ok(2) by (simp add: grown_by_def)
      ultimately show ?thesis using * by (intro disjI2 exI [of _ err] exI [of _ "efs @ [(e, f)]"]) simp
    qed
  next
    fix err
    assume "r1 = Inl err" "writer_holds C efs w1"
    then show ?thesis using run a by (auto simp: append_synced_def grown_by_def)
  next
    fix err efs'
    assume "r1 = Inl err" "wr_poison_reason w1 = Some PoisonAppend" "grown_by C efs i efs'" "writer_failed C efs' w1"
    then show ?thesis using run a by (auto simp: append_synced_def writer_poisoned_def)
  qed
qed

definition writer_grown :: "codec \<Rightarrow> framed \<Rightarrow> log_writer \<Rightarrow> bool" where
  "writer_grown C efs w \<longleftrightarrow>
     (\<exists>efs'. prefix efs efs' \<and> (writer_holds C efs' w \<or> writer_poisoned w \<and> writer_failed C efs' w))"

lemma writer_grownI:
  "writer_holds C (efs @ xs) w \<Longrightarrow> writer_grown C efs w"
  "writer_holds C efs w \<Longrightarrow> writer_grown C efs w"
  "writer_poisoned w \<Longrightarrow> writer_failed C efs w \<Longrightarrow> writer_grown C efs w"
  "prefix efs efs' \<Longrightarrow> writer_poisoned w \<Longrightarrow> writer_failed C efs' w \<Longrightarrow> writer_grown C efs w"
  "prefix efs efs' \<Longrightarrow> writer_holds C efs' w \<Longrightarrow> writer_grown C efs w"
  unfolding writer_grown_def by (meson prefixI prefix_order.refl)+

lemma holds_step:
  assumes "writer_holds C efs w"
  shows "writer_grown C efs (writer_step C op w)"
proof (cases op)
  case (OpAppend i)
  then show ?thesis
    using append_cases [OF assms, of i "fst (writer_append C i w)" "snd (writer_append C i w)"]
    by (auto simp: writer_step_def writer_poisoned_def intro: writer_grownI dest: grown_by_prefix)
next
  case (OpFlush answer)
  then show ?thesis
    using flush_cases [OF assms, of answer "fst (writer_flush answer w)" "snd (writer_flush answer w)"] assms
    by (auto simp: writer_step_def intro: writer_grownI dest: grown_by_prefix)
next
  case (OpSync flushed synced)
  then show ?thesis
    using sync_cases [OF assms, of flushed synced "fst (writer_sync flushed synced w)" "snd (writer_sync flushed synced w)"] assms
    by (auto simp: writer_step_def intro: writer_grownI dest: grown_by_prefix)
next
  case (OpAppendSynced flushed synced i)
  then show ?thesis
    using append_synced_cases [OF assms, of flushed synced i "fst (append_synced C flushed synced i w)"
        "snd (append_synced C flushed synced i w)"]
    by (auto simp: writer_step_def intro: writer_grownI dest: grown_by_prefix)
qed

lemma holds_history:
  assumes "writer_holds C efs w"
  shows "writer_grown C efs (fold (writer_step C) ops w)"
  unfolding writer_grown_def using assms
  by (rule writer.run_invariant [where healthy = "writer_holds C" and final = "writer_failed C" and grows = prefix])
    (use holds_step in \<open>auto simp: writer_grown_def writer_poisoned_def writer_holds_def intro: prefix_order.trans\<close>)

lemma prefix_image: "prefix efs efs' \<Longrightarrow> prefix (log_image efs []) (log_image efs' p)"
  by (auto simp: prefix_def log_image_def)

lemma grown_image:
  assumes "writer_grown C efs w"
  obtains efs' p where "prefix efs efs'" "framed_ok C 0 genesis_hash efs'" "torn C p" "sk_bytes (wr_inner w) = log_image efs' p"
    "\<not> writer_poisoned w \<longrightarrow> p = [] \<and> wr_next_seq w = word_of_nat (length efs')"
proof -
  from assms obtain efs' where efs': "prefix efs efs'" "writer_holds C efs' w \<or> writer_poisoned w \<and> writer_failed C efs' w"
    by (auto simp: writer_grown_def)
  from efs'(2) show ?thesis
  proof
    assume "writer_holds C efs' w"
    then show ?thesis by (intro that [of efs' "[]"] efs') (auto simp: writer_holds_def)
  next
    assume "writer_poisoned w \<and> writer_failed C efs' w"
    then show ?thesis using that efs'(1) by (auto simp: writer_failed_def)
  qed
qed

lemma cut_keeps_prefix:
  assumes "prefix efs1 efs2" "length (frames_of efs1) \<le> n" "k < length efs2 \<longrightarrow> n < length (frames_of (take (Suc k) efs2))"
    "k \<le> length efs2"
  shows "length efs1 \<le> k"
proof (rule ccontr)
  assume "\<not> length efs1 \<le> k"
  then have "Suc k \<le> length efs1" by simp
  moreover have "length efs1 \<le> length efs2" using assms(1) by (rule prefix_length_le)
  ultimately have "take (Suc k) efs2 = take (Suc k) efs1" and "k < length efs2"
    using assms(1) by (auto simp: prefix_def)
  moreover have "efs1 = take (Suc k) efs1 @ drop (Suc k) efs1" by simp
  ultimately have "length (frames_of (take (Suc k) efs2)) \<le> length (frames_of efs1)" by (metis frames_of_simps(3) le_add1 length_append)
  with assms \<open>k < length efs2\<close> show False by simp
qed

lemma offsets_events [simp]: "map snd (offsets_from off efs) = map fst efs"
  by (induction efs arbitrary: off) auto

lemma offsets_length [simp]: "length (offsets_from off efs) = length efs"
  by (induction efs arbitrary: off) auto

end
