(* ===== verification/Event_Properties.thy ===== *)
theory Event_Properties
  imports Event_Images
begin

section \<open>What the event log guarantees\<close>

text \<open>
  Durability (an acknowledged event survives any crash after its synchronization, recovery keeps
  exactly the whole frames), integrity (a verified tail commits to the whole log, a trusted prefix is
  never cut), the writer's history under arbitrary I/O faults, and the round trips of frames and
  receipts.
\<close>

subsection \<open>Durability\<close>

text \<open>C2. An acknowledged event survives. If a synchronized append returned its receipt, then after any later
  operations, and a crash that leaves any part of the file from the synchronized bytes on, opening
  the file recovers, and a scan of the recovered file shows, at the sequence number of the receipt, an
  event with the appended payload and the hash of the receipt.\<close>

theorem acknowledged_event_survives:
  assumes laws: "codec_laws C" and start: "writer_holds C efs w"
    and ack: "append_synced C flushed synced i w = (Inr receipt, w1)"
    and later: "w2 = fold (writer_step C) ops w1" and small: "length (sk_bytes (wr_inner w2)) < 2 ^ 64"
    and crash: "length (sk_bytes (wr_inner w1)) \<le> n" "lf_data F = take n (sk_bytes (wr_inner w2))"
    and F: "plain_file F" and os: "os_healthy os"
  shows "\<exists>w3 bytes. writer_open C os F = (Inr w3, bytes) \<and>
    (let events = map snd (snd (walk_locked C (F\<lparr>lf_data := bytes\<rparr>) (walk_request_from None)));
         k = unat (ar_sequence receipt) in
     k < length events \<and> ev_payload (events ! k) = ei_payload i \<and> ev_this_hash (events ! k) = ar_this_hash receipt)"
proof -
  obtain e f where receipt: "receipt = \<lparr>ar_sequence = word_of_nat (length efs), ar_this_hash = ev_this_hash e\<rparr>"
    and payload: "ev_payload e = ei_payload i" and w1: "writer_holds C (efs @ [(e, f)]) w1"
    using append_synced_cases [OF start ack] by (auto, metis appended_payload)
  let ?efs1 = "efs @ [(e, f)]"
  have bytes1: "sk_bytes (wr_inner w1) = log_image ?efs1 []" using w1 by (simp add: writer_holds_def)
  obtain efs2 p where efs2: "prefix ?efs1 efs2" "framed_ok C 0 genesis_hash efs2" "torn C p"
    "sk_bytes (wr_inner w2) = log_image efs2 p"
    using holds_history [OF w1, of ops] unfolding later by (rule grown_image)
  have cut: "5 \<le> n" using crash(1) bytes1 by simp
  obtain k w3 where k: "k \<le> length efs2" "k < length efs2 \<longrightarrow> n < length (log_image (take (Suc k) efs2) [])"
    and w3: "writer_open C os F = (Inr w3, log_image (take k efs2) [])" "writer_holds C (take k efs2) w3"
    using reopen_cut [OF laws efs2(2,3) _ cut F _ os] crash(2) small efs2(4) by auto
  have long: "length ?efs1 \<le> k"
    by (rule cut_keeps_prefix [OF efs2(1), of "n - 5"]) (use crash(1) bytes1 k in auto)
  let ?F = "F\<lparr>lf_data := log_image (take k efs2) []\<rparr>"
  have "framed_ok C 0 genesis_hash (take k efs2)" using efs2(2) by (rule framed_ok_take)
  then obtain path where walk: "snd (walk_locked C ?F (walk_request_from None)) = offsets_from HEADER_LEN (take k efs2)"
    using walk_image [OF laws _ torn_Nil, of "take k efs2" ?F] F by (auto simp: plain_file_def)
  have "efs2 ! length efs = (e, f)" using efs2(1) by (auto simp: prefix_def nth_append)
  moreover have "unat (word_of_nat (length efs) :: u64) = length efs"
    by (rule unat_u64_of_nat) (use framed_ok_count [OF efs2(2)] long k in simp)
  ultimately show ?thesis
    using w3(1) long k payload by (auto simp: receipt walk Let_def)
qed

text \<open>C3. Crash recovery. Take the file of any log of linked frames, possibly ending in a torn frame, and cut
  it at any byte after the header. Opening what is left for writing succeeds, keeps exactly the
  frames that lie wholly before the cut, removes the rest, and continues the chain after the last of
  them.\<close>

theorem crash_recovery:
  assumes laws: "codec_laws C" and log: "framed_ok C 0 genesis_hash efs" "torn C p"
    and small: "length (log_image efs p) < 2 ^ 64" and cut: "5 \<le> n"
    and F: "plain_file F" "lf_data F = take n (log_image efs p)" and os: "os_healthy os"
  shows "\<exists>k w. k \<le> length efs \<and> length (log_image (take k efs) []) \<le> n \<and>
    (k < length efs \<longrightarrow> n < length (log_image (take (Suc k) efs) [])) \<and>
    writer_open C os F = (Inr w, log_image (take k efs) []) \<and> writer_holds C (take k efs) w"
  using assms by (rule reopen_cut)

text \<open>C24. Whatever I/O faults its operations meet, the bytes a writer has handed over are a log of linked
  frames that extends the one it started from, followed by at most one torn frame; a writer that is
  not poisoned has no torn frame and counts the frames exactly.\<close>

theorem writer_history_linked:
  assumes "writer_holds C efs w"
  shows "\<exists>efs' p. prefix efs efs' \<and> framed_ok C 0 genesis_hash efs' \<and> torn C p \<and>
    sk_bytes (wr_inner (fold (writer_step C) ops w)) = log_image efs' p \<and>
    (wr_poison_reason (fold (writer_step C) ops w) = None \<longrightarrow>
       p = [] \<and> wr_next_seq (fold (writer_step C) ops w) = word_of_nat (length efs'))"
proof -
  obtain efs' p where "prefix efs efs'" "framed_ok C 0 genesis_hash efs'" "torn C p"
    "sk_bytes (wr_inner (fold (writer_step C) ops w)) = log_image efs' p"
    "\<not> writer_poisoned (fold (writer_step C) ops w) \<longrightarrow>
       p = [] \<and> wr_next_seq (fold (writer_step C) ops w) = word_of_nat (length efs')"
    using holds_history [OF assms, of ops] by (rule grown_image)
  then show ?thesis by (intro exI [of _ efs'] exI [of _ p]) (simp add: writer_poisoned_def)
qed

subsection \<open>What a verified tail commits to\<close>

text \<open>
  What the chain relies on: a hash is 32 bytes, and the canonical field text, a JSON object, is
  self-delimiting and determines the fields.
\<close>

definition canonical_laws :: "codec \<Rightarrow> bool" where
  "canonical_laws C \<longleftrightarrow>
     (\<forall>x. length (cd_blake3 C x) = 32) \<and>
     (\<forall>f g a b x y. cd_canonical C f = Inr a \<longrightarrow> cd_canonical C g = Inr b \<longrightarrow> a @ x = b @ y \<longrightarrow> f = g \<and> x = y)"










text \<open>C25. One frame: what \<open>write_frame\<close> wrote is read back as the same text from the same bytes, whatever follows;
  and if the file ends inside it, the read reports a truncated frame, never a corrupt one.\<close>

theorem frame_roundtrip:
  assumes laws: "codec_laws C" and wrote: "write_frame C w json = (Inr n, w')"
    and at: "rd_pos r = length (sk_bytes w)"
  shows "(prefix (sk_bytes w') (rd_data r) \<longrightarrow>
            read_frame_observed C r off = Inr (Some (json, drop (length (sk_bytes w)) (sk_bytes w'), advance (unat n) r))) \<and>
    (strict_prefix (rd_data r) (sk_bytes w') \<longrightarrow> length (sk_bytes w) < length (rd_data r) \<longrightarrow> rd_end r = None \<longrightarrow>
            read_frame_observed C r off = Inl (FrameTruncated off))"
proof -
  obtain f where f: "frame_bytes C json = Some f" "sk_bytes w' = sk_bytes w @ f" "unat n = length f"
    using write_frame_cases [OF wrote] by auto
  have "read_frame_observed C r off = Inr (Some (json, f, advance (length f) r))" if "prefix (sk_bytes w') (rd_data r)"
  proof -
    from that obtain zs where "rd_data r = sk_bytes w @ f @ zs" by (auto simp: prefix_def f(2))
    then show ?thesis by (intro read_frame_ok [OF laws f(1)]) (simp add: rd_rest_def at)
  qed
  moreover have "read_frame_observed C r off = Inl (FrameTruncated off)"
    if cut: "strict_prefix (rd_data r) (sk_bytes w')" "length (sk_bytes w) < length (rd_data r)" "rd_end r = None"
  proof -
    from cut(1) [unfolded f(2)] obtain p where p: "rd_data r = sk_bytes w @ p" "strict_prefix p f"
    proof (rule strict_prefix_append_cases)
      assume "strict_prefix (rd_data r) (sk_bytes w)"
      from prefix_length_less [OF this] cut(2) show ?thesis by simp
    qed
    have "p \<noteq> []" "rd_rest r = p" using cut(2) by (auto simp: p(1) rd_rest_def at)
    then show ?thesis using read_frame_torn [OF laws f(1) p(2) _ _ cut(3)] by blast
  qed
  ultimately show ?thesis using f by simp
qed

subsection \<open>Receipts\<close>

lemma i64_roundtrip: "is_i64 x \<Longrightarrow> i64_from_le_bytes (i64_le_bytes x) = x"
proof -
  assume x: "is_i64 x"
  have "nat (x mod 2 ^ 64) < 256 ^ 8" by (simp add: nat_less_iff)
  from le_value_le_bytes [OF this] have "int (le_value (i64_le_bytes x)) = x mod 2 ^ 64" by (simp add: i64_le_bytes_def)
  moreover have "x mod 2 ^ 64 = (if x < 0 then x + 2 ^ 64 else x)"
  proof (cases "x < 0")
    case True
    then have "x mod 2 ^ 64 = (x + 2 ^ 64) mod 2 ^ 64" by simp
    also have "\<dots> = x + 2 ^ 64" using x True by (intro mod_pos_pos_trivial) (simp_all add: is_i64_def)
    finally show ?thesis using True by simp
  next
    case False
    then show ?thesis using x by (simp add: is_i64_def)
  qed
  ultimately show ?thesis using x by (auto simp: i64_from_le_bytes_def Let_def is_i64_def)
qed

lemma u64_le_roundtrip: "(word_of_nat (le_value (le_bytes 8 (unat (x :: u64)))) :: u64) = x"
proof -
  have "unat x < 256 ^ 8" using unat_less_len [of x] by simp
  from le_value_le_bytes [OF this] show ?thesis by simp
qed

text \<open>C35. A receipt record is 80 bytes and is read back exactly, with the sequence number the caller supplies,
  as long as its offset is not the sentinel that stands for no offset.\<close>

theorem receipt_roundtrip:
  assumes hash: "\<And>x. length (cd_blake3 C x) = 32" "length (ar_this_hash (rr_receipt rec)) = 32"
    and millis: "is_i64 (rr_received_millis rec)" and offset: "rr_byte_offset rec \<noteq> Some (- 1)"
    and r: "rd_rest r = receipt_encode C rec @ following"
  shows "length (receipt_encode C rec) = unat RECEIPT_RECORD_LEN \<and>
    receipt_read C r (ar_sequence (rr_receipt rec)) = Inr (rec, advance 80 r)"
proof -
  let ?h = "ar_this_hash (rr_receipt rec)" and ?m = "i64_le_bytes (rr_received_millis rec)"
    and ?o = "le_bytes 8 (unat (case rr_byte_offset rec of None \<Rightarrow> - 1 | Some off \<Rightarrow> off))"
  let ?body = "?h @ ?m @ ?o"
  have len: "length ?m = 8" by (simp add: i64_le_bytes_def)
  have enc: "receipt_encode C rec = ?body @ cd_blake3 C ?body" by (simp add: receipt_encode_def)
  have l80: "length (receipt_encode C rec) = 80" by (simp add: enc hash len)
  have read: "read_exact r 80 = Inr (receipt_encode C rec, advance 80 r)" using l80 by (simp add: read_exact_def r)
  have parts: "take 48 (receipt_encode C rec) = ?body" "drop 48 (receipt_encode C rec) = cd_blake3 C ?body"
    "take 32 (receipt_encode C rec) = ?h" "take 8 (drop 32 (receipt_encode C rec)) = ?m"
    "take 8 (drop 40 (receipt_encode C rec)) = ?o"
    by (simp_all add: enc hash len)
  have "rec = \<lparr>rr_receipt = \<lparr>ar_sequence = ar_sequence (rr_receipt rec), ar_this_hash = ?h\<rparr>,
      rr_received_millis = rr_received_millis rec,
      rr_byte_offset = (if (case rr_byte_offset rec of None \<Rightarrow> - 1 | Some off \<Rightarrow> off) = - 1 then None
                        else Some (case rr_byte_offset rec of None \<Rightarrow> - 1 | Some off \<Rightarrow> off))\<rparr>"
    using offset by (intro receipt_record.equality) (auto split: option.splits)
  then show ?thesis
    using l80 by (simp add: receipt_read_def read parts Let_def u64_le_roundtrip i64_roundtrip [OF millis] RECEIPT_RECORD_LEN_def)
qed

text \<open>C26. Poisoning is final: a writer that is poisoned at the end of a history was poisoned by one operation of it,
  was healthy before, and neither its bytes nor any field changed afterwards; every further
  operation is refused with the reason.\<close>

theorem poisoning_is_final:
  assumes "wr_poison_reason w = None" "wr_poison_reason (fold (writer_step C) ops w) = Some reason"
  shows "(\<exists>before op after. ops = before @ op # after \<and> wr_poison_reason (fold (writer_step C) before w) = None \<and>
      fold (writer_step C) ops w = writer_step C op (fold (writer_step C) before w)) \<and>
    (\<forall>i. writer_append C i (fold (writer_step C) ops w) = (Inl (LogPoisoned reason), fold (writer_step C) ops w))"
proof -
  have "\<not> writer_poisoned w" "writer_poisoned (fold (writer_step C) ops w)"
    using assms by (simp_all add: writer_poisoned_def)
  then obtain before op after where "ops = before @ op # after" "\<not> writer_poisoned (fold (writer_step C) before w)"
    "fold (writer_step C) ops w = writer_step C op (fold (writer_step C) before w)"
    by (rule writer.first_poisoning)
  then show ?thesis using poisoned_refuses(1) [OF assms(2)] by (auto simp: writer_poisoned_def)
qed

subsection \<open>Repair never reaches into a trusted prefix\<close>

definition reached :: "log_tail_binding \<Rightarrow> prefix_tracker \<Rightarrow> scan_state \<Rightarrow> bool" where
  "reached b t st \<longleftrightarrow> pt_expected t = Some b \<and> (pt_matched t \<longrightarrow> tb_physical_tail b \<le> ss_physical_tail st)"

lemma reached_observe: "reached b t st \<Longrightarrow> reached b (tracker_observe st t) st"
  by (auto simp: reached_def tracker_observe_def)

lemma reached_mono: "reached b t st \<Longrightarrow> ss_physical_tail st \<le> ss_physical_tail st' \<Longrightarrow> reached b t st'"
  by (auto simp: reached_def)

lemma matched_reached: "reached b t st \<Longrightarrow> tracker_verdict t st = PrefixMatched \<Longrightarrow> tb_physical_tail b \<le> ss_physical_tail st"
  by (auto simp: reached_def tracker_verdict_def split: if_splits)

lemma frame_tail_grows:
  assumes step: "read_verified_frame_observed C r st = Inr (StepFrame e, raw, st', r')"
    and pos: "rd_pos r = unat (ss_physical_tail st)" and small: "length (rd_data r) < 2 ^ 64"
  shows "ss_physical_tail st \<le> ss_physical_tail st' \<and> rd_pos r' = unat (ss_physical_tail st') \<and> rd_data r' = rd_data r"
proof -
  from read_verified_frame_StepFrame [OF step] obtain json where
    f: "read_frame_observed C r (ss_physical_tail st) = Inr (Some (json, raw, r'))"
    and st': "ss_physical_tail st' = stream_position r'" by (metis scan_state.select_convs(3))
  note r' = read_frame_Some [OF f]
  have "length raw \<le> length (rd_data r) - rd_pos r" "8 \<le> length raw" using r' by (auto simp: rd_rest_def)
  then have "rd_pos r' < 2 ^ 64" "rd_pos r \<le> rd_pos r'" using r' small by auto
  then have "unat (ss_physical_tail st') = rd_pos r'" by (simp add: st' stream_position_def unat_u64_of_nat)
  with r' pos \<open>rd_pos r \<le> rd_pos r'\<close> show ?thesis by (simp add: word_le_nat_alt)
qed

lemma walk_loop_reached:
  assumes "walk_loop C boundary path rr t retention st r = (Inr (outcome, PrefixMatched), seen)"
    and "reached b t st" "rd_pos r = unat (ss_physical_tail st)" "length (rd_data r) < 2 ^ 64"
  shows "tb_physical_tail b \<le> tb_physical_tail (so_verified_tail outcome)"
  using assms
proof (induction C boundary path rr t retention st r arbitrary: seen rule: walk_loop.induct)
  case (1 C boundary path rr t retention st r)
  have fin: "tb_physical_tail b \<le> tb_physical_tail (so_verified_tail outcome)"
    if "finish_walk rr retention path st inc v' = Inr (outcome, PrefixMatched)" "v' = tracker_verdict t st" for inc v'
    using that matched_reached [OF 1(3)] by (auto simp: finish_walk_def result_simps tail_binding_def)
  show ?case
  proof (cases "if boundary = ExpectedPrefix then verdict_before_read t st else None")
    case (Some v')
    then have "v' = tracker_verdict t st" by (auto simp: verdict_before_read_def split: if_splits option.splits)
    then show ?thesis using 1(2) fin Some by (subst (asm) walk_loop.simps) auto
  next
    case None
    show ?thesis
    proof (cases "read_verified_frame_observed C r st")
      case (Inl err)
      then show ?thesis using 1(2) None by (subst (asm) walk_loop.simps) simp
    next
      case (Inr x)
      obtain step raw st' r' where x: "x = (step, raw, st', r')" by (metis surj_pair)
      show ?thesis
      proof (cases step)
        case (StepFrame e)
        define W where "W = walk_loop C boundary path rr (tracker_observe st' t) (tracker_observe st' retention) st' r'"
        have "walk_loop C boundary path rr t retention st r = (fst W, (ss_physical_tail st, e) # snd W)"
          by (subst walk_loop.simps) (simp add: None Inr x StepFrame W_def case_prod_beta Let_def)
        then have w: "W = (Inr (outcome, PrefixMatched), snd W)" using 1(2) by (metis prod.collapse prod.inject)
        note grow = frame_tail_grows [OF Inr [unfolded x StepFrame] 1(4,5)]
        have "reached b (tracker_observe st' t) st'" using 1(3) grow reached_mono reached_observe by blast
        with 1(1) [OF None Inr] x StepFrame w grow 1(5) show ?thesis unfolding W_def by simp
      next
        case StepEof
        then show ?thesis using 1(2) None Inr x fin by (subst (asm) walk_loop.simps) auto
      next
        case (StepIncomplete i)
        then show ?thesis using 1(2) None Inr x fin by (subst (asm) walk_loop.simps) auto
      qed
    qed
  qed
qed

lemma walk_locked_reached:
  assumes walk: "walk_locked C F (walk_request_from (Some b)) = (Inr (outcome, PrefixMatched), seen)"
    and small: "length (lf_data F) < 2 ^ 64"
  shows "tb_physical_tail b \<le> tb_physical_tail (so_verified_tail outcome)"
proof -
  from walk obtain path r0 authority where path: "lf_canonical F = Inr path"
    and header: "verify_file_header (lf_path F) (file_reader F) = Inr r0" and authority: "lf_authority F = Inr authority"
    by (auto simp: walk_locked_def Let_def result_simps split: sum.splits)
  let ?st = "fresh_state authority" and ?t = "tracker_new (Some b) path"
  obtain t rr retention where t: "reached b t ?st"
    and loop: "walk_loop C PhysicalEof path rr (tracker_observe ?st t) retention ?st (seek (ss_physical_tail ?st) r0) =
      (Inr (outcome, PrefixMatched), seen)"
  proof (cases authority)
    case None
    have "reached b ?t ?st" by (simp add: reached_def tracker_new_def)
    with that walk None show ?thesis
      by (auto simp: walk_locked_def walk_request_from_def Let_def result_simps path header authority split: sum.splits)
  next
    case (Some a)
    have "reached b (?t\<lparr>pt_matched := (tb_physical_tail b \<le> rb_offset (ra_boundary a))\<rparr>) ?st"
      by (simp add: reached_def tracker_new_def Some fresh_state_def at_frame_def)
    with that walk Some show ?thesis
      by (auto simp: walk_locked_def walk_request_from_def Let_def result_simps path header authority split: sum.splits)
  qed
  have "reached b (tracker_observe ?st t) ?st" using t by (rule reached_observe)
  moreover have "rd_data r0 = lf_data F"
    using header by (auto simp: verify_file_header_def file_reader_def read_exact_def split: if_splits)
  ultimately show ?thesis
    using walk_loop_reached [OF loop] small by (simp add: seek_def)
qed

text \<open>C23. Opening under a trusted prefix never removes a byte of it: whatever the log holds, whatever the retention
  authority says and whatever the operating system answers, and whether the open succeeds or fails,
  the bytes of the file up to the trusted tail are the same before and after.\<close>

theorem trusted_prefix_kept:
  assumes run: "open_verified C os F (Some b) = (res, seen, bytes)" and small: "length (lf_data F) < 2 ^ 64"
  shows "take (unat (tb_physical_tail b)) bytes = take (unat (tb_physical_tail b)) (lf_data F)"
proof (cases "bytes = lf_data F")
  case True
  then show ?thesis by simp
next
  case False
  with run obtain scan v where "fst (walk_locked C F (walk_request_from (Some b))) = Inr (scan, v)"
      "snd (walk_locked C F (walk_request_from (Some b))) = seen"
    and fin: "snd (finish_verified_open os F scan v True) = bytes"
    by (auto simp: open_verified_def case_prod_beta Let_def split: sum.splits if_splits prod.splits)
  then have walk: "walk_locked C F (walk_request_from (Some b)) = (Inr (scan, v), seen)" by (metis prod.collapse)
  from fin False have inc: "so_incomplete_tail scan \<noteq> None" and v: "v = PrefixMatched"
    and bytes: "bytes = take (unat (tb_physical_tail (so_verified_tail scan))) (lf_data F)"
    by (auto simp: finish_verified_open_def repair_and_attach_def Let_def case_prod_beta split: sum.splits option.splits if_splits)
  have "tb_physical_tail b \<le> tb_physical_tail (so_verified_tail scan)"
    using walk_locked_reached [OF walk [unfolded v] small] .
  then show ?thesis by (simp add: bytes word_le_nat_alt min_def)
qed


subsection \<open>Witnesses\<close>

text \<open>A codec that satisfies the laws, one event, its frame, and a file that holds it.\<close>

definition sample_input :: envelope_in where
  "sample_input = \<lparr>ei_source_id = ''s'', ei_schema_version = 1, ei_parser_version = 1, ei_observed_at = 0,
     ei_received_at = 0, ei_content_type = ContentJson, ei_payload = [42]\<rparr>"

definition sample_hash :: blake3_hash where "sample_hash = replicate 32 9"

definition sample_event :: event_envelope where
  "sample_event = new_envelope 0 sample_hash genesis_hash sample_hash sample_input"

definition sample_fields :: canonical_fields where
  "sample_fields = \<lparr>cf_content_type = ContentJson, cf_observed_at = 0, cf_parser_version = 1, cf_prev_hash = [],
     cf_raw_payload_hash = [], cf_received_at = 0, cf_schema_version = 1, cf_seq = 0, cf_source_id = ''s''\<rparr>"

definition sample_codec :: codec where
  "sample_codec = \<lparr>cd_blake3 = (\<lambda>_. sample_hash), cd_to_hex = (\<lambda>_. []), cd_crc32 = (\<lambda>_. 7),
     cd_encode_all = (\<lambda>_ x. Inr x), cd_decode_all = (\<lambda>x. Inr x), cd_single_frame = (\<lambda>_. None),
     cd_canonical = (\<lambda>f. if f = sample_fields then Inr [123] else Inl ''unsupported''),
     cd_to_vec = (\<lambda>e. if e = sample_event then Inr [1] else Inl ''unsupported''),
     cd_from_slice = (\<lambda>b. if b = [1] then Inr sample_event else Inl ''unsupported'')\<rparr>"

definition sample_frame :: bytes where "sample_frame = [1, 0, 0, 0, 1, 7, 0, 0, 0]"

definition sample_log :: framed where "sample_log = [(sample_event, sample_frame)]"

definition sample_file :: "bytes \<Rightarrow> log_file" where
  "sample_file bs = \<lparr>lf_path = ''log'', lf_open_error = None, lf_canonical = Inr ''/log'', lf_data = bs, lf_fault = None,
     lf_authority = Inr None\<rparr>"

definition sample_os :: os_calls where
  "sample_os = \<lparr>os_open = None, os_lock = None, os_flush = None, os_sync = None, os_set_len = None, os_seek = None,
     os_sink = None\<rparr>"

definition sample_writer :: log_writer where
  "sample_writer = from_file ''log'' \<lparr>sk_bytes = log_image [] [], sk_fault = None\<rparr> 0 genesis_hash HEADER_LEN"

lemma sample_laws: "codec_laws sample_codec" "canonical_laws sample_codec"
  by (auto simp: codec_laws_def canonical_laws_def sample_codec_def sample_hash_def split: if_splits)

lemma sample_fields_bytes: "le_bytes 4 (Suc 0) = [1, 0, 0, 0]" "le_bytes 4 7 = [7, 0, 0, 0]"
  by code_simp+

lemma sample_frame_bytes: "frame_bytes sample_codec [1] = Some sample_frame"
  by (simp add: frame_bytes_def sample_codec_def sample_frame_def MAX_FRAME_BYTES_def sample_fields_bytes)

lemma sample_hashes:
  "compute_hashes sample_codec (new_hash_input 0 genesis_hash sample_input) = Inr (sample_hash, [123], sample_hash)"
  by (simp add: compute_hashes_def sample_codec_def new_hash_input_def sample_input_def sample_fields_def)

lemma sample_framed: "framed_ok sample_codec 0 genesis_hash sample_log"
proof -
  have "envelope_hash_input sample_event = new_hash_input 0 genesis_hash sample_input"
    by (simp add: envelope_hash_input_def sample_event_def new_envelope_def new_hash_input_def)
  then have "links sample_codec 0 genesis_hash sample_event"
    using sample_hashes by (simp add: links_def) (simp add: sample_event_def new_envelope_def sample_codec_def)
  moreover have "event_frame sample_codec sample_event = Some sample_frame"
    using sample_frame_bytes by (simp add: event_frame_def) (simp add: sample_codec_def)
  ultimately show ?thesis by (simp add: sample_log_def checked_add_def)
qed

lemma sample_plain: "plain_file (sample_file bs)" "os_healthy sample_os" "lf_data (sample_file bs) = bs"
  "lf_authority (sample_file bs) = Inr None"
  by (simp_all add: plain_file_def sample_file_def os_healthy_def sample_os_def)

lemma sample_holds: "writer_holds sample_codec [] sample_writer"
  by (simp add: writer_holds_def sample_writer_def from_file_def HEADER_LEN_def last_hash_def)

lemma sample_write: "write_frame sample_codec \<lparr>sk_bytes = bs, sk_fault = None\<rparr> [1] = (Inr 9, \<lparr>sk_bytes = bs @ sample_frame, sk_fault = None\<rparr>)"
  by (simp add: write_frame_def sample_codec_def MAX_FRAME_BYTES_def write_all_def after_write_def sample_frame_def sample_fields_bytes)

lemma sample_append:
  "writer_append sample_codec sample_input sample_writer =
    (Inr 0, sample_writer\<lparr>wr_inner := \<lparr>sk_bytes = log_image [] [] @ sample_frame, sk_fault = None\<rparr>, wr_cursor := 14,
       wr_next_seq := 1, wr_last_hash := sample_hash\<rparr>)"
proof -
  have v: "cd_to_vec sample_codec (new_envelope 0 sample_hash genesis_hash sample_hash sample_input) = Inr [1]"
    by (simp add: sample_codec_def sample_event_def)
  show ?thesis
    by (simp add: writer_append_def sample_writer_def from_file_def ensure_healthy_def sample_hashes v sample_write
        checked_add_def HEADER_LEN_def)
qed

lemma sample_ack:
  "append_synced sample_codec None None sample_input sample_writer =
    (Inr \<lparr>ar_sequence = 0, ar_this_hash = sample_hash\<rparr>, snd (writer_append sample_codec sample_input sample_writer))"
proof -
  have "wr_poison_reason sample_writer = None" by (simp add: sample_writer_def from_file_def)
  then show ?thesis by (simp add: append_synced_def sample_append writer_sync_def writer_flush_def ensure_healthy_def)
qed



theorem acknowledged_event_survives_witness:
  "\<exists>w3 bytes. writer_open sample_codec sample_os (sample_file (take 14 (log_image [] [] @ sample_frame))) = (Inr w3, bytes) \<and>
    (let events = map snd (snd (walk_locked sample_codec
                     ((sample_file (take 14 (log_image [] [] @ sample_frame)))\<lparr>lf_data := bytes\<rparr>) (walk_request_from None))) in
     0 < length events \<and> ev_payload (events ! 0) = [42] \<and> ev_this_hash (events ! 0) = sample_hash)"
proof -
  let ?w1 = "snd (writer_append sample_codec sample_input sample_writer)"
  have bytes: "sk_bytes (wr_inner ?w1) = log_image [] [] @ sample_frame" by (simp add: sample_append)
  have len: "length (log_image [] [] @ sample_frame) = 14" by (simp add: sample_frame_def)
  have "ei_payload sample_input = [42]" by (simp add: sample_input_def)
  with acknowledged_event_survives [OF sample_laws(1) sample_holds sample_ack, of ?w1 "[]" 14
      "sample_file (take 14 (log_image [] [] @ sample_frame))" sample_os]
  show ?thesis using bytes len sample_plain by (simp add: Let_def)
qed

theorem crash_recovery_witness:
  "\<exists>k w. k \<le> length sample_log \<and>
     writer_open sample_codec sample_os (sample_file (take 10 (log_image sample_log []))) =
       (Inr w, log_image (take k sample_log) []) \<and> writer_holds sample_codec (take k sample_log) w"
proof -
  have "length (log_image sample_log []) < 2 ^ 64" by (simp add: sample_log_def sample_frame_def)
  from crash_recovery [OF sample_laws(1) sample_framed torn_Nil this, of 10 "sample_file (take 10 (log_image sample_log []))" sample_os]
  show ?thesis using sample_plain by auto
qed

theorem writer_history_linked_witness:
  "\<exists>efs' p. framed_ok sample_codec 0 genesis_hash efs' \<and> torn sample_codec p \<and>
     sk_bytes (wr_inner (fold (writer_step sample_codec) [OpAppend sample_input] sample_writer)) = log_image efs' p"
  using writer_history_linked [OF sample_holds, of "[OpAppend sample_input]"] by blast

theorem poisoning_is_final_witness:
  "writer_append sample_codec sample_input
      (fold (writer_step sample_codec) [OpFlush (Some (IoError OtherKind [])), OpAppend sample_input] sample_writer) =
    (Inl (LogPoisoned PoisonFlush),
     fold (writer_step sample_codec) [OpFlush (Some (IoError OtherKind [])), OpAppend sample_input] sample_writer)"
proof -
  let ?ops = "[OpFlush (Some (IoError OtherKind [])), OpAppend sample_input]"
  have "wr_poison_reason sample_writer = None" by (simp add: sample_writer_def from_file_def)
  moreover from this have "wr_poison_reason (fold (writer_step sample_codec) ?ops sample_writer) = Some PoisonFlush"
    by (simp add: writer_step_def writer_flush_def ensure_healthy_def poison_def writer_append_def)
  ultimately show ?thesis using poisoning_is_final by blast
qed

theorem frame_roundtrip_witness:
  "write_frame sample_codec \<lparr>sk_bytes = [], sk_fault = None\<rparr> [1] = (Inr 9, \<lparr>sk_bytes = sample_frame, sk_fault = None\<rparr>) \<and>
   read_frame_observed sample_codec \<lparr>rd_data = sample_frame @ [5], rd_pos = 0, rd_end = None\<rparr> 0 =
     Inr (Some ([1], sample_frame, \<lparr>rd_data = sample_frame @ [5], rd_pos = 9, rd_end = None\<rparr>)) \<and>
   read_frame_observed sample_codec \<lparr>rd_data = take 6 sample_frame, rd_pos = 0, rd_end = None\<rparr> 0 = Inl (FrameTruncated 0)"
proof -
  have w: "write_frame sample_codec \<lparr>sk_bytes = [], sk_fault = None\<rparr> [1] = (Inr 9, \<lparr>sk_bytes = sample_frame, sk_fault = None\<rparr>)"
    using sample_write [of "[]"] by simp
  have "strict_prefix (take 6 sample_frame) sample_frame" by (rule strict_prefix_take) (simp add: sample_frame_def)
  with frame_roundtrip [OF sample_laws(1) w, of "\<lparr>rd_data = sample_frame @ [5], rd_pos = 0, rd_end = None\<rparr>" 0]
    frame_roundtrip [OF sample_laws(1) w, of "\<lparr>rd_data = take 6 sample_frame, rd_pos = 0, rd_end = None\<rparr>" 0] w
  show ?thesis by (simp add: advance_def) (simp add: sample_frame_def)
qed


theorem trusted_prefix_kept_witness:
  "take 14 (snd (snd (open_verified sample_codec sample_os (sample_file (log_image sample_log [1]))
      (Some \<lparr>tb_path = ''/log'', tb_physical_tail = 14, tb_last_sequence = Some 0, tb_last_hash = sample_hash\<rparr>)))) =
   take 14 (log_image sample_log [1])"
proof -
  let ?b = "\<lparr>tb_path = ''/log'', tb_physical_tail = 14, tb_last_sequence = Some 0, tb_last_hash = sample_hash\<rparr>"
    and ?F = "sample_file (log_image sample_log [1])"
  let ?x = "open_verified sample_codec sample_os ?F (Some ?b)"
  have run: "?x = (fst ?x, fst (snd ?x), snd (snd ?x))" by simp
  have small: "length (lf_data ?F) < 2 ^ 64" by (simp add: sample_plain sample_log_def sample_frame_def)
  show ?thesis using trusted_prefix_kept [OF run small] by (simp add: sample_plain)
qed

theorem receipt_roundtrip_witness:
  "receipt_read sample_codec \<lparr>rd_data = receipt_encode sample_codec
       \<lparr>rr_receipt = \<lparr>ar_sequence = 4, ar_this_hash = sample_hash\<rparr>, rr_received_millis = - 5, rr_byte_offset = Some 14\<rparr>,
     rd_pos = 0, rd_end = None\<rparr> 4 =
   Inr (\<lparr>rr_receipt = \<lparr>ar_sequence = 4, ar_this_hash = sample_hash\<rparr>, rr_received_millis = - 5, rr_byte_offset = Some 14\<rparr>,
     \<lparr>rd_data = receipt_encode sample_codec
       \<lparr>rr_receipt = \<lparr>ar_sequence = 4, ar_this_hash = sample_hash\<rparr>, rr_received_millis = - 5, rr_byte_offset = Some 14\<rparr>,
     rd_pos = 80, rd_end = None\<rparr>)"
proof -
  let ?rec = "\<lparr>rr_receipt = \<lparr>ar_sequence = 4, ar_this_hash = sample_hash\<rparr>, rr_received_millis = - 5, rr_byte_offset = Some 14\<rparr>"
  have "\<And>x. length (cd_blake3 sample_codec x) = 32" "length (ar_this_hash (rr_receipt ?rec)) = 32"
    "is_i64 (rr_received_millis ?rec)" "rr_byte_offset ?rec \<noteq> Some (- 1)"
    by (simp_all add: sample_codec_def sample_hash_def is_i64_def)
  from receipt_roundtrip [OF this, of "\<lparr>rd_data = receipt_encode sample_codec ?rec, rd_pos = 0, rd_end = None\<rparr>" "[]"]
  show ?thesis by (simp add: rd_rest_def advance_def)
qed

end
