(* ===== verification/Event_Feed.thy ===== *)
theory Event_Feed
  imports Event_Writer Poisoning "HOL-Library.Sublist"
begin

section \<open>The feed archive (crates/event-log/src/feed.rs)\<close>

text \<open>
  Verbatim frames copied out of a log into one file per epoch, and the iterator that authenticates an
  epoch before it yields a frame of it. The archive files are a function from the epoch to what
  opening the file gives; the text of a debug-formatted frame error and the nanoseconds of a
  timestamp are function arguments. The source and the receipts are only read after a seek, so their
  positions are not part of the state.
\<close>

subsection \<open>Writing an archive\<close>

record feed_writer =
  fw_source :: reader
  fw_output :: sink
  fw_epoch :: u64
  fw_count :: u64
  fw_length :: u64
  fw_digest :: bytes
  fw_previous :: "event_seq option"
  fw_failed :: bool

text \<open>\<open>setup_error\<close> is the first failure of creating the directory, synchronizing it and opening the temporary file.\<close>

definition feed_writer_new :: "log_file \<Rightarrow> u64 \<Rightarrow> io_error option \<Rightarrow> sink \<Rightarrow> log_error + feed_writer" where
  "feed_writer_new F epoch setup_error output =
     rbind (map_err LogRetention (lf_authority F)) (\<lambda>authority.
       let committed = (case authority of None \<Rightarrow> 0 | Some a \<Rightarrow> ra_epoch a) in
       if epoch \<le> committed then Inl (LogFeedArchive epoch ''epoch is already committed'')
       else
         rbind (open_read F) (\<lambda>r0.
         rbind (verify_file_header (lf_path F) r0) (\<lambda>source.
         rbind (os_call setup_error) (\<lambda>_.
           Inr \<lparr>fw_source = source, fw_output = output, fw_epoch = epoch, fw_count = 0, fw_length = 0, fw_digest = [],
                fw_previous = None, fw_failed = False\<rparr>))))"

definition feed_append ::
    "codec \<Rightarrow> u64 \<Rightarrow> event_seq \<Rightarrow> blake3_hash \<Rightarrow> feed_writer \<Rightarrow> (log_error + unit) \<times> feed_writer" where
  "feed_append C offset sequence predecessor_hash w =
     (if fw_failed w then (Inl (LogFeedArchive (fw_epoch w) ''feed write previously failed''), w)
      else if (case fw_previous w of None \<Rightarrow> False | Some previous \<Rightarrow> sequence \<le> previous)
      then (Inl (LogFeedArchive (fw_epoch w) ''feed sequences must increase''), w)
      else
        (case rbind (read_verified_frame_observed C (seek offset (fw_source w)) (at_frame sequence predecessor_hash offset))
                (\<lambda>(step, raw, _, _).
                   case step of
                     StepFrame _ \<Rightarrow> Inr raw
                   | _ \<Rightarrow> Inl (LogFeedArchive (fw_epoch w) ''source feed frame is incomplete'')) of
           Inl e \<Rightarrow> (Inl e, w)
         | Inr raw \<Rightarrow>
             (case (checked_add (fw_length w) (word_of_nat (length raw)), checked_add (fw_count w) 1) of
                (Some next_length, Some next_count) \<Rightarrow>
                  (case write_all (fw_output w) raw of
                     (Inl e, out) \<Rightarrow> (Inl (LogIo e), w\<lparr>fw_output := out, fw_failed := True\<rparr>)
                   | (Inr _, out) \<Rightarrow>
                       (Inr (), w\<lparr>fw_output := out, fw_digest := fw_digest w @ raw, fw_length := next_length,
                                  fw_count := next_count, fw_previous := Some sequence\<rparr>))
              | _ \<Rightarrow> (Inl LogSequenceOverflow, w))))"

record feed_os =
  fo_remove_temporary :: "io_error option"
  fo_remove_destination :: "io_error option"
  fo_sync_parent :: "io_error option"
  fo_sync_all :: "io_error option"
  fo_rename :: "io_error option"

definition feed_finish :: "codec \<Rightarrow> feed_os \<Rightarrow> feed_writer \<Rightarrow> log_error + feed_entry option" where
  "feed_finish C os w =
     (if fw_failed w then Inl (LogFeedArchive (fw_epoch w) ''feed write previously failed'')
      else if fw_count w = 0 then
        rbind (os_call (fo_remove_temporary os)) (\<lambda>_.
        rbind (case fo_remove_destination os of
                 None \<Rightarrow> Inr ()
               | Some e \<Rightarrow> if io_kind e = NotFound then Inr () else Inl (LogIo e)) (\<lambda>_.
        rbind (os_call (fo_sync_parent os)) (\<lambda>_. Inr None)))
      else
        rbind (os_call (fo_sync_all os)) (\<lambda>_.
        rbind (os_call (fo_rename os)) (\<lambda>_.
        rbind (os_call (fo_sync_parent os)) (\<lambda>_.
          Inr (Some \<lparr>fe_epoch = fw_epoch w, fe_frame_count = fw_count w, fe_length = fw_length w,
                     fe_hash = cd_blake3 C (fw_digest w)\<rparr>)))))"

subsection \<open>Reading an archive\<close>

record feed_env =
  fv_codec :: codec
  fv_debug :: "frame_read_error \<Rightarrow> string"
  fv_nanos :: "source_timestamp \<Rightarrow> int"
  fv_open :: "u64 \<Rightarrow> string + bytes"
  fv_receipts :: reader

definition record_at :: "feed_env \<Rightarrow> event_seq \<Rightarrow> log_error + receipt_record" where
  "record_at V sequence =
     rbind (ok_or LogSequenceOverflow (checked_mul sequence RECEIPT_RECORD_LEN)) (\<lambda>offset.
     rbind (map_err LogIo (receipt_read (fv_codec V) (seek offset (fv_receipts V)) sequence)) (\<lambda>(record, _). Inr record))"

definition archive_frame :: "feed_env \<Rightarrow> u64 \<Rightarrow> reader \<Rightarrow> log_error + (event_envelope \<times> bytes \<times> reader) option" where
  "archive_frame V epoch r =
     (let C = fv_codec V; offset = stream_position r in
      rbind (map_err (\<lambda>e. LogFeedArchive epoch (''invalid frame: '' @ fv_debug V e)) (read_frame_observed C r offset)) (\<lambda>frame.
        case frame of
          None \<Rightarrow> Inr None
        | Some (json, raw, r') \<Rightarrow>
            rbind (map_err LogSerde (cd_from_slice C json)) (\<lambda>e.
            rbind (record_at V (ev_seq e)) (\<lambda>record.
            rbind (case checked_sub (ev_seq e) 1 of
                     Some sequence \<Rightarrow> rbind (record_at V sequence) (\<lambda>p. Inr (ar_this_hash (rr_receipt p)))
                   | None \<Rightarrow> Inr genesis_hash) (\<lambda>predecessor.
            rbind (verify_envelope C e (ar_sequence (rr_receipt record)) predecessor offset) (\<lambda>_.
              let n = fv_nanos V (ev_received_at e); millis = (if n < 0 then - (- n div 1000000) else n div 1000000) in
              if \<not> is_i64 millis then Inl (LogIo (IoError OtherKind ''out of range integral type conversion attempted''))
              else if ev_this_hash e \<noteq> ar_this_hash (rr_receipt record) \<or> millis \<noteq> rr_received_millis record
              then Inl (LogFeedArchive epoch ''receipt mismatch'')
              else Inr (Some (e, raw, r'))))))))"

record feed_iter =
  fi_entries :: "feed_entry list"
  fi_current :: "(feed_entry \<times> reader) option"
  fi_previous :: "event_seq option"
  fi_poisoned :: bool

definition feed_iter_open :: "retention_authority \<Rightarrow> io_error option \<Rightarrow> log_error + feed_iter" where
  "feed_iter_open authority receipts_error =
     rbind (map_err LogRetention (validate authority)) (\<lambda>_.
     rbind (os_call receipts_error) (\<lambda>_.
       Inr \<lparr>fi_entries = ra_feed authority, fi_current = None, fi_previous = None, fi_poisoned = False\<rparr>))"

lemma archive_frame_Some:
  assumes "archive_frame V epoch r = Inr (Some (e, raw, r'))"
  shows "length (rd_data r') - rd_pos r' < length (rd_data r) - rd_pos r"
proof -
  from assms obtain json where "read_frame_observed (fv_codec V) r (stream_position r) = Inr (Some (json, raw, r'))"
    by (auto simp: archive_frame_def Let_def result_simps split: option.splits if_splits)
  from read_frame_Some [OF this] show ?thesis by (auto simp: rd_rest_def)
qed

function check_epoch ::
    "feed_env \<Rightarrow> u64 \<Rightarrow> reader \<Rightarrow> bytes \<Rightarrow> u64 \<Rightarrow> event_seq option \<Rightarrow> log_error + bytes \<times> u64" where
  "check_epoch V epoch r digest n previous =
     (case archive_frame V epoch r of
        Inl e \<Rightarrow> Inl e
      | Inr None \<Rightarrow> Inr (digest, n)
      | Inr (Some (e, raw, r')) \<Rightarrow>
          if (case previous of None \<Rightarrow> False | Some sq \<Rightarrow> ev_seq e \<le> sq)
          then Inl (LogFeedArchive epoch ''feed sequences must increase'')
          else
            (case checked_add n 1 of
               None \<Rightarrow> Inl LogSequenceOverflow
             | Some n' \<Rightarrow> check_epoch V epoch r' (digest @ raw) n' (Some (ev_seq e))))"
  by pat_completeness auto
termination
  by (relation "measure (\<lambda>(V, epoch, r, digest, n, previous). length (rd_data r) - rd_pos r)")
    (auto dest: archive_frame_Some)

declare check_epoch.simps [simp del]

definition open_epoch :: "feed_env \<Rightarrow> event_seq option \<Rightarrow> feed_entry \<Rightarrow> log_error + reader" where
  "open_epoch V previous entry =
     rbind (map_err (LogFeedArchive (fe_epoch entry)) (fv_open V (fe_epoch entry))) (\<lambda>file.
       if word_of_nat (length file) \<noteq> fe_length entry then Inl (LogFeedArchive (fe_epoch entry) ''length mismatch'')
       else
         let r = \<lparr>rd_data = file, rd_pos = 0, rd_end = None\<rparr> in
         rbind (check_epoch V (fe_epoch entry) r [] 0 previous) (\<lambda>(digest, n).
           if n \<noteq> fe_frame_count entry \<or> cd_blake3 (fv_codec V) digest \<noteq> fe_hash entry
           then Inl (LogFeedArchive (fe_epoch entry) ''count or hash mismatch'')
           else Inr r))"

text \<open>The next frame of the current epoch, \<open>None\<close> when it has no more.\<close>

definition current_frame ::
    "feed_env \<Rightarrow> feed_iter \<Rightarrow> ((log_error + event_envelope option) \<times> feed_iter) option" where
  "current_frame V it =
     (case fi_current it of
        None \<Rightarrow> None
      | Some (entry, r) \<Rightarrow>
          (case archive_frame V (fe_epoch entry) r of
             Inl e \<Rightarrow> Some (Inl e, it)
           | Inr None \<Rightarrow> None
           | Inr (Some (e, raw, r')) \<Rightarrow>
               Some (if (case fi_previous it of None \<Rightarrow> False | Some sq \<Rightarrow> ev_seq e \<le> sq)
                     then (Inl (LogFeedArchive (fe_epoch entry) ''feed sequences must increase''),
                           it\<lparr>fi_current := Some (entry, r')\<rparr>)
                     else (Inr (Some e), it\<lparr>fi_current := Some (entry, r'), fi_previous := Some (ev_seq e)\<rparr>))))"

function read_next :: "feed_env \<Rightarrow> feed_iter \<Rightarrow> (log_error + event_envelope option) \<times> feed_iter" where
  "read_next V it =
     (case current_frame V it of
        Some result \<Rightarrow> result
      | None \<Rightarrow>
          (case fi_entries it of
             [] \<Rightarrow> (Inr None, it\<lparr>fi_current := None\<rparr>)
           | entry # entries \<Rightarrow>
               (case open_epoch V (fi_previous it) entry of
                  Inl e \<Rightarrow> (Inl e, it\<lparr>fi_entries := entries, fi_current := None\<rparr>)
                | Inr r \<Rightarrow> read_next V (it\<lparr>fi_entries := entries, fi_current := Some (entry, r)\<rparr>))))"
  by pat_completeness auto
termination
  by (relation "measure (\<lambda>(V, it). length (fi_entries it))") auto

declare read_next.simps [simp del]

definition feed_next :: "feed_env \<Rightarrow> feed_iter \<Rightarrow> (log_error + event_envelope) option \<times> feed_iter" where
  "feed_next V it =
     (if fi_poisoned it then (None, it)
      else
        (case read_next V it of
           (Inr (Some e), it') \<Rightarrow> (Some (Inr e), it')
         | (Inr None, it') \<Rightarrow> (None, it')
         | (Inl e, it') \<Rightarrow> (Some (Inl e), it'\<lparr>fi_poisoned := True\<rparr>)))"

subsection \<open>Sequences only increase\<close>

fun feed_run :: "feed_env \<Rightarrow> nat \<Rightarrow> feed_iter \<Rightarrow> (log_error + event_envelope) list \<times> feed_iter" where
  "feed_run V 0 it = ([], it)"
| "feed_run V (Suc n) it =
     (case feed_next V it of
        (None, it') \<Rightarrow> ([], it')
      | (Some x, it') \<Rightarrow> (let (xs, it'') = feed_run V n it' in (x # xs, it'')))"

definition above :: "event_seq option \<Rightarrow> event_seq \<Rightarrow> bool" where
  "above previous sq \<longleftrightarrow> (case previous of None \<Rightarrow> True | Some p \<Rightarrow> p < sq)"

lemma current_frame_previous:
  "current_frame V it = Some (Inr (Some e), it') \<Longrightarrow> above (fi_previous it) (ev_seq e) \<and> fi_previous it' = Some (ev_seq e)"
  by (auto simp: current_frame_def above_def split: option.splits sum.splits if_splits)

lemma read_next_previous:
  "read_next V it = (Inr (Some e), it') \<Longrightarrow> above (fi_previous it) (ev_seq e) \<and> fi_previous it' = Some (ev_seq e)"
proof (induction V it rule: read_next.induct)
  case (1 V it)
  show ?case
  proof (cases "current_frame V it")
    case (Some result)
    then show ?thesis using 1(2) current_frame_previous [of V it e it'] by (subst (asm) read_next.simps) simp
  next
    case None
    then obtain entry entries r where ent: "fi_entries it = entry # entries" "open_epoch V (fi_previous it) entry = Inr r"
      and rec: "read_next V (it\<lparr>fi_entries := entries, fi_current := Some (entry, r)\<rparr>) = (Inr (Some e), it')"
      using 1(2) by (subst (asm) (2) read_next.simps) (auto split: list.splits sum.splits)
    from 1(1) [OF None ent rec] show ?thesis by simp
  qed
qed

lemma feed_next_cases:
  obtains "fst (feed_next V it) = None"
  | err it' where "feed_next V it = (Some (Inl err), it')" "fi_poisoned it'"
  | e it' where "feed_next V it = (Some (Inr e), it')" "above (fi_previous it) (ev_seq e)" "fi_previous it' = Some (ev_seq e)"
proof (cases "fi_poisoned it")
  case True
  then show ?thesis using that(1) by (simp add: feed_next_def)
next
  case False
  obtain res it' where r: "read_next V it = (res, it')" by (metis surj_pair)
  consider e where "res = Inl e" | "res = Inr None" | e where "res = Inr (Some e)" by (metis option.exhaust sum.exhaust)
  then show ?thesis
  proof cases
    case (1 e)
    then show ?thesis using that(2) False r by (simp add: feed_next_def)
  next
    case 2
    then show ?thesis using that(1) False r by (simp add: feed_next_def)
  next
    case (3 e)
    then show ?thesis using that(3) False r read_next_previous [of V it e it'] by (simp add: feed_next_def)
  qed
qed

interpretation feed_reading: poisonable "\<lambda>_ it. snd (feed_next V it)" fi_poisoned for V
  by unfold_locales (simp add: feed_next_def)

interpretation feed_writing: poisonable "\<lambda>(offset, sequence, predecessor) w. snd (feed_append C offset sequence predecessor w)" fw_failed for C
  by unfold_locales (simp add: feed_append_def case_prod_beta)

interpretation replaying: poisonable "\<lambda>_ it. snd (replay_next C it)" ri_poisoned for C
  by unfold_locales (simp add: replay_next_def)

lemma feed_run_poisoned: "fi_poisoned it \<Longrightarrow> fst (feed_run V n it) = []"
  by (cases n) (simp_all add: feed_next_def)

lemma feed_run_shape:
  "\<exists>es tail. fst (feed_run V n it) = map Inr es @ tail \<and> (tail = [] \<or> (\<exists>err. tail = [Inl err])) \<and>
     sorted_wrt (<) (map ev_seq es) \<and> list_all (above (fi_previous it)) (map ev_seq es)"
proof (induction n arbitrary: it)
  case 0
  then show ?case by (auto intro: exI [of _ "[]"])
next
  case (Suc n)
  show ?case
  proof (cases rule: feed_next_cases [of V it])
    case 1
    then show ?thesis by (auto simp: case_prod_beta split: option.splits prod.splits intro!: exI [of _ "[]"])
  next
    case (2 err it')
    then have "fst (feed_run V (Suc n) it) = [Inl err]" using feed_run_poisoned [of it' V n] by (simp add: case_prod_beta)
    then show ?thesis by (intro exI [of _ "[]"] exI [of _ "[Inl err]"]) simp
  next
    case (3 e it')
    obtain es tail where es: "fst (feed_run V n it') = map Inr es @ tail" "tail = [] \<or> (\<exists>err. tail = [Inl err])"
      "sorted_wrt (<) (map ev_seq es)" "list_all (above (fi_previous it')) (map ev_seq es)" using Suc.IH by blast
    have run: "fst (feed_run V (Suc n) it) = map Inr (e # es) @ tail" using 3(1) es(1) by (simp add: case_prod_beta)
    have up: "\<forall>x\<in>set es. ev_seq e < ev_seq x" using es(4) 3(3) by (auto simp: above_def list_all_iff)
    then have "list_all (above (fi_previous it)) (map ev_seq (e # es))"
      using 3(2) by (auto simp: above_def list_all_iff split: option.splits)
    with run up es(2,3) show ?thesis by (intro exI [of _ "e # es"] exI [of _ tail]) simp
  qed
qed

text \<open>C27. The feed iterator yields events with strictly increasing sequence numbers, whatever the archive files,
  the receipts and the authority hold, and stops at its first error: the error is the last item.\<close>

theorem feed_sequences_increase:
  "\<exists>es tail. fst (feed_run V n it) = map Inr es @ tail \<and> (tail = [] \<or> (\<exists>err. tail = [Inl err])) \<and>
     sorted_wrt (<) (map ev_seq es)"
  using feed_run_shape by blast

end
