(* ===== verification/Risk_Engine.thy ===== *)
theory Risk_Engine
  imports Decimal
begin

section \<open>The risk gates (crates/risk-engine)\<close>

text \<open>
  The pure risk gate of the copy path and of the canary path, and the portfolio and latency inputs
  they are fed with. Basis points are \<open>i32\<close>: the copy gate adds exposures with \<open>checked_add\<close>, the
  canary gate with the plain \<open>+\<close>, which wraps in the release profile of the workspace
  (\<open>wrap_i32\<close>). \<open>u128\<close> arithmetic is \<open>nat\<close> with the overflow tests written out. A decimal
  operator that panics on overflow (\<open>*\<close>, \<open>/\<close>, \<open>-\<close>) is the checked operation, and \<open>None\<close> in the
  result is the panic.
\<close>

subsection \<open>Blocks, policies and snapshots\<close>

datatype risk_block =
    LeaderConcentrationExceeded
  | MarketConcentrationExceeded
  | FamilyConcentrationExceeded
  | TotalCopyExposureExceeded
  | IntradayDrawdownStop
  | Rolling7dDrawdownStop
  | KillSwitchDrawdown
  | CopyLatencyKillSwitch
  | PerTradeSizeExceeded
  | ResolverNotTradable
  | AccountStateStale
  | VenueReconciliationStale
  | JurisdictionBlocked
  | ClosedOnly
  | PendingReservation
  | AllowanceExceeded
  | InvalidCanaryBankroll
  | OriginInputsInvalid

record concentration_caps =
  max_leader_bps :: i32
  max_market_bps :: i32
  max_family_bps :: i32
  max_total_copy_bps :: i32

definition CANONICAL :: concentration_caps where
  "CANONICAL = \<lparr>max_leader_bps = 300, max_market_bps = 200, max_family_bps = 800, max_total_copy_bps = 2500\<rparr>"

datatype drawdown_policy = Stops | KillOnly

definition CANARY_PER_TRADE_CAP_BPS :: basis_points where "CANARY_PER_TRADE_CAP_BPS = 50"
definition CANARY_MAX_ORDER_DEBIT :: collateral_amount where "CANARY_MAX_ORDER_DEBIT = 1000000"
definition CANARY_MAX_ALLOWANCE :: collateral_amount where "CANARY_MAX_ALLOWANCE = 8000000"
definition KILL_SWITCH_DRAWDOWN_BPS :: i32 where "KILL_SWITCH_DRAWDOWN_BPS = - 1000"
definition KILL_ONLY_DRAWDOWN_BPS :: i32 where "KILL_ONLY_DRAWDOWN_BPS = - 3000"
definition INTRADAY_STOP_BPS :: i32 where "INTRADAY_STOP_BPS = - 200"
definition ROLLING_7D_STOP_BPS :: i32 where "ROLLING_7D_STOP_BPS = - 600"

lemmas risk_constants = CANONICAL_def CANARY_PER_TRADE_CAP_BPS_def CANARY_MAX_ORDER_DEBIT_def
  CANARY_MAX_ALLOWANCE_def KILL_SWITCH_DRAWDOWN_BPS_def KILL_ONLY_DRAWDOWN_BPS_def
  INTRADAY_STOP_BPS_def ROLLING_7D_STOP_BPS_def

fun absolute_loss_bps :: "drawdown_policy \<Rightarrow> i32" where
  "absolute_loss_bps Stops = KILL_SWITCH_DRAWDOWN_BPS"
| "absolute_loss_bps KillOnly = KILL_ONLY_DRAWDOWN_BPS"

record risk_snapshot =
  leader_exposure_bps :: basis_points
  market_exposure_bps :: basis_points
  family_exposure_bps :: basis_points
  total_copy_exposure_bps :: basis_points
  intraday_pnl_bps :: basis_points
  rolling_7d_pnl_bps :: basis_points
  absolute_pnl_bps :: basis_points
  copy_latency_kill_switch_active :: bool
  proposed_trade_bps :: basis_points
  per_trade_cap_bps :: i32
  rs_drawdown_policy :: drawdown_policy
  rs_concentration_caps :: "concentration_caps option"

datatype canary_origin = OperatorProbe | Organic

record canary_risk_snapshot =
  crs_origin :: canary_origin
  crs_proposed_worst_case_debit :: collateral_amount
  crs_canary_bankroll :: collateral_amount
  crs_leader_exposure_bps :: "basis_points option"
  crs_market_exposure_bps :: basis_points
  crs_family_exposure_bps :: basis_points
  crs_total_copy_exposure_bps :: basis_points
  crs_open_exposure_bps :: basis_points
  crs_resolver_tradable :: bool
  crs_account_state_fresh :: bool
  crs_venue_reconciliation_fresh :: bool
  crs_geoblock_fresh :: bool
  crs_geoblocked :: bool
  crs_closed_only_fresh :: bool
  crs_closed_only :: bool
  crs_jurisdiction_attestation_valid :: bool
  crs_pending_reservation :: bool
  crs_allowance :: collateral_amount
  crs_standard_spender_only :: bool

subsection \<open>The two gates\<close>

datatype risk_decision = RiskApproved | RiskBlocked risk_block

definition exceeds_concentration_cap :: "i32 \<Rightarrow> i32 \<Rightarrow> i32 \<Rightarrow> bool" where
  "exceeds_concentration_cap existing proposed cap =
     (case checked_add_i32 existing proposed of Some t \<Rightarrow> cap < t | None \<Rightarrow> True)"

definition evaluate_risk :: "risk_snapshot \<Rightarrow> risk_decision" where
  "evaluate_risk s =
     (if absolute_pnl_bps s \<le> absolute_loss_bps (rs_drawdown_policy s) then RiskBlocked KillSwitchDrawdown
      else if rs_drawdown_policy s = Stops \<and> intraday_pnl_bps s \<le> INTRADAY_STOP_BPS then RiskBlocked IntradayDrawdownStop
      else if rs_drawdown_policy s = Stops \<and> rolling_7d_pnl_bps s \<le> ROLLING_7D_STOP_BPS then RiskBlocked Rolling7dDrawdownStop
      else if copy_latency_kill_switch_active s then RiskBlocked CopyLatencyKillSwitch
      else if per_trade_cap_bps s < proposed_trade_bps s then RiskBlocked PerTradeSizeExceeded
      else case rs_concentration_caps s of
        None \<Rightarrow> RiskApproved
      | Some caps \<Rightarrow>
          let proposed = proposed_trade_bps s in
          if exceeds_concentration_cap (leader_exposure_bps s) proposed (max_leader_bps caps)
          then RiskBlocked LeaderConcentrationExceeded
          else if exceeds_concentration_cap (market_exposure_bps s) proposed (max_market_bps caps)
          then RiskBlocked MarketConcentrationExceeded
          else if exceeds_concentration_cap (family_exposure_bps s) proposed (max_family_bps caps)
          then RiskBlocked FamilyConcentrationExceeded
          else if exceeds_concentration_cap (total_copy_exposure_bps s) proposed (max_total_copy_bps caps)
          then RiskBlocked TotalCopyExposureExceeded
          else RiskApproved)"

definition u128_checked :: "nat \<Rightarrow> nat option" where
  "u128_checked n = (if n < 2 ^ 128 then Some n else None)"

definition exposure_bps_ceil :: "collateral_amount \<Rightarrow> collateral_amount \<Rightarrow> basis_points option" where
  "exposure_bps_ceil amount bankroll =
     (if bankroll = 0 then None
      else Option.bind (u128_checked (unat amount * 10000)) (\<lambda>numerator.
           let denominator = unat bankroll in
           Option.bind (u128_checked (numerator + (denominator - 1))) (\<lambda>sum.
           let bps = sum div denominator in
           if bps < 2 ^ 31 then Some (int bps) else None)))"

definition evaluate_canary_risk :: "canary_risk_snapshot \<Rightarrow> risk_decision" where
  "evaluate_canary_risk s =
     (case exposure_bps_ceil (crs_proposed_worst_case_debit s) (crs_canary_bankroll s) of
        None \<Rightarrow> RiskBlocked InvalidCanaryBankroll
      | Some proposed \<Rightarrow>
          if \<not> crs_resolver_tradable s then RiskBlocked ResolverNotTradable
          else if \<not> crs_account_state_fresh s then RiskBlocked AccountStateStale
          else if \<not> crs_venue_reconciliation_fresh s then RiskBlocked VenueReconciliationStale
          else if \<not> crs_geoblock_fresh s \<or> crs_geoblocked s \<or> \<not> crs_jurisdiction_attestation_valid s
          then RiskBlocked JurisdictionBlocked
          else if \<not> crs_closed_only_fresh s \<or> crs_closed_only s then RiskBlocked ClosedOnly
          else if crs_pending_reservation s then RiskBlocked PendingReservation
          else if \<not> crs_standard_spender_only s \<or> CANARY_MAX_ALLOWANCE < crs_allowance s \<or>
                  crs_allowance s < crs_proposed_worst_case_debit s
          then RiskBlocked AllowanceExceeded
          else if CANARY_PER_TRADE_CAP_BPS < proposed \<or> CANARY_MAX_ORDER_DEBIT < crs_proposed_worst_case_debit s
          then RiskBlocked PerTradeSizeExceeded
          else case (case (crs_origin s, crs_leader_exposure_bps s) of
                       (Organic, Some v) \<Rightarrow> Some v
                     | (OperatorProbe, None) \<Rightarrow> Some 0
                     | _ \<Rightarrow> None) of
            None \<Rightarrow> RiskBlocked OriginInputsInvalid
          | Some leader \<Rightarrow>
              if 300 < wrap_i32 (leader + proposed) then RiskBlocked LeaderConcentrationExceeded
              else if 200 < wrap_i32 (crs_market_exposure_bps s + proposed) then RiskBlocked MarketConcentrationExceeded
              else if 800 < wrap_i32 (crs_family_exposure_bps s + proposed) then RiskBlocked FamilyConcentrationExceeded
              else if 2500 < wrap_i32 (crs_total_copy_exposure_bps s + proposed) \<or>
                      2500 < wrap_i32 (crs_open_exposure_bps s + proposed)
              then RiskBlocked TotalCopyExposureExceeded
              else RiskApproved)"

subsection \<open>Portfolio inputs\<close>

datatype risk_math_error = EquityEmpty | NonPositive | MathOverflow

definition current_equity :: "'d decimal_ops \<Rightarrow> 'd \<Rightarrow> (share_amount \<times> 'd) list \<Rightarrow> risk_math_error + 'd" where
  "current_equity D cash positions =
     try_fold (\<lambda>equity (quantity, price).
        ok_or MathOverflow (Option.bind (dec_checked_mul D (amount_to_decimal D quantity) price)
                              (\<lambda>v. dec_checked_add D equity v))) cash positions"

datatype resolution_credit_error = InvalidPayoutVector | InvalidOutcome u16 | CreditOverflow

type_synonym 'd binary_payout = "'d \<times> 'd"

definition in_unit :: "'d decimal_ops \<Rightarrow> 'd \<Rightarrow> bool" where
  "in_unit D d \<longleftrightarrow> dec_le D (dec_zero D) d \<and> dec_le D d (dec_one D)"

definition binary_payout_new :: "'d decimal_ops \<Rightarrow> 'd \<Rightarrow> 'd \<Rightarrow> resolution_credit_error + 'd binary_payout" where
  "binary_payout_new D p0 p1 =
     (if \<not> in_unit D p0 \<or> \<not> in_unit D p1 \<or>
         (case dec_checked_add D p0 p1 of None \<Rightarrow> True | Some s \<Rightarrow> \<not> dec_eq D s (dec_one D))
      then Inl InvalidPayoutVector else Inr (p0, p1))"

definition binary_payout_get :: "'d binary_payout \<Rightarrow> u16 \<Rightarrow> 'd option" where
  "binary_payout_get p oc = (if oc = 0 then Some (fst p) else if oc = 1 then Some (snd p) else None)"

text \<open>The \<open>BTreeMap<u16, u64>\<close> is the list of its entries in key order.\<close>

fun btree_insert :: "'k::linorder \<Rightarrow> 'v \<Rightarrow> ('k \<times> 'v) list \<Rightarrow> ('k \<times> 'v) list" where
  "btree_insert k v [] = [(k, v)]"
| "btree_insert k v ((k', v') # m) =
     (if k < k' then (k, v) # (k', v') # m
      else if k = k' then (k, v) # m
      else (k', v') # btree_insert k v m)"

definition aggregate_shares :: "(u16 \<times> share_amount) list \<Rightarrow> resolution_credit_error + (u16 \<times> u64) list" where
  "aggregate_shares positions =
     try_fold (\<lambda>aggregated (outcome_index, shares).
        let prior = (case map_of aggregated outcome_index of None \<Rightarrow> 0 | Some n \<Rightarrow> n) in
        rbind (ok_or CreditOverflow (checked_add prior shares)) (\<lambda>total.
          Inr (btree_insert outcome_index total aggregated))) [] positions"

definition outcome_credit ::
    "'d decimal_ops \<Rightarrow> 'd binary_payout \<Rightarrow> collateral_amount \<Rightarrow> u16 \<times> u64 \<Rightarrow> resolution_credit_error + collateral_amount" where
  "outcome_credit D payout credit = (\<lambda>(outcome_index, shares).
     rbind (ok_or (InvalidOutcome outcome_index) (binary_payout_get payout outcome_index)) (\<lambda>p.
     rbind (ok_or CreditOverflow (Option.bind (map_option (dec_floor D) (dec_checked_mul D (dec_from_u64 D shares) p))
                                    (dec_to_u64 D))) (\<lambda>outcome_atomic.
       map_err (\<lambda>_. CreditOverflow) (collateral_checked_add credit outcome_atomic))))"

definition aggregate_resolution_credit ::
    "'d decimal_ops \<Rightarrow> (u16 \<times> share_amount) list \<Rightarrow> 'd binary_payout \<Rightarrow> resolution_credit_error + collateral_amount" where
  "aggregate_resolution_credit D positions payout =
     rbind (aggregate_shares positions) (\<lambda>by_outcome. try_fold (outcome_credit D payout) 0 by_outcome)"

record 'd pnl_window =
  starting_bankroll :: 'd
  preceding_mark_equity :: "'d option"
  window_realized_closes_7d :: 'd

record pnl_bps_values =
  pnl_intraday :: basis_points
  pnl_rolling_7d :: basis_points
  pnl_absolute :: basis_points

definition realized_closes_7d :: "'d decimal_ops \<Rightarrow> (i64 \<times> 'd) list \<Rightarrow> i64 \<Rightarrow> risk_math_error + 'd" where
  "realized_closes_7d D closes at_unix =
     rbind (ok_or MathOverflow (checked_sub_i64 at_unix (7 * 24 * 60 * 60))) (\<lambda>lower_exclusive.
       try_fold (\<lambda>total (_, pnl). ok_or MathOverflow (dec_checked_add D total pnl)) (dec_zero D)
         (filter (\<lambda>(final_unix, _). lower_exclusive < final_unix \<and> final_unix \<le> at_unix) closes))"

definition ratio_bps :: "'d decimal_ops \<Rightarrow> 'd \<Rightarrow> 'd \<Rightarrow> risk_math_error + basis_points" where
  "ratio_bps D numerator denominator =
     map_err (\<lambda>_. MathOverflow) (basis_points_from_ratio_floor D numerator denominator)"

definition pnl_bps :: "'d decimal_ops \<Rightarrow> 'd \<Rightarrow> 'd pnl_window \<Rightarrow> risk_math_error + pnl_bps_values" where
  "pnl_bps D equity window =
     (if dec_le D (starting_bankroll window) (dec_zero D) then Inl NonPositive
      else
        let baseline = (case preceding_mark_equity window of None \<Rightarrow> starting_bankroll window | Some e \<Rightarrow> e) in
        rbind (ok_or MathOverflow (dec_checked_sub D equity baseline)) (\<lambda>intraday_numerator.
        rbind (ok_or MathOverflow (dec_checked_sub D equity (starting_bankroll window))) (\<lambda>absolute_numerator.
        rbind (ratio_bps D intraday_numerator (starting_bankroll window)) (\<lambda>i.
        rbind (ratio_bps D (window_realized_closes_7d window) (starting_bankroll window)) (\<lambda>r.
        rbind (ratio_bps D absolute_numerator (starting_bankroll window)) (\<lambda>a.
          Inr \<lparr>pnl_intraday = i, pnl_rolling_7d = r, pnl_absolute = a\<rparr>))))))"

definition worst_owner :: "pnl_bps_values list \<Rightarrow> pnl_bps_values option" where
  "worst_owner inputs =
     (case inputs of
        [] \<Rightarrow> None
      | first # rest \<Rightarrow>
          Some (fold (\<lambda>input worst.
                  \<lparr>pnl_intraday = min (pnl_intraday worst) (pnl_intraday input),
                   pnl_rolling_7d = min (pnl_rolling_7d worst) (pnl_rolling_7d input),
                   pnl_absolute = min (pnl_absolute worst) (pnl_absolute input)\<rparr>) rest first))"

subsection \<open>Copy latency\<close>

definition COPY_LATENCY_ENGAGE_MS :: u64 where "COPY_LATENCY_ENGAGE_MS = 3000"
definition COPY_LATENCY_RELEASE_MS :: u64 where "COPY_LATENCY_RELEASE_MS = 2000"

text \<open>\<open>len()\<close> is a \<open>usize\<close> of 64 bits.\<close>

definition nearest_rank_p95 :: "u64 list \<Rightarrow> u64 option" where
  "nearest_rank_p95 samples_ms =
     (if samples_ms = [] then None
      else
        let sorted = sort samples_ms in
        Option.bind (checked_mul (word_of_nat (length sorted) :: u64) 95) (\<lambda>m.
        Option.bind (checked_add m 99) (\<lambda>a.
        Option.bind (checked_sub (a div 100) 1) (\<lambda>i.
          if unat i < length sorted then Some (sorted ! unat i) else None))))"

definition latency_switch :: "bool \<Rightarrow> u64 option \<Rightarrow> u64 option \<Rightarrow> bool" where
  "latency_switch active previous_hour latest_hour =
     (if active then (case latest_hour of None \<Rightarrow> True | Some v \<Rightarrow> COPY_LATENCY_RELEASE_MS < v)
      else (case previous_hour of None \<Rightarrow> False | Some v \<Rightarrow> COPY_LATENCY_ENGAGE_MS < v) \<and>
           (case latest_hour of None \<Rightarrow> False | Some v \<Rightarrow> COPY_LATENCY_ENGAGE_MS < v))"

subsection \<open>Drawdown and size clamps\<close>

definition drawdown_step ::
    "'d decimal_ops \<Rightarrow> 'd \<times> 'd \<Rightarrow> 'd \<Rightarrow> risk_math_error + 'd \<times> 'd" where
  "drawdown_step D = (\<lambda>(peak, max_drawdown) v.
     if dec_le D v (dec_zero D) then Inl NonPositive
     else if dec_lt D peak v then Inr (v, max_drawdown)
     else rbind (ok_or MathOverflow (Option.bind (dec_checked_sub D peak v) (\<lambda>loss. dec_checked_div D loss peak)))
            (\<lambda>drawdown. Inr (peak, if dec_lt D max_drawdown drawdown then drawdown else max_drawdown)))"

definition max_drawdown_fraction :: "'d decimal_ops \<Rightarrow> 'd list \<Rightarrow> risk_math_error + 'd" where
  "max_drawdown_fraction D equity =
     (case equity of
        [] \<Rightarrow> Inl EquityEmpty
      | first # rest \<Rightarrow>
          if dec_le D first (dec_zero D) then Inl NonPositive
          else map_sum id snd (try_fold (drawdown_step D) (first, dec_zero D) rest))"

definition unwrap_or_max :: "u64 option \<Rightarrow> u64" where
  "unwrap_or_max x = (case x of None \<Rightarrow> - 1 | Some n \<Rightarrow> n)"

definition clamp_contracts_to_cap :: "'d decimal_ops \<Rightarrow> u64 \<Rightarrow> 'd \<Rightarrow> 'd \<Rightarrow> i32 \<Rightarrow> u64 option" where
  "clamp_contracts_to_cap D contracts price bankroll cap_bps =
     (if cap_bps \<le> 0 \<or> dec_le D bankroll (dec_zero D) \<or> dec_le D price (dec_zero D) then Some 0
      else Option.bind (dec_checked_mul D bankroll (dec_from_i32 D cap_bps)) (\<lambda>m.
           Option.bind (dec_checked_div D m (dec_from_i32 D 10000)) (\<lambda>cap_usd.
           Option.bind (dec_checked_div D cap_usd price) (\<lambda>q.
             Some (min contracts (unwrap_or_max (dec_to_u64 D (dec_floor D q))))))))"

definition clamp_contracts_to_liquidity :: "'d decimal_ops \<Rightarrow> u64 \<Rightarrow> 'd \<Rightarrow> 'd \<Rightarrow> 'd \<Rightarrow> 'd \<Rightarrow> u64 option" where
  "clamp_contracts_to_liquidity D contracts liquidity_usd take_fraction min_required_usd fill_price =
     (if dec_le D fill_price (dec_zero D) then Some 0
      else if dec_le D take_fraction (dec_zero D) \<or> dec_lt D liquidity_usd min_required_usd then Some contracts
      else Option.bind (dec_checked_mul D liquidity_usd take_fraction) (\<lambda>max_notional.
           Option.bind (dec_checked_div D max_notional fill_price) (\<lambda>q.
             Some (min contracts (unwrap_or_max (dec_to_u64 D (dec_floor D q)))))))"

end
