(* ===== verification/Risk_Properties.thy ===== *)
theory Risk_Properties
  imports Risk_Engine
begin

section \<open>Properties of the risk gates\<close>

text \<open>
  Nearest-rank percentile, latency hysteresis, combination of owners, the bounds the canary gate
  enforces and where its additions wrap, and the exact resolution credit.
\<close>

subsection \<open>The latency percentile and its switch\<close>

lemma sorted_prefix_le:
  assumes "sorted ys" and "i < length ys"
  shows "Suc i \<le> length (filter (\<lambda>x. x \<le> ys ! i) ys)"
proof -
  have "filter (\<lambda>x. x \<le> ys ! i) (take (Suc i) ys) = take (Suc i) ys"
    using assms by (auto simp: filter_id_conv in_set_conv_nth sorted_iff_nth_mono)
  then have "length (filter (\<lambda>x. x \<le> ys ! i) (take (Suc i) ys)) = Suc i" using assms by simp
  then show ?thesis
    by (metis append_take_drop_id filter_append length_append le_add1)
qed

lemma sorted_less_prefix:
  assumes "sorted ys" and "i < length ys"
  shows "length (filter (\<lambda>x. x < ys ! i) ys) \<le> i"
proof -
  have "filter (\<lambda>x. x < ys ! i) (drop i ys) = []"
    using assms by (auto simp: filter_empty_conv in_set_conv_nth sorted_iff_nth_mono not_less)
  then have "filter (\<lambda>x. x < ys ! i) ys = filter (\<lambda>x. x < ys ! i) (take i ys)"
    by (metis append_Nil2 append_take_drop_id filter_append)
  then show ?thesis by (metis assms(2) le_trans length_filter_le length_take min.cobounded2)
qed

lemma length_filter_sort: "length (filter P (sort xs)) = length (filter P xs)"
  by (metis mset_filter mset_sort size_mset)

text \<open>The index the code computes, in plain arithmetic.\<close>

lemma nearest_rank_index:
  assumes "xs \<noteq> []" and fits: "length xs * 95 + 99 < 2 ^ 64"
  shows "nearest_rank_p95 xs = Some (sort xs ! ((95 * length xs + 99) div 100 - 1))"
    and "(95 * length xs + 99) div 100 - 1 < length xs"
proof -
  let ?n = "length xs"
  have n: "unat (word_of_nat ?n :: u64) = ?n" using fits by (intro unat_u64_of_nat) simp
  have m: "checked_mul (word_of_nat ?n :: u64) 95 = Some (word_of_nat (?n * 95))"
    using fits by (simp add: checked_mul_def n)
  have um: "unat (word_of_nat (?n * 95) :: u64) = ?n * 95" using fits by (intro unat_u64_of_nat) simp
  have a: "checked_add (word_of_nat (?n * 95) :: u64) 99 = Some (word_of_nat (?n * 95 + 99))"
    using fits um by (simp add: checked_add_def)
  have ua: "unat (word_of_nat (?n * 95 + 99) div 100 :: u64) = (?n * 95 + 99) div 100"
    using unat_u64_of_nat [OF fits] by (simp add: unat_div)
  have pos: "1 \<le> (?n * 95 + 99) div 100" using assms(1) by (cases xs) simp_all
  have one: "unat (1 :: u64) = 1" by simp
  define a where "a = (word_of_nat (?n * 95 + 99) div 100 :: u64)"
  have le: "(1 :: u64) \<le> a" using ua pos by (simp add: word_le_nat_alt a_def)
  then have i: "checked_sub a 1 = Some (a - 1)" by (simp add: checked_sub_def)
  have ui: "unat (a - 1) = (?n * 95 + 99) div 100 - 1" using le ua by (simp add: unat_sub_le a_def)
  show lt: "(95 * ?n + 99) div 100 - 1 < ?n" using assms(1) by (cases xs) simp_all
  then have lt': "(?n * 95 + 99) div 100 - 1 < ?n" by (simp only: mult.commute)
  show "nearest_rank_p95 xs = Some (sort xs ! ((95 * ?n + 99) div 100 - 1))"
    unfolding nearest_rank_p95_def Let_def length_sort m bind.bind_lunit a a_def [symmetric] i ui
    using assms(1) lt' by (simp add: mult.commute)
qed

lemma rank_bounds:
  assumes "0 < (n :: nat)"
  shows "95 * n \<le> 100 * Suc ((95 * n + 99) div 100 - 1) \<and> 100 * ((95 * n + 99) div 100 - 1) < 95 * n"
proof -
  define r where "r = (95 * n + 99) div 100"
  have "100 * r + (95 * n + 99) mod 100 = 95 * n + 99" by (simp add: r_def)
  moreover have "(95 * n + 99) mod 100 < 100" by simp
  ultimately show ?thesis unfolding r_def [symmetric] using assms by (cases r) auto
qed

text \<open>C32. The hourly percentile is a recorded sample that at least 95 percent of the samples do not exceed, and fewer than 95 percent of the samples are strictly below it.\<close>

theorem nearest_rank_p95_is_percentile:
  assumes "xs \<noteq> []" and "length xs * 95 + 99 < 2 ^ 64"
  shows "\<exists>v. nearest_rank_p95 xs = Some v \<and> v \<in> set xs \<and>
             95 * length xs \<le> 100 * length (filter (\<lambda>x. x \<le> v) xs) \<and>
             100 * length (filter (\<lambda>x. x < v) xs) < 95 * length xs"
proof -
  let ?i = "(95 * length xs + 99) div 100 - 1"
  let ?v = "sort xs ! ?i"
  have i: "?i < length (sort xs)" using nearest_rank_index(2) [OF assms] by simp
  have le: "Suc ?i \<le> length (filter (\<lambda>x. x \<le> ?v) xs)"
    using sorted_prefix_le [OF sorted_sort i] by (simp only: length_filter_sort)
  have lt: "length (filter (\<lambda>x. x < ?v) xs) \<le> ?i"
    using sorted_less_prefix [OF sorted_sort i] by (simp only: length_filter_sort)
  have n: "0 < length xs" using assms(1) by simp
  have "95 * length xs \<le> 100 * Suc ?i \<and> 100 * ?i < 95 * length xs" using n by (rule rank_bounds)
  with le lt have "95 * length xs \<le> 100 * length (filter (\<lambda>x. x \<le> ?v) xs)"
    and "100 * length (filter (\<lambda>x. x < ?v) xs) < 95 * length xs" by linarith+
  moreover have "?v \<in> set xs" using nth_mem [OF i] by simp
  ultimately show ?thesis using nearest_rank_index(1) [OF assms] by blast
qed

theorem nearest_rank_p95_is_percentile_witness:
  "\<exists>v. nearest_rank_p95 [7, 3, 9] = Some v \<and> v \<in> set [7, 3, 9] \<and>
       95 * length [7, 3, 9 :: u64] \<le> 100 * length (filter (\<lambda>x. x \<le> v) [7, 3, 9]) \<and>
       100 * length (filter (\<lambda>x. x < v) [7, 3, 9]) < 95 * length [7, 3, 9 :: u64]"
  by (rule nearest_rank_p95_is_percentile) simp_all

text \<open>The switch after a sequence of completed hours, the latest hour first.\<close>

fun latency_history :: "u64 option list \<Rightarrow> bool" where
  "latency_history [] = False"
| "latency_history [h] = latency_switch False None h"
| "latency_history (h # p # hs) = latency_switch (latency_history (p # hs)) p h"

definition slow_hour :: "u64 option \<Rightarrow> bool" where
  "slow_hour h \<longleftrightarrow> (\<exists>v. h = Some v \<and> COPY_LATENCY_ENGAGE_MS < v)"

definition releasing_hour :: "u64 option \<Rightarrow> bool" where
  "releasing_hour h \<longleftrightarrow> (\<exists>v. h = Some v \<and> v \<le> COPY_LATENCY_RELEASE_MS)"

lemma slow_not_releasing: "slow_hour h \<Longrightarrow> \<not> releasing_hour h"
  by (auto simp: slow_hour_def releasing_hour_def COPY_LATENCY_ENGAGE_MS_def COPY_LATENCY_RELEASE_MS_def
      word_le_nat_alt word_less_nat_alt)

lemma latency_switch_iff:
  "latency_switch active p h \<longleftrightarrow> (if active then \<not> releasing_hour h else slow_hour p \<and> slow_hour h)"
  by (auto simp: latency_switch_def slow_hour_def releasing_hour_def not_le split: option.splits)

text \<open>C31. The copy-latency kill switch is on exactly when some two consecutive hours were above the engage limit and no later hour came down to the release limit; hours without samples neither engage nor release it.\<close>

theorem latency_switch_hysteresis:
  "latency_history hs \<longleftrightarrow>
     (\<exists>k. Suc k < length hs \<and> slow_hour (hs ! k) \<and> slow_hour (hs ! Suc k) \<and> (\<forall>i. i < k \<longrightarrow> \<not> releasing_hour (hs ! i)))"
proof (induction hs rule: latency_history.induct)
  case 1
  then show ?case by simp
next
  case (2 h)
  then show ?case by (simp add: latency_switch_iff slow_hour_def)
next
  case (3 h p hs)
  let ?engaged = "\<lambda>hs k. Suc k < length hs \<and> slow_hour (hs ! k) \<and> slow_hour (hs ! Suc k) \<and>
                     (\<forall>i. i < k \<longrightarrow> \<not> releasing_hour (hs ! i))"
  have shift: "(\<exists>k. ?engaged (h # p # hs) k) \<longleftrightarrow>
      slow_hour h \<and> slow_hour p \<or> \<not> releasing_hour h \<and> (\<exists>k. ?engaged (p # hs) k)" (is "?L = ?R")
  proof
    assume ?L
    then obtain k where k: "?engaged (h # p # hs) k" ..
    show ?R
    proof (cases k)
      case 0
      with k show ?thesis by simp
    next
      case (Suc j)
      have "\<not> releasing_hour ((p # hs) ! i)" if "i < j" for i using k Suc that by (auto dest: spec [of _ "Suc i"])
      moreover have "\<not> releasing_hour h" using k Suc by (auto dest: spec [of _ 0])
      ultimately show ?thesis using k Suc by auto
    qed
  next
    assume ?R
    then show ?L
    proof
      assume "slow_hour h \<and> slow_hour p"
      then show ?thesis by (intro exI [of _ 0]) simp
    next
      assume "\<not> releasing_hour h \<and> (\<exists>k. ?engaged (p # hs) k)"
      then obtain k where "\<not> releasing_hour h" "?engaged (p # hs) k" by blast
      then show ?thesis by (intro exI [of _ "Suc k"]) (auto simp: nth_Cons split: nat.splits)
    qed
  qed
  show ?case
    unfolding shift latency_history.simps latency_switch_iff "3.IH" [symmetric]
    using slow_not_releasing by auto
qed

theorem latency_switch_hysteresis_witness:
  "latency_history [None, Some 2500, Some 3001, Some 3500] \<and> \<not> latency_history [Some 2000, Some 3001, Some 3500]"
proof -
  have "latency_history [None, Some 2500, Some 3001, Some 3500]"
    unfolding latency_switch_hysteresis
    by (rule exI [of _ 2]) (auto simp: slow_hour_def releasing_hour_def COPY_LATENCY_ENGAGE_MS_def
        COPY_LATENCY_RELEASE_MS_def nth_Cons split: nat.splits)
  moreover have "\<not> latency_history [Some 2000, Some 3001, Some 3500]"
    by (simp add: latency_switch_def COPY_LATENCY_RELEASE_MS_def COPY_LATENCY_ENGAGE_MS_def)
  ultimately show ?thesis by blast
qed

subsection \<open>Owners combined\<close>

definition with_pnl :: "risk_snapshot \<Rightarrow> pnl_bps_values \<Rightarrow> risk_snapshot" where
  "with_pnl s p = s\<lparr>intraday_pnl_bps := pnl_intraday p, rolling_7d_pnl_bps := pnl_rolling_7d p,
                    absolute_pnl_bps := pnl_absolute p\<rparr>"

definition drawdown_clear :: "drawdown_policy \<Rightarrow> pnl_bps_values \<Rightarrow> bool" where
  "drawdown_clear d p \<longleftrightarrow> absolute_loss_bps d < pnl_absolute p \<and>
     (d = Stops \<longrightarrow> INTRADAY_STOP_BPS < pnl_intraday p \<and> ROLLING_7D_STOP_BPS < pnl_rolling_7d p)"

definition pnl_min :: "pnl_bps_values \<Rightarrow> pnl_bps_values \<Rightarrow> pnl_bps_values" where
  "pnl_min w i = \<lparr>pnl_intraday = min (pnl_intraday w) (pnl_intraday i),
                  pnl_rolling_7d = min (pnl_rolling_7d w) (pnl_rolling_7d i),
                  pnl_absolute = min (pnl_absolute w) (pnl_absolute i)\<rparr>"

lemma approved_split:
  "evaluate_risk (with_pnl s p) = RiskApproved \<longleftrightarrow>
     drawdown_clear (rs_drawdown_policy s) p \<and>
     evaluate_risk (s\<lparr>intraday_pnl_bps := 0, rolling_7d_pnl_bps := 0, absolute_pnl_bps := 0\<rparr>) = RiskApproved"
  by (cases "rs_drawdown_policy s")
    (auto simp: evaluate_risk_def with_pnl_def drawdown_clear_def risk_constants Let_def split: option.splits)

lemma drawdown_clear_min: "drawdown_clear d (pnl_min w i) \<longleftrightarrow> drawdown_clear d w \<and> drawdown_clear d i"
  by (auto simp: drawdown_clear_def pnl_min_def)

lemma drawdown_clear_fold:
  "drawdown_clear d (fold (\<lambda>i w. pnl_min w i) ps w) \<longleftrightarrow> drawdown_clear d w \<and> (\<forall>p\<in>set ps. drawdown_clear d p)"
  by (induction ps arbitrary: w) (auto simp: drawdown_clear_min)

text \<open>C33. Evaluating the gate once with the worst owner's profit and loss approves a trade exactly when the gate would approve it for every owner separately.\<close>

theorem worst_owner_exact:
  assumes "worst_owner ps = Some w"
  shows "evaluate_risk (with_pnl s w) = RiskApproved \<longleftrightarrow> (\<forall>p\<in>set ps. evaluate_risk (with_pnl s p) = RiskApproved)"
proof -
  obtain q qs where ps: "ps = q # qs" and w: "w = fold (\<lambda>i w. pnl_min w i) qs q"
    using assms by (cases ps) (auto simp: worst_owner_def pnl_min_def)
  show ?thesis by (auto simp: approved_split w drawdown_clear_fold ps)
qed

definition calm_snapshot :: risk_snapshot where
  "calm_snapshot = \<lparr>leader_exposure_bps = 10, market_exposure_bps = 20, family_exposure_bps = 30,
     total_copy_exposure_bps = 40, intraday_pnl_bps = 0, rolling_7d_pnl_bps = 0, absolute_pnl_bps = 0,
     copy_latency_kill_switch_active = False, proposed_trade_bps = 25, per_trade_cap_bps = 25,
     rs_drawdown_policy = Stops, rs_concentration_caps = Some CANONICAL\<rparr>"

theorem worst_owner_exact_witness:
  "evaluate_risk (with_pnl calm_snapshot
      \<lparr>pnl_intraday = - 150, pnl_rolling_7d = - 500, pnl_absolute = - 900\<rparr>) = RiskApproved"
proof -
  let ?a = "\<lparr>pnl_intraday = - 150, pnl_rolling_7d = 10, pnl_absolute = - 900\<rparr>"
  let ?b = "\<lparr>pnl_intraday = 5, pnl_rolling_7d = - 500, pnl_absolute = 0\<rparr>"
  have w: "worst_owner [?a, ?b] = Some \<lparr>pnl_intraday = - 150, pnl_rolling_7d = - 500, pnl_absolute = - 900\<rparr>"
    by (simp add: worst_owner_def)
  show ?thesis
    unfolding worst_owner_exact [OF w]
    by (simp add: evaluate_risk_def with_pnl_def calm_snapshot_def exceeds_concentration_cap_def checked_add_i32_def
        is_i32_def risk_constants)
qed

subsection \<open>The canary gate\<close>

lemma exposure_bps_ceil_exact:
  "exposure_bps_ceil amount bankroll = Some b \<longleftrightarrow>
     bankroll \<noteq> 0 \<and> b = int ((unat amount * 10000 + (unat bankroll - 1)) div unat bankroll) \<and> b < 2 ^ 31"
proof -
  have "unat amount * 10000 + (unat bankroll - 1) < 2 ^ 128"
    using unat_less_len [of amount] unat_less_len [of bankroll] by simp
  moreover from this have "unat amount * 10000 < 2 ^ 128" by linarith
  ultimately show ?thesis
    by (auto simp: exposure_bps_ceil_def u128_checked_def Let_def)
qed

text \<open>C30. Basis points of bankroll are rounded outward: the reported exposure is the least whole number of basis points that covers the amount, and it is missing only for a zero bankroll or a value that does not fit \<open>i32\<close>.\<close>

theorem exposure_rounds_outward:
  assumes "bankroll \<noteq> 0"
  shows "(\<forall>b. exposure_bps_ceil amount bankroll = Some b \<longrightarrow>
            int (unat amount) * 10000 \<le> b * int (unat bankroll) \<and>
            (\<forall>c. int (unat amount) * 10000 \<le> c * int (unat bankroll) \<longrightarrow> b \<le> c)) \<and>
         (exposure_bps_ceil amount bankroll = None \<longleftrightarrow>
            (2 ^ 31 - 1) * int (unat bankroll) < int (unat amount) * 10000)"
proof -
  define d where "d = int (unat bankroll)"
  define n where "n = int (unat amount) * 10000"
  have "unat bankroll \<noteq> 0" using assms by (simp add: unat_eq_0)
  then have d: "0 < d" unfolding d_def by linarith
  have n: "0 \<le> n" by (simp add: n_def)
  define q where "q = (n + (d - 1)) div d"
  have q: "int ((unat amount * 10000 + (unat bankroll - 1)) div unat bankroll) = q"
  proof -
    have "int (unat bankroll - 1) = d - 1" using d by (simp add: d_def of_nat_diff Suc_leI unat_gt_0 del: of_nat_unat)
    then show ?thesis by (simp add: q_def n_def zdiv_int d_def add_diff_eq del: of_nat_unat)
  qed
  have upper: "n \<le> q * d"
  proof -
    have "q * d + (n + (d - 1)) mod d = n + (d - 1)" by (simp add: q_def)
    moreover have "(n + (d - 1)) mod d < d" using d by simp
    ultimately show ?thesis by linarith
  qed
  have least: "q \<le> c" if "n \<le> c * d" for c
  proof -
    have "n + (d - 1) < (c + 1) * d" using that by (simp add: distrib_right)
    moreover have "q * d + (n + (d - 1)) mod d = n + (d - 1)" by (simp add: q_def)
    moreover have "0 \<le> (n + (d - 1)) mod d" using d by simp
    ultimately have "q * d < (c + 1) * d" by linarith
    then have "q < c + 1" using d by (simp add: mult_less_cancel_right)
    then show ?thesis by simp
  qed
  have some: "exposure_bps_ceil amount bankroll = Some b \<longleftrightarrow> b = q \<and> b < 2 ^ 31" for b
    unfolding exposure_bps_ceil_exact q using assms by auto
  have "exposure_bps_ceil amount bankroll = None \<longleftrightarrow> \<not> q < 2 ^ 31"
    using some [of q] some by (cases "exposure_bps_ceil amount bankroll") auto
  also have "\<dots> \<longleftrightarrow> \<not> q \<le> 2 ^ 31 - 1" by auto
  also have "\<dots> \<longleftrightarrow> (2 ^ 31 - 1) * d < n"
    using least [of "2 ^ 31 - 1"] upper d
    by (metis (no_types, opaque_lifting) dual_order.trans linorder_not_le mult_right_mono order_less_imp_le)
  finally show ?thesis using some upper least by (auto simp: d_def n_def)
qed

theorem exposure_rounds_outward_witness:
  "exposure_bps_ceil 1 3 = Some 3334"
proof -
  have "exposure_bps_ceil 1 3 \<noteq> None"
    using exposure_rounds_outward [of 3 1] by simp
  then obtain b where b: "exposure_bps_ceil 1 3 = Some b" by blast
  have "10000 \<le> b * 3" and "b \<le> 3334"
    using exposure_rounds_outward [of 3 1] b by auto
  then have "b = 3334" by simp
  with b show ?thesis by simp
qed

definition exposures_small :: "canary_risk_snapshot \<Rightarrow> bool" where
  "exposures_small s \<longleftrightarrow>
     list_all (\<lambda>e. is_i32 e \<and> e + 50 < 2 ^ 31)
       ((case crs_leader_exposure_bps s of None \<Rightarrow> 0 | Some e \<Rightarrow> e) #
        [crs_market_exposure_bps s, crs_family_exposure_bps s, crs_total_copy_exposure_bps s, crs_open_exposure_bps s])"

definition canary_limits :: "canary_risk_snapshot \<Rightarrow> basis_points \<Rightarrow> bool" where
  "canary_limits s b \<longleftrightarrow>
     b \<le> 50 \<and> unat (crs_proposed_worst_case_debit s) \<le> 1000000 \<and>
     crs_proposed_worst_case_debit s \<le> crs_allowance s \<and> unat (crs_allowance s) \<le> 8000000 \<and>
     (case crs_leader_exposure_bps s of None \<Rightarrow> 0 | Some e \<Rightarrow> e) + b \<le> 300 \<and>
     crs_market_exposure_bps s + b \<le> 200 \<and> crs_family_exposure_bps s + b \<le> 800 \<and>
     crs_total_copy_exposure_bps s + b \<le> 2500 \<and> crs_open_exposure_bps s + b \<le> 2500 \<and>
     crs_account_state_fresh s \<and> crs_venue_reconciliation_fresh s \<and> crs_resolver_tradable s \<and>
     crs_geoblock_fresh s \<and> \<not> crs_geoblocked s \<and> crs_closed_only_fresh s \<and> \<not> crs_closed_only s \<and>
     crs_jurisdiction_attestation_valid s \<and> crs_standard_spender_only s \<and> \<not> crs_pending_reservation s \<and>
     (crs_origin s = Organic \<longleftrightarrow> crs_leader_exposure_bps s \<noteq> None)"

lemma passes_gate [simp]: "(if c then RiskBlocked x else r) = RiskApproved \<longleftrightarrow> \<not> c \<and> r = RiskApproved"
  by simp

lemma wrap_small: "is_i32 e \<Longrightarrow> 0 \<le> b \<Longrightarrow> b \<le> 50 \<Longrightarrow> e + 50 < 2 ^ 31 \<Longrightarrow> wrap_i32 (e + b) = e + b"
  by (rule wrap_i32_id) (simp add: is_i32_def)

text \<open>C11. As long as no exposure is within 50 basis points of \<open>i32::MAX\<close>, an approved canary order is inside every limit of the canary campaign: at most 50 basis points of bankroll rounded outward, at most one unit of collateral, covered by an allowance of at most eight to the standard spender, all concentration sums within their caps, and every freshness and jurisdiction flag set.\<close>

theorem canary_gate_enforces_limits:
  assumes "exposures_small s" and "evaluate_canary_risk s = RiskApproved"
  shows "\<exists>b. exposure_bps_ceil (crs_proposed_worst_case_debit s) (crs_canary_bankroll s) = Some b \<and> canary_limits s b"
proof -
  obtain b where b: "exposure_bps_ceil (crs_proposed_worst_case_debit s) (crs_canary_bankroll s) = Some b"
    using assms(2) by (auto simp: evaluate_canary_risk_def split: option.splits)
  have b0: "0 \<le> b" using b by (simp add: exposure_bps_ceil_exact)
  have gates: "\<not> (CANARY_PER_TRADE_CAP_BPS < b \<or> CANARY_MAX_ORDER_DEBIT < crs_proposed_worst_case_debit s)"
    "crs_resolver_tradable s" "crs_account_state_fresh s" "crs_venue_reconciliation_fresh s" "\<not> crs_geoblocked s"
    "\<not> crs_closed_only s" "\<not> crs_pending_reservation s" "crs_geoblock_fresh s" "crs_closed_only_fresh s"
    "crs_jurisdiction_attestation_valid s" "crs_standard_spender_only s"
    "\<not> CANARY_MAX_ALLOWANCE < crs_allowance s" "\<not> crs_allowance s < crs_proposed_worst_case_debit s"
    using assms(2) by (simp_all add: evaluate_canary_risk_def b)
  have b50: "b \<le> 50" using gates(1) by (simp add: risk_constants)
  note w = wrap_small [OF _ b0 b50]
  have sums: "wrap_i32 (crs_market_exposure_bps s + b) = crs_market_exposure_bps s + b"
    "wrap_i32 (crs_family_exposure_bps s + b) = crs_family_exposure_bps s + b"
    "wrap_i32 (crs_total_copy_exposure_bps s + b) = crs_total_copy_exposure_bps s + b"
    "wrap_i32 (crs_open_exposure_bps s + b) = crs_open_exposure_bps s + b"
    "\<And>e. crs_leader_exposure_bps s = Some e \<Longrightarrow> wrap_i32 (e + b) = e + b"
    using assms(1) by (auto simp: exposures_small_def intro!: w)
  have wb: "wrap_i32 b = b" using b0 b50 by (intro wrap_i32_id) (simp add: is_i32_def)
  have market: "crs_market_exposure_bps s + b \<le> 200 \<and> crs_family_exposure_bps s + b \<le> 800 \<and>
      crs_total_copy_exposure_bps s + b \<le> 2500 \<and> crs_open_exposure_bps s + b \<le> 2500"
    using assms(2) b sums(1-4)
    by (cases "crs_origin s"; cases "crs_leader_exposure_bps s") (simp_all add: evaluate_canary_risk_def)
  have leader: "(case crs_leader_exposure_bps s of None \<Rightarrow> 0 | Some e \<Rightarrow> e) + b \<le> 300 \<and>
      (crs_origin s = Organic \<longleftrightarrow> crs_leader_exposure_bps s \<noteq> None)"
    using assms(2) b sums(5) wb
    by (cases "crs_origin s"; cases "crs_leader_exposure_bps s") (simp_all add: evaluate_canary_risk_def)
  have "canary_limits s b"
    using gates b50 market leader
    by (simp add: canary_limits_def risk_constants word_le_nat_alt word_less_nat_alt not_less)
  with b show ?thesis by blast
qed

definition quiet_canary :: canary_risk_snapshot where
  "quiet_canary = \<lparr>crs_origin = OperatorProbe, crs_proposed_worst_case_debit = 900000,
     crs_canary_bankroll = 1000000000, crs_leader_exposure_bps = None, crs_market_exposure_bps = 100,
     crs_family_exposure_bps = 100, crs_total_copy_exposure_bps = 100, crs_open_exposure_bps = 100,
     crs_resolver_tradable = True, crs_account_state_fresh = True, crs_venue_reconciliation_fresh = True,
     crs_geoblock_fresh = True, crs_geoblocked = False, crs_closed_only_fresh = True, crs_closed_only = False,
     crs_jurisdiction_attestation_valid = True, crs_pending_reservation = False, crs_allowance = 2000000,
     crs_standard_spender_only = True\<rparr>"

lemma quiet_exposure: "exposure_bps_ceil 900000 1000000000 = Some 9"
  by (simp add: exposure_bps_ceil_exact)

lemma quiet_canary_approved: "evaluate_canary_risk quiet_canary = RiskApproved"
  by (simp add: evaluate_canary_risk_def quiet_canary_def quiet_exposure risk_constants wrap_i32_def)

theorem canary_gate_enforces_limits_witness:
  "\<exists>b. exposure_bps_ceil 900000 1000000000 = Some b \<and> canary_limits quiet_canary b"
  using canary_gate_enforces_limits [OF _ quiet_canary_approved]
  by (simp add: exposures_small_def is_i32_def quiet_canary_def)


subsection \<open>The resolution credit\<close>

definition shares_of :: "u16 \<Rightarrow> (u16 \<times> share_amount) list \<Rightarrow> nat" where
  "shares_of oc positions = (\<Sum>(o', s)\<leftarrow>positions. if o' = oc then unat s else 0)"


lemma shares_of_simps [simp]:
  "shares_of oc [] = 0"
  "shares_of oc (p # ps) = (if fst p = oc then unat (snd p) else 0) + shares_of oc ps"
  by (auto simp: shares_of_def split: prod.splits)

lemma shares_of_append [simp]: "shares_of oc (ps @ qs) = shares_of oc ps + shares_of oc qs"
  by (induction ps) auto















end
