(* ===== verification/Fee_Ladder.thy ===== *)
theory Fee_Ladder
  imports Decimal
begin

section \<open>Fees and the ask ladder (crates/venue-polymarket/src/fee.rs, ladder.rs)\<close>

text \<open>
  The compact fee schedule and its parser, the taker fee, the fee reserve and the principal that fits
  a budget, and the planner that walks the asks of a book for a collateral-path buy. Prices are
  decimals of the parameter type \<open>'d\<close>; a \<open>?\<close> on an arithmetic \<open>Option\<close> is \<open>Option.bind\<close>. The JSON
  reader (\<open>serde_json\<close>) and the decimal parser of \<open>rust_decimal\<close> are the entries of \<open>lexemes\<close>. The
  loops over the book are recursive functions over the list of asks that carry the local variables.
\<close>

subsection \<open>The fee schedule\<close>

datatype 'd compact_fee_schedule = ZeroFee | TakerFee 'd

datatype fee_schedule_error = MakerFeeError | ExponentError | Unrepresentable | UnknownBase | MalformedFee

text \<open>
  \<open>lx_object\<close> and \<open>lx_object_str\<close> read a JSON object into its raw lexemes by key, the others read a
  lexeme; \<open>lx_trim\<close> is \<open>str::trim\<close>.
\<close>

record 'd lexemes =
  lx_object :: "u8 list \<Rightarrow> (string \<times> string) list option"
  lx_object_str :: "string \<Rightarrow> (string \<times> string) list option"
  lx_i64 :: "string \<Rightarrow> i64 option"
  lx_bool :: "string \<Rightarrow> bool option"
  lx_string :: "string \<Rightarrow> string option"
  lx_trim :: "string \<Rightarrow> string"
  lx_from_str_exact :: "string \<Rightarrow> 'd option"
  lx_from_scientific :: "string \<Rightarrow> 'd option"

definition parse_decimal_lexeme :: "'d lexemes \<Rightarrow> string \<Rightarrow> fee_schedule_error + 'd" where
  "parse_decimal_lexeme X raw =
     (let lexeme = lx_trim X raw in
      rbind (if take 1 lexeme = [CHR 0x22] then ok_or MalformedFee (lx_string X lexeme) else Inr lexeme) (\<lambda>unquoted.
      case lx_from_str_exact X unquoted of
        Some d \<Rightarrow> Inr d
      | None \<Rightarrow> ok_or Unrepresentable (lx_from_scientific X unquoted)))"

definition optional_base_fee ::
    "'d lexemes \<Rightarrow> (string \<times> string) list \<Rightarrow> string \<Rightarrow> fee_schedule_error + 'd option" where
  "optional_base_fee X entries key =
     (case map_of entries key of
        None \<Rightarrow> Inr None
      | Some raw \<Rightarrow>
          if lx_trim X raw = ''null'' then Inl UnknownBase
          else map_sum (\<lambda>_. UnknownBase) Some (parse_decimal_lexeme X raw))"

definition parse_compact_fee_schedule ::
    "'d decimal_ops \<Rightarrow> 'd lexemes \<Rightarrow> u8 list \<Rightarrow> fee_schedule_error + 'd compact_fee_schedule" where
  "parse_compact_fee_schedule D X input =
     rbind (ok_or MalformedFee (lx_object X input)) (\<lambda>entries.
     case map_of entries ''fd'' of
       None \<Rightarrow>
         rbind (optional_base_fee X entries ''mbf'') (\<lambda>maker_base.
         if (case maker_base of None \<Rightarrow> False | Some v \<Rightarrow> \<not> dec_eq D v (dec_zero D)) then Inl MakerFeeError
         else rbind (optional_base_fee X entries ''tbf'') (\<lambda>taker_base.
           if (case taker_base of None \<Rightarrow> True | Some v \<Rightarrow> dec_eq D v (dec_zero D)) then Inr ZeroFee
           else Inl UnknownBase))
     | Some details \<Rightarrow>
         if lx_trim X details = ''null'' then Inl MalformedFee
         else
           rbind (ok_or MalformedFee (lx_object_str X details)) (\<lambda>detail_fields.
           if length detail_fields \<noteq> 3 then Inl MalformedFee
           else
             rbind (ok_or MalformedFee (map_of detail_fields ''r'')) (\<lambda>r.
             rbind (ok_or MalformedFee (map_of detail_fields ''e'')) (\<lambda>e.
             rbind (ok_or MalformedFee (map_of detail_fields ''to'')) (\<lambda>t.
             rbind (parse_decimal_lexeme X r) (\<lambda>rate.
             rbind (ok_or MalformedFee (lx_i64 X e)) (\<lambda>exponent.
             rbind (ok_or MalformedFee (lx_bool X t)) (\<lambda>taker_only.
             if \<not> taker_only then Inl MakerFeeError
             else if exponent \<noteq> 1 then Inl ExponentError
             else if dec_lt D rate (dec_zero D) \<or> dec_le D (dec_one D) rate then Inl Unrepresentable
             else Inr (TakerFee rate)))))))))"

subsection \<open>Fees\<close>

datatype fee_error = FeeArithmetic | FeeBand

definition validated_rate :: "'d decimal_ops \<Rightarrow> 'd compact_fee_schedule \<Rightarrow> fee_error + 'd option" where
  "validated_rate D schedule =
     (case schedule of
        ZeroFee \<Rightarrow> Inr None
      | TakerFee rate \<Rightarrow>
          if dec_le D (dec_zero D) rate \<and> dec_lt D rate (dec_one D) then Inr (Some rate) else Inl FeeArithmetic)"

definition validate_band :: "'d decimal_ops \<Rightarrow> 'd \<Rightarrow> 'd \<Rightarrow> fee_error + unit" where
  "validate_band D floor_price ceiling_price = (if dec_lt D ceiling_price floor_price then Inl FeeBand else Inr ())"

definition collateral_exact :: "'d decimal_ops \<Rightarrow> 'd \<Rightarrow> fee_error + collateral_amount" where
  "collateral_exact D d = map_err (\<lambda>_. FeeArithmetic) (amount_from_decimal_exact D ''CollateralAmount'' d)"

definition taker_fee ::
    "'d decimal_ops \<Rightarrow> 'd compact_fee_schedule \<Rightarrow> share_amount \<Rightarrow> 'd \<Rightarrow> fee_error + collateral_amount" where
  "taker_fee D schedule shares price =
     rbind (validated_rate D schedule) (\<lambda>r. case r of
       None \<Rightarrow> Inr 0
     | Some rate \<Rightarrow>
         rbind (ok_or FeeArithmetic
                  (Option.bind (dec_checked_mul D (amount_to_decimal D shares) rate) (\<lambda>v.
                   Option.bind (dec_checked_mul D v price) (\<lambda>v.
                   Option.bind (dec_checked_sub D (dec_one D) price) (\<lambda>q. dec_checked_mul D v q))))) (\<lambda>raw.
           collateral_exact D (dec_round_dp D 5 ToZero raw)))"

definition signed_price :: "'d decimal_ops \<Rightarrow> collateral_amount \<Rightarrow> share_amount \<Rightarrow> fee_error + 'd" where
  "signed_price D maker_collateral taker_shares =
     (if maker_collateral = 0 \<or> taker_shares = 0 then Inl FeeArithmetic
      else rbind (ok_or FeeArithmetic
                    (dec_checked_div D (amount_to_decimal D maker_collateral) (amount_to_decimal D taker_shares))) (\<lambda>ratio.
             map_err (\<lambda>_. FeeArithmetic) (price_new D ratio)))"

definition principal_implied_shares :: "'d decimal_ops \<Rightarrow> collateral_amount \<Rightarrow> 'd \<Rightarrow> fee_error + 'd" where
  "principal_implied_shares D prin limit_price =
     (if dec_eq D limit_price (dec_zero D) then Inl FeeArithmetic
      else ok_or FeeArithmetic (dec_checked_div D (amount_to_decimal D prin) limit_price))"

definition maximum_curve_price :: "'d decimal_ops \<Rightarrow> 'd \<Rightarrow> 'd \<Rightarrow> 'd" where
  "maximum_curve_price D floor_price ceiling_price =
     (let half = dec_new D 5 1 in
      if dec_le D floor_price half \<and> dec_le D half ceiling_price then half
      else if dec_lt D ceiling_price half then ceiling_price
      else floor_price)"

definition fee_reserve ::
    "'d decimal_ops \<Rightarrow> 'd compact_fee_schedule \<Rightarrow> collateral_amount \<Rightarrow> 'd \<Rightarrow> 'd \<Rightarrow> fee_error + collateral_amount" where
  "fee_reserve D schedule prin best_ask limit_price =
     rbind (validate_band D best_ask limit_price) (\<lambda>_.
     rbind (validated_rate D schedule) (\<lambda>r. case r of
       None \<Rightarrow> Inr 0
     | Some rate \<Rightarrow>
         if prin = 0 then Inr 0
         else
           rbind (principal_implied_shares D prin limit_price) (\<lambda>minimum_shares.
           let curve_price = maximum_curve_price D best_ask limit_price in
           rbind (ok_or FeeArithmetic (Option.bind (dec_checked_sub D (dec_one D) curve_price) (\<lambda>q.
                                         dec_checked_mul D curve_price q))) (\<lambda>curve.
           rbind (ok_or FeeArithmetic (Option.bind (dec_checked_mul D minimum_shares rate) (\<lambda>v.
                                         dec_checked_mul D v curve))) (\<lambda>raw.
             collateral_exact D (dec_round_dp D 5 ToPositiveInfinity raw))))))"

definition all_in_reserve ::
    "'d decimal_ops \<Rightarrow> 'd compact_fee_schedule \<Rightarrow> collateral_amount \<Rightarrow> 'd \<Rightarrow> fee_error + collateral_amount" where
  "all_in_reserve D schedule prin floor_price =
     rbind (validated_rate D schedule) (\<lambda>r. case r of
       None \<Rightarrow> Inr prin
     | Some rate \<Rightarrow>
         rbind (ok_or FeeArithmetic
                  (Option.bind (dec_checked_mul D (amount_to_decimal D prin) rate) (\<lambda>v.
                   Option.bind (dec_checked_sub D (dec_one D) floor_price) (\<lambda>q. dec_checked_mul D v q)))) (\<lambda>raw.
         rbind (collateral_exact D (dec_round_dp D 5 ToPositiveInfinity raw)) (\<lambda>reserve.
           map_err (\<lambda>_. FeeArithmetic) (collateral_checked_add prin reserve))))"

definition principal_for_budget ::
    "'d decimal_ops \<Rightarrow> 'd compact_fee_schedule \<Rightarrow> collateral_amount \<Rightarrow> 'd \<Rightarrow> 'd \<Rightarrow> fee_error + collateral_amount" where
  "principal_for_budget D schedule budget floor_price ceiling_price =
     rbind (validate_band D floor_price ceiling_price) (\<lambda>_.
     rbind (validated_rate D schedule) (\<lambda>r. case r of
       None \<Rightarrow> Inr budget
     | Some rate \<Rightarrow>
         rbind (ok_or FeeArithmetic (Option.bind (dec_checked_sub D (dec_one D) floor_price) (dec_checked_mul D rate))) (\<lambda>fee_ratio.
         rbind (ok_or FeeArithmetic (dec_checked_add D (dec_one D) fee_ratio)) (\<lambda>divisor.
         rbind (ok_or FeeArithmetic (dec_checked_div D (amount_to_decimal D budget) divisor)) (\<lambda>quotient.
         rbind (collateral_exact D (dec_round_dp D 6 ToNegativeInfinity quotient)) (\<lambda>prin.
         rbind (all_in_reserve D schedule prin floor_price) (\<lambda>rechecked.
         rbind (if budget < rechecked
                then rbind (map_err (\<lambda>_. FeeArithmetic) (amount_checked_sub ''CollateralAmount'' rechecked budget)) (\<lambda>excess.
                       if prin \<le> excess then Inr 0
                       else map_err (\<lambda>_. FeeArithmetic) (amount_checked_sub ''CollateralAmount'' prin excess))
                else Inr prin) (\<lambda>prin.
         rbind (all_in_reserve D schedule prin floor_price) (\<lambda>all_in.
           if budget < all_in then Inl FeeArithmetic else Inr prin)))))))))"

definition fee_within_reserve :: "collateral_amount \<Rightarrow> collateral_amount \<Rightarrow> bool" where
  "fee_within_reserve fee reserve \<longleftrightarrow> fee \<le> reserve \<and> fee mod 10 = 0"

subsection \<open>The ladder\<close>

definition LADDER_MAX_AGE_MS :: u64 where "LADDER_MAX_AGE_MS = 2000"

definition ladder_is_stale :: "u64 \<Rightarrow> u64 \<Rightarrow> bool" where
  "ladder_is_stale now_ms observed_ms \<longleftrightarrow> now_ms < observed_ms \<or> LADDER_MAX_AGE_MS < now_ms - observed_ms"

datatype ladder_error =
    BelowBandAsk | InsufficientDepth | NothingAffordable | BelowMinimum | CapExceeded | NoKellyEdge
  | KellySizingInvalid | LadderFee fee_error | LadderAmount

record 'd ask_level =
  ask_price :: 'd
  ask_shares :: share_amount

record 'd ladder_plan =
  used_asks :: "'d ask_level list"
  best_ask :: 'd
  limit_price :: 'd
  plan_shares :: share_amount
  worst_case_debit :: collateral_amount

definition plan_signed_price :: "'d decimal_ops \<Rightarrow> 'd ladder_plan \<Rightarrow> ladder_error + 'd" where
  "plan_signed_price D plan = map_err LadderFee (signed_price D (worst_case_debit plan) (plan_shares plan))"

definition collateral_floor :: "'d decimal_ops \<Rightarrow> 'd \<Rightarrow> ladder_error + collateral_amount" where
  "collateral_floor D v =
     map_err (\<lambda>_. LadderAmount) (amount_from_decimal_exact D ''CollateralAmount'' (dec_round_dp D 6 ToNegativeInfinity v))"

definition decimal_to_atomic_shares :: "'d decimal_ops \<Rightarrow> 'd \<Rightarrow> ladder_error + share_amount" where
  "decimal_to_atomic_shares D v =
     map_err (\<lambda>_. LadderAmount) (amount_from_decimal_exact D ''ShareAmount'' (dec_round_dp D 6 ToNegativeInfinity v))"

definition whole_shares :: "u64 \<Rightarrow> ladder_error + share_amount" where
  "whole_shares n = ok_or LadderAmount (checked_mul n 1000000)"

definition expected_spend_decimal :: "'d decimal_ops \<Rightarrow> 'd ask_level list \<Rightarrow> ladder_error + 'd" where
  "expected_spend_decimal D asks =
     try_fold (\<lambda>total ask.
        ok_or LadderAmount (Option.bind (dec_checked_mul D (amount_to_decimal D (ask_shares ask)) (ask_price ask)) (\<lambda>cost.
                              dec_checked_add D total cost))) (dec_zero D) asks"

definition plan_expected_shares :: "'d ladder_plan \<Rightarrow> ladder_error + share_amount" where
  "plan_expected_shares plan =
     try_fold (\<lambda>total ask. map_err (\<lambda>_. LadderAmount) (share_checked_add total (ask_shares ask))) 0 (used_asks plan)"

definition plan_expected_spend :: "'d decimal_ops \<Rightarrow> 'd ladder_plan \<Rightarrow> ladder_error + collateral_amount" where
  "plan_expected_spend D plan = rbind (expected_spend_decimal D (used_asks plan)) (collateral_floor D)"

definition ok :: "'e + 'a \<Rightarrow> 'a option" where
  "ok r = (case r of Inl _ \<Rightarrow> None | Inr a \<Rightarrow> Some a)"

definition plan_vwap :: "'d decimal_ops \<Rightarrow> 'd ladder_plan \<Rightarrow> 'd option" where
  "plan_vwap D plan =
     Option.bind (ok (plan_expected_shares plan)) (\<lambda>n.
     let shares = amount_to_decimal D n in
     if dec_le D shares (dec_zero D) then None
     else Option.bind (ok (plan_expected_spend D plan)) (\<lambda>spend.
          Option.bind (dec_checked_div D (amount_to_decimal D spend) shares) (\<lambda>q. ok (price_new D q))))"

definition signed_share_contracts :: "'d decimal_ops \<Rightarrow> share_amount \<Rightarrow> ladder_error + u64" where
  "signed_share_contracts D shares = ok_or LadderAmount (dec_to_u64 D (dec_floor D (amount_to_decimal D shares)))"

definition validate_level_order :: "'d decimal_ops \<Rightarrow> 'd ask_level list \<Rightarrow> 'd ask_level \<Rightarrow> ladder_error + unit" where
  "validate_level_order D used level =
     (if used \<noteq> [] \<and> dec_lt D (ask_price level) (ask_price (last used)) then Inl LadderAmount else Inr ())"

definition first_eligible_ask :: "'d decimal_ops \<Rightarrow> 'd ask_level list \<Rightarrow> 'd \<Rightarrow> 'd \<Rightarrow> 'd \<Rightarrow> ladder_error + 'd" where
  "first_eligible_ask D asks minimum_price maximum_price_exclusive ceil_price =
     (case asks of
        [] \<Rightarrow> Inl InsufficientDepth
      | first # _ \<Rightarrow>
          if dec_lt D (ask_price first) minimum_price then Inl BelowBandAsk
          else if dec_le D maximum_price_exclusive (ask_price first) \<or> dec_lt D ceil_price (ask_price first)
          then Inl InsufficientDepth
          else Inr (ask_price first))"

definition shares_for_principal :: "'d decimal_ops \<Rightarrow> collateral_amount \<Rightarrow> 'd \<Rightarrow> u32 \<Rightarrow> ladder_error + share_amount" where
  "shares_for_principal D prin price scale =
     (if dec_eq D price (dec_zero D) then Inl LadderAmount
      else rbind (map_err (\<lambda>_. LadderAmount) (principal_implied_shares D prin price)) (\<lambda>implied.
             map_err (\<lambda>_. LadderAmount)
               (amount_from_decimal_exact D ''ShareAmount'' (dec_round_dp D scale ToNegativeInfinity implied))))"

text \<open>The band check at the head of each loop: an error, the end of the walk, or the level itself.\<close>

datatype level_verdict = LevelError ladder_error | LevelStop | LevelUse

definition level_check :: "'d decimal_ops \<Rightarrow> 'd \<Rightarrow> 'd \<Rightarrow> 'd \<Rightarrow> 'd ask_level \<Rightarrow> level_verdict" where
  "level_check D minimum_price maximum_price_exclusive ceil_price level =
     (if dec_lt D (ask_price level) minimum_price then LevelError BelowBandAsk
      else if dec_le D maximum_price_exclusive (ask_price level) \<or> dec_lt D ceil_price (ask_price level) then LevelStop
      else if dec_eq D (ask_price level) (dec_zero D) \<or> ask_shares level = 0 then LevelError LadderAmount
      else LevelUse)"

record 'd principal_state =
  pst_remaining :: 'd
  pst_used_asks :: "'d ask_level list"
  pst_capacity :: 'd
  pst_best_ask :: "'d option"
  pst_limit_price :: "'d option"

fun walk_principal_loop ::
    "'d decimal_ops \<Rightarrow> 'd \<Rightarrow> 'd \<Rightarrow> 'd \<Rightarrow> 'd ask_level list \<Rightarrow> 'd principal_state \<Rightarrow> ladder_error + 'd principal_state" where
  "walk_principal_loop D minimum_price maximum_price_exclusive ceil_price [] st = Inr st"
| "walk_principal_loop D minimum_price maximum_price_exclusive ceil_price (level # asks) st =
     rbind (validate_level_order D (pst_used_asks st) level) (\<lambda>_.
     case level_check D minimum_price maximum_price_exclusive ceil_price level of
       LevelError e \<Rightarrow> Inl e
     | LevelStop \<Rightarrow> Inr st
     | LevelUse \<Rightarrow>
         rbind (ok_or LadderAmount (dec_checked_mul D (amount_to_decimal D (ask_shares level)) (ask_price level))) (\<lambda>level_cost.
         rbind (ok_or LadderAmount (dec_checked_add D (pst_capacity st) level_cost)) (\<lambda>capacity.
         let st1 = st\<lparr>pst_capacity := capacity,
                      pst_best_ask := (case pst_best_ask st of None \<Rightarrow> Some (ask_price level) | Some p \<Rightarrow> Some p),
                      pst_limit_price := Some (ask_price level)\<rparr> in
         if dec_le D level_cost (pst_remaining st) then
           rbind (ok_or LadderAmount (dec_checked_sub D (pst_remaining st) level_cost)) (\<lambda>remaining.
           let st2 = st1\<lparr>pst_used_asks := pst_used_asks st @ [level], pst_remaining := remaining\<rparr> in
           if dec_eq D remaining (dec_zero D) then Inr st2
           else walk_principal_loop D minimum_price maximum_price_exclusive ceil_price asks st2)
         else
           rbind (ok_or LadderAmount (dec_checked_div D (pst_remaining st) (ask_price level))) (\<lambda>q.
           rbind (decimal_to_atomic_shares D q) (\<lambda>shares.
             Inr (if shares \<noteq> 0
                  then st1\<lparr>pst_used_asks := pst_used_asks st @ [\<lparr>ask_price = ask_price level, ask_shares = shares\<rparr>]\<rparr>
                  else st1))))))"

record 'd principal_walk =
  pw_principal :: collateral_amount
  pw_used_asks :: "'d ask_level list"
  pw_best_ask :: 'd
  pw_limit_price :: 'd

definition walk_principal ::
    "'d decimal_ops \<Rightarrow> 'd ask_level list \<Rightarrow> collateral_amount \<Rightarrow> bool \<Rightarrow> 'd \<Rightarrow> 'd \<Rightarrow> 'd \<Rightarrow> ladder_error + 'd principal_walk" where
  "walk_principal D asks prin accept_partial minimum_price maximum_price_exclusive ceil_price =
     rbind (walk_principal_loop D minimum_price maximum_price_exclusive ceil_price asks
              \<lparr>pst_remaining = amount_to_decimal D prin, pst_used_asks = [], pst_capacity = dec_zero D,
               pst_best_ask = None, pst_limit_price = None\<rparr>) (\<lambda>st.
     if \<not> accept_partial \<and> dec_lt D (pst_capacity st) (amount_to_decimal D prin) then Inl InsufficientDepth
     else
       rbind (if accept_partial then map_sum id (min prin) (collateral_floor D (pst_capacity st)) else Inr prin) (\<lambda>prin.
       rbind (ok_or NothingAffordable (pst_best_ask st)) (\<lambda>best.
       rbind (ok_or NothingAffordable (pst_limit_price st)) (\<lambda>limit.
         Inr \<lparr>pw_principal = prin, pw_used_asks = pst_used_asks st, pw_best_ask = best, pw_limit_price = limit\<rparr>))))"

definition plan_principal_buy_with_scale ::
    "'d decimal_ops \<Rightarrow> 'd ask_level list \<Rightarrow> collateral_amount \<Rightarrow> u32 \<Rightarrow> share_amount option \<Rightarrow> 'd \<Rightarrow> 'd \<Rightarrow> 'd \<Rightarrow> 'd
       \<Rightarrow> ladder_error + 'd ladder_plan" where
  "plan_principal_buy_with_scale D asks prin scale partial_minimum minimum_price maximum_price_exclusive
       chase_ceiling impact_ceiling =
     (if prin = 0 then Inl NothingAffordable
      else
        rbind (walk_principal D asks prin (partial_minimum \<noteq> None) minimum_price maximum_price_exclusive
                 (dec_min D chase_ceiling impact_ceiling)) (\<lambda>walked.
        rbind (shares_for_principal D (pw_principal walked) (pw_limit_price walked) scale) (\<lambda>shares.
        if (case partial_minimum of None \<Rightarrow> False | Some minimum \<Rightarrow> shares < minimum) then Inl BelowMinimum
        else if shares = 0 then Inl NothingAffordable
        else
          let plan = \<lparr>used_asks = pw_used_asks walked, best_ask = pw_best_ask walked, limit_price = pw_limit_price walked,
                      plan_shares = shares, worst_case_debit = pw_principal walked\<rparr> in
          rbind (plan_signed_price D plan) (\<lambda>signed.
            if dec_lt D signed (limit_price plan) then Inl LadderAmount else Inr plan))))"

text \<open>The loop of \<open>plan_share_buy\<close>: the principal at the first level whose cumulative capacity covers the request.\<close>

fun share_principal_loop ::
    "'d decimal_ops \<Rightarrow> share_amount \<Rightarrow> 'd \<Rightarrow> 'd \<Rightarrow> 'd \<Rightarrow> 'd ask_level list \<Rightarrow> 'd \<Rightarrow> 'd option
       \<Rightarrow> ladder_error + collateral_amount option" where
  "share_principal_loop D requested minimum_price maximum_price_exclusive ceil_price [] available prior = Inr None"
| "share_principal_loop D requested minimum_price maximum_price_exclusive ceil_price (level # asks) available prior =
     (if (case prior of None \<Rightarrow> False | Some p \<Rightarrow> dec_lt D (ask_price level) p) then Inl LadderAmount
      else case level_check D minimum_price maximum_price_exclusive ceil_price level of
        LevelError e \<Rightarrow> Inl e
      | LevelStop \<Rightarrow> Inr None
      | LevelUse \<Rightarrow>
          rbind (ok_or LadderAmount (dec_checked_mul D (amount_to_decimal D (ask_shares level)) (ask_price level))) (\<lambda>cost.
          rbind (ok_or LadderAmount (dec_checked_add D available cost)) (\<lambda>available.
          rbind (ok_or LadderAmount (dec_checked_mul D (amount_to_decimal D requested) (ask_price level))) (\<lambda>required.
          if dec_le D required available
          then map_sum (\<lambda>_. LadderAmount) Some (amount_from_decimal_exact D ''CollateralAmount'' required)
          else share_principal_loop D requested minimum_price maximum_price_exclusive ceil_price asks available
                 (Some (ask_price level))))))"

definition plan_share_buy ::
    "'d decimal_ops \<Rightarrow> 'd ask_level list \<Rightarrow> share_amount \<Rightarrow> u32 \<Rightarrow> share_amount \<Rightarrow> 'd \<Rightarrow> 'd \<Rightarrow> 'd \<Rightarrow> 'd
       \<Rightarrow> ladder_error + 'd ladder_plan" where
  "plan_share_buy D asks requested scale minimum_order_size minimum_price maximum_price_exclusive chase_ceiling impact_ceiling =
     (if requested < minimum_order_size then Inl BelowMinimum
      else
        rbind (share_principal_loop D requested minimum_price maximum_price_exclusive (dec_min D chase_ceiling impact_ceiling)
                 asks (dec_zero D) None) (\<lambda>p.
        rbind (ok_or InsufficientDepth p) (\<lambda>signed_principal.
          plan_principal_buy_with_scale D asks signed_principal scale None minimum_price maximum_price_exclusive
            chase_ceiling impact_ceiling)))"

definition plan_contract_buy ::
    "'d decimal_ops \<Rightarrow> 'd ask_level list \<Rightarrow> u64 \<Rightarrow> u32 \<Rightarrow> share_amount \<Rightarrow> 'd \<Rightarrow> 'd \<Rightarrow> 'd \<Rightarrow> 'd
       \<Rightarrow> ladder_error + 'd ladder_plan" where
  "plan_contract_buy D asks contracts scale minimum_order_size minimum_price maximum_price_exclusive chase_ceiling impact_ceiling =
     rbind (whole_shares contracts) (\<lambda>requested.
       plan_share_buy D asks requested scale minimum_order_size minimum_price maximum_price_exclusive
         chase_ceiling impact_ceiling)"

definition aggregate_all_in_price ::
    "'d decimal_ops \<Rightarrow> 'd ladder_plan \<Rightarrow> 'd compact_fee_schedule \<Rightarrow> 'd \<Rightarrow> ladder_error + 'd" where
  "aggregate_all_in_price D plan schedule slippage_rate =
     rbind (plan_signed_price D plan) (\<lambda>signed.
     rbind (map_err LadderFee (taker_fee D schedule (plan_shares plan) signed)) (\<lambda>fee.
     rbind (map_err (\<lambda>_. LadderAmount) (collateral_checked_add (worst_case_debit plan) fee)) (\<lambda>debit.
     rbind (ok_or LadderAmount
              (Option.bind (dec_checked_div D (amount_to_decimal D debit) (amount_to_decimal D (plan_shares plan))) (\<lambda>price.
               Option.bind (dec_checked_add D (dec_one D) slippage_rate) (\<lambda>m. dec_checked_mul D price m)))) (\<lambda>all_in.
       map_err (\<lambda>_. NoKellyEdge) (price_new D all_in)))))"

definition plan_kelly_buy ::
    "'d decimal_ops \<Rightarrow> 'd ask_level list \<Rightarrow> 'd compact_fee_schedule \<Rightarrow> ('d \<Rightarrow> ladder_error + share_amount) \<Rightarrow> 'd \<Rightarrow> u32
       \<Rightarrow> share_amount \<Rightarrow> 'd \<Rightarrow> 'd \<Rightarrow> 'd \<Rightarrow> 'd \<Rightarrow> ladder_error + 'd ladder_plan" where
  "plan_kelly_buy D asks schedule allocate slippage_rate scale minimum_order_size minimum_price maximum_price_exclusive
       chase_ceiling impact_ceiling =
     (if dec_lt D slippage_rate (dec_zero D) then Inl NoKellyEdge
      else
        let plan_for = (\<lambda>shares minimum. plan_share_buy D asks shares scale minimum minimum_price maximum_price_exclusive
                                           chase_ceiling impact_ceiling) in
        rbind (whole_shares 1) (\<lambda>one.
        rbind (plan_for one 0) (\<lambda>one_share_plan.
        rbind (aggregate_all_in_price D one_share_plan schedule slippage_rate) (\<lambda>first_price.
        rbind (allocate first_price) (\<lambda>first.
        if first = 0 then Inl NoKellyEdge
        else
          rbind (plan_for first minimum_order_size) (\<lambda>candidate.
          rbind (aggregate_all_in_price D candidate schedule slippage_rate) (\<lambda>aggregate_price.
          rbind (allocate aggregate_price) (\<lambda>second.
          let accepted = min first second in
          if accepted = 0 then Inl NoKellyEdge
          else if accepted = first then Inr candidate
          else plan_for accepted minimum_order_size))))))))"

datatype 'd buy_sizing =
    SizeDollar collateral_amount
  | SizeDollarUpTo collateral_amount
  | SizeContract u64
  | SizeKelly "'d \<Rightarrow> ladder_error + share_amount" 'd

record 'd sized_buy_plan =
  sb_ladder :: "'d ladder_plan"
  sb_budget :: collateral_amount
  sb_reserve :: collateral_amount

definition worst_case_all_in_debit :: "'d sized_buy_plan \<Rightarrow> ladder_error + collateral_amount" where
  "worst_case_all_in_debit p =
     map_err (\<lambda>_. LadderAmount) (collateral_checked_add (worst_case_debit (sb_ladder p)) (sb_reserve p))"

definition smallest_cap :: "collateral_amount list \<Rightarrow> collateral_amount" where
  "smallest_cap caps = (case caps of [] \<Rightarrow> - 1 | c # cs \<Rightarrow> fold min cs c)"

definition signed_share_scale :: "'d decimal_ops \<Rightarrow> 'd \<Rightarrow> ladder_error + u32" where
  "signed_share_scale D minimum_tick_size =
     ok_or LadderAmount (case checked_add (dec_scale D (dec_normalize D minimum_tick_size)) 2 of
                           None \<Rightarrow> None | Some scale \<Rightarrow> if scale \<le> 6 then Some scale else None)"

definition plan_for_sizing ::
    "'d decimal_ops \<Rightarrow> 'd ask_level list \<Rightarrow> 'd compact_fee_schedule \<Rightarrow> 'd buy_sizing \<Rightarrow> collateral_amount list \<Rightarrow> share_amount
       \<Rightarrow> u32 \<Rightarrow> 'd \<Rightarrow> 'd \<Rightarrow> 'd \<Rightarrow> 'd \<Rightarrow> 'd \<Rightarrow> ladder_error + collateral_amount \<times> 'd ladder_plan" where
  "plan_for_sizing D asks schedule sizing caps minimum_order_size scale best minimum_price maximum_price_exclusive
       chase_ceiling impact_ceiling =
     (let ceil_price = dec_min D chase_ceiling impact_ceiling;
          dollar = (\<lambda>budget partial_minimum.
            rbind (map_err LadderFee (principal_for_budget D schedule budget best ceil_price)) (\<lambda>prin.
            rbind (map_err (\<lambda>e. if e = NothingAffordable \<and> minimum_order_size \<noteq> 0 then BelowMinimum else e)
                     (plan_principal_buy_with_scale D asks prin scale partial_minimum minimum_price
                        maximum_price_exclusive chase_ceiling impact_ceiling)) (\<lambda>ladder. Inr (budget, ladder)))) in
      case sizing of
        SizeDollar budget \<Rightarrow> dollar budget None
      | SizeDollarUpTo budget \<Rightarrow> dollar budget (Some minimum_order_size)
      | SizeContract contracts \<Rightarrow>
          map_sum id (Pair (smallest_cap caps))
            (plan_contract_buy D asks contracts scale minimum_order_size minimum_price maximum_price_exclusive
               chase_ceiling impact_ceiling)
      | SizeKelly allocate slippage_rate \<Rightarrow>
          map_sum id (Pair (smallest_cap caps))
            (plan_kelly_buy D asks schedule allocate slippage_rate scale minimum_order_size minimum_price
               maximum_price_exclusive chase_ceiling impact_ceiling))"

definition plan_sized_buy ::
    "'d decimal_ops \<Rightarrow> 'd ask_level list \<Rightarrow> 'd compact_fee_schedule \<Rightarrow> 'd buy_sizing \<Rightarrow> collateral_amount list \<Rightarrow> share_amount
       \<Rightarrow> 'd \<Rightarrow> 'd \<Rightarrow> 'd \<Rightarrow> 'd \<Rightarrow> 'd \<Rightarrow> ladder_error + 'd sized_buy_plan" where
  "plan_sized_buy D asks schedule sizing caps minimum_order_size minimum_tick_size minimum_price maximum_price_exclusive
       chase_ceiling impact_ceiling =
     rbind (signed_share_scale D minimum_tick_size) (\<lambda>scale.
     if dec_eq D minimum_tick_size (dec_zero D) then Inl LadderAmount
     else
       rbind (first_eligible_ask D asks minimum_price maximum_price_exclusive (dec_min D chase_ceiling impact_ceiling)) (\<lambda>best.
       rbind (plan_for_sizing D asks schedule sizing caps minimum_order_size scale best minimum_price
                maximum_price_exclusive chase_ceiling impact_ceiling) (\<lambda>(budget, ladder).
       rbind (map_err LadderFee (fee_reserve D schedule (worst_case_debit ladder) (best_ask ladder) (limit_price ladder))) (\<lambda>reserve.
       rbind (map_err (\<lambda>_. LadderAmount) (collateral_checked_add (worst_case_debit ladder) reserve)) (\<lambda>all_in.
       if budget < all_in \<or> list_ex (\<lambda>cap. cap < all_in) caps then Inl CapExceeded
       else if plan_shares ladder < minimum_order_size then Inl BelowMinimum
       else Inr \<lparr>sb_ladder = ladder, sb_budget = budget, sb_reserve = reserve\<rparr>)))))"

text \<open>The exact-share walk of the canary.\<close>

fun walk_shares ::
    "'d decimal_ops \<Rightarrow> 'd \<Rightarrow> 'd \<Rightarrow> 'd \<Rightarrow> 'd ask_level list \<Rightarrow> u64 \<Rightarrow> 'd ask_level list \<Rightarrow> ladder_error + 'd ask_level list" where
  "walk_shares D minimum_price maximum_price_exclusive ceil_price [] remaining used = Inl InsufficientDepth"
| "walk_shares D minimum_price maximum_price_exclusive ceil_price (level # asks) remaining used =
     rbind (validate_level_order D used level) (\<lambda>_.
     case level_check D minimum_price maximum_price_exclusive ceil_price level of
       LevelError e \<Rightarrow> Inl e
     | LevelStop \<Rightarrow> Inl InsufficientDepth
     | LevelUse \<Rightarrow>
         let n = min remaining (ask_shares level) in
         rbind (if n \<noteq> 0
                then rbind (ok_or LadderAmount (checked_sub remaining n)) (\<lambda>rest.
                       Inr (used @ [\<lparr>ask_price = ask_price level, ask_shares = n\<rparr>], rest))
                else Inr (used, remaining)) (\<lambda>(used, remaining).
           if remaining = 0 then Inr used
           else walk_shares D minimum_price maximum_price_exclusive ceil_price asks remaining used))"

definition plan_exact_shares ::
    "'d decimal_ops \<Rightarrow> 'd ask_level list \<Rightarrow> share_amount \<Rightarrow> 'd \<Rightarrow> 'd \<Rightarrow> 'd \<Rightarrow> ladder_error + 'd ladder_plan" where
  "plan_exact_shares D asks requested_shares minimum_price maximum_price_exclusive origin_ceiling =
     (if requested_shares = 0 then Inl NothingAffordable
      else
        rbind (walk_shares D minimum_price maximum_price_exclusive origin_ceiling asks requested_shares []) (\<lambda>used.
        if used = [] then Inl InsufficientDepth
        else
          rbind (ok_or LadderAmount (dec_checked_mul D (amount_to_decimal D requested_shares) (ask_price (last used)))) (\<lambda>cost.
          rbind (map_err (\<lambda>_. LadderAmount) (amount_from_decimal_exact D ''CollateralAmount'' cost)) (\<lambda>prin.
            Inr \<lparr>used_asks = used, best_ask = ask_price (hd used), limit_price = ask_price (last used),
                 plan_shares = requested_shares, worst_case_debit = prin\<rparr>))))"

end
