(* ===== verification/Ladder_Properties.thy ===== *)
theory Ladder_Properties
  imports Fee_Ladder
begin

section \<open>What a planned buy keeps\<close>

text \<open>
  Rounding errors of the decimal arithmetic, from the laws \<open>decimal_value\<close> and \<open>decimal_rounds\<close>; the
  fee against its reserve; the price band of a walk; the limits of a planned buy and the exact-share walk.
\<close>

subsection \<open>Rounding errors of the fee arithmetic\<close>

text \<open>The bounds are stated for any relative error \<open>e\<close>; amounts are below \<open>big\<close>.\<close>

abbreviation big :: rat where "big \<equiv> 20000000000000"

definition rnd :: "rat \<Rightarrow> rat \<Rightarrow> rat \<Rightarrow> bool" where
  "rnd e x c \<longleftrightarrow> \<bar>c - x\<bar> \<le> (\<bar>x\<bar> + 1) * e"

lemma near_rnd: "near x c \<longleftrightarrow> rnd (1 / 10 ^ 27) x c"
  by (simp add: near_def rnd_def)

lemma rnd_le: "rnd e x c \<Longrightarrow> 0 \<le> e \<Longrightarrow> \<bar>x\<bar> \<le> b \<Longrightarrow> \<bar>c - x\<bar> \<le> (b + 1) * e"
  unfolding rnd_def by (meson add_right_mono mult_right_mono order_trans)

lemma abs_split_le: "\<bar>a - b\<bar> \<le> x \<Longrightarrow> \<bar>b - c\<bar> \<le> y \<Longrightarrow> \<bar>a - c\<bar> \<le> x + (y :: rat)"
  by linarith

lemma abs_diff_le: "\<bar>a - b\<bar> \<le> x \<Longrightarrow> \<bar>b\<bar> \<le> y \<Longrightarrow> \<bar>a\<bar> \<le> y + (x :: rat)"
  by linarith

lemma abs_mult_le: "\<bar>a\<bar> \<le> (x :: rat) \<Longrightarrow> \<bar>b\<bar> \<le> y \<Longrightarrow> \<bar>a * b\<bar> \<le> x * y"
  unfolding abs_mult by (rule mult_mono') simp_all

lemma mult_error:
  fixes a a' b b' :: rat
  assumes "\<bar>a' - a\<bar> \<le> x" and "\<bar>b' - b\<bar> \<le> y" and "\<bar>a'\<bar> \<le> u" and "\<bar>b\<bar> \<le> w"
  shows "\<bar>a' * b' - a * b\<bar> \<le> u * y + x * w"
proof -
  have "a' * b' - a * b = a' * (b' - b) + (a' - a) * b" by (simp add: algebra_simps)
  moreover have "\<bar>a' * (b' - b)\<bar> \<le> u * y" using assms by (intro abs_mult_le)
  moreover have "\<bar>(a' - a) * b\<bar> \<le> x * w" using assms by (intro abs_mult_le)
  ultimately show ?thesis by linarith
qed

lemma small_error:
  assumes "0 \<le> (e :: rat)" and "e \<le> 1 / 1000000000000000" and "0 \<le> c" and "c \<le> 1000000000000000"
  shows "c * e \<le> 1"
proof -
  have "c * e \<le> 1000000000000000 * (1 / 1000000000000000)" using assms by (intro mult_mono) auto
  then show ?thesis by simp
qed

lemma chain_le: "a - b \<le> x \<Longrightarrow> b - c \<le> y \<Longrightarrow> c \<le> d + z \<Longrightarrow> x + y + z \<le> w \<Longrightarrow> a \<le> d + (w :: rat)"
  by linarith

lemma fee_upper:
  fixes s r p P v1 v2 q raw e :: rat
  assumes e: "0 \<le> e" "e \<le> 1 / 1000000000000000" and s: "0 < s" "s \<le> big" and r: "0 \<le> r" "r \<le> 1"
    and p: "0 \<le> p" "p \<le> 1" and P: "0 \<le> P"
    and n: "rnd e (s * r) v1" "rnd e (v1 * p) v2" "rnd e (1 - p) q" "rnd e (v2 * q) raw" "rnd e (P / s) p"
  shows "raw \<le> P * r * (1 - p) + 11 * big * e"
proof -
  note [simp] = e(1)
  have ap: "\<bar>p\<bar> \<le> 1" and ar: "\<bar>r\<bar> \<le> 1" and as: "\<bar>s\<bar> \<le> big" and one: "\<bar>1 - p\<bar> \<le> 1" using p r s by auto
  have sr: "\<bar>s * r\<bar> \<le> big * 1" using as ar by (rule abs_mult_le)
  have e1: "\<bar>v1 - s * r\<bar> \<le> (big * 1 + 1) * e" by (rule rnd_le [OF n(1) e(1) sr])
  have a1: "\<bar>v1\<bar> \<le> big + 1" by (rule order_trans [OF abs_diff_le [OF e1 sr]]) (use small_error [OF e] in simp)
  have v1p: "\<bar>v1 * p\<bar> \<le> (big + 1) * 1" using a1 ap by (rule abs_mult_le)
  have e2: "\<bar>v2 - v1 * p\<bar> \<le> ((big + 1) * 1 + 1) * e" by (rule rnd_le [OF n(2) e(1) v1p])
  have "\<bar>(v1 - s * r) * p\<bar> \<le> (big * 1 + 1) * e * 1" using e1 ap by (rule abs_mult_le)
  then have "\<bar>v1 * p - s * r * p\<bar> \<le> (big * 1 + 1) * e" by (simp add: left_diff_distrib)
  from abs_split_le [OF e2 this] have e2': "\<bar>v2 - s * r * p\<bar> \<le> (2 * big + 3) * e" by (simp add: algebra_simps)
  have srp: "\<bar>s * r * p\<bar> \<le> big * 1 * 1" using sr ap by (rule abs_mult_le)
  have a2: "\<bar>v2\<bar> \<le> big + 1" by (rule order_trans [OF abs_diff_le [OF e2' srp]]) (use small_error [OF e] in simp)
  have e3: "\<bar>q - (1 - p)\<bar> \<le> (1 + 1) * e" by (rule rnd_le [OF n(3) e(1) one])
  have a3: "\<bar>q\<bar> \<le> 2" by (rule order_trans [OF abs_diff_le [OF e3 one]]) (use small_error [OF e] in simp)
  have "\<bar>v2 * q\<bar> \<le> (big + 1) * 2" using a2 a3 by (rule abs_mult_le)
  then have e4: "\<bar>raw - v2 * q\<bar> \<le> ((big + 1) * 2 + 1) * e" by (rule rnd_le [OF n(4) e(1)])
  have e5: "\<bar>v2 * q - s * r * p * (1 - p)\<bar> \<le> (big + 1) * ((1 + 1) * e) + (2 * big + 3) * e * 1"
    using e2' e3 a2 one by (rule mult_error)
  have ps0: "0 \<le> P / s" using P s by simp
  have "\<bar>p - P / s\<bar> \<le> (P / s + 1) * e" using n(5) unfolding rnd_def abs_of_nonneg [OF ps0] .
  then have "P / s - (P / s + 1) * e \<le> 1" using p by linarith
  moreover have "(P / s + 1) * e \<le> (P / s + 1) * (1 / 2)" using e ps0 by (intro mult_left_mono) auto
  ultimately have "P / s - (P / s + 1) * (1 / 2) \<le> 1" by linarith
  then have "P / s \<le> 3" by (simp add: field_simps)
  then have "\<bar>P / s\<bar> \<le> 3" unfolding abs_of_nonneg [OF ps0] .
  from rnd_le [OF n(5) e(1) this] have pe: "\<bar>p - P / s\<bar> \<le> (3 + 1) * e" .
  have "\<bar>s * (p - P / s)\<bar> \<le> big * ((3 + 1) * e)" using as pe by (rule abs_mult_le)
  then have sp: "s * p \<le> P + big * ((3 + 1) * e)" using s by (simp add: right_diff_distrib abs_le_iff)
  have rp: "0 \<le> r * (1 - p)" "r * (1 - p) \<le> 1" using r p by (auto intro: mult_le_one)
  have "s * p * (r * (1 - p)) \<le> (P + big * ((3 + 1) * e)) * (r * (1 - p))" using sp rp(1) by (rule mult_right_mono)
  also have "\<dots> = P * r * (1 - p) + big * ((3 + 1) * e) * (r * (1 - p))" by (simp only: distrib_right mult.assoc)
  also have "\<dots> \<le> P * r * (1 - p) + big * ((3 + 1) * e) * 1" using mult_left_mono [OF rp(2), of "big * ((3 + 1) * e)"] by simp
  finally have last: "s * r * p * (1 - p) \<le> P * r * (1 - p) + big * ((3 + 1) * e) * 1" by (simp only: ac_simps)
  show ?thesis
    by (rule chain_le [OF abs_le_D1 [OF e4] abs_le_D1 [OF e5] last]) (use e in \<open>simp add: algebra_simps\<close>)
qed

lemma reserve_lower:
  fixes l r m P cp q c w y e :: rat
  assumes e: "0 \<le> e" "e \<le> 1 / 1000000000000000" and l: "0 < l" "l \<le> 1" and r: "0 \<le> r" "r \<le> 1"
    and cp: "0 \<le> cp" "cp \<le> 1" and P: "0 \<le> P" "P \<le> big"
    and m: "0 \<le> m" "m \<le> big" and curve: "l * (1 - l) \<le> cp * (1 - cp)"
    and n: "rnd e (P / l) m" "rnd e (1 - cp) q" "rnd e (cp * q) c" "rnd e (m * r) w" "rnd e (w * c) y"
  shows "P * r * (1 - l) - 11 * big * e \<le> y"
proof -
  note [simp] = e(1)
  have one: "\<bar>1 - cp\<bar> \<le> 1" and acp: "\<bar>cp\<bar> \<le> 1" and am: "\<bar>m\<bar> \<le> big" and ar: "\<bar>r\<bar> \<le> 1" using cp m r by auto
  have e1: "\<bar>q - (1 - cp)\<bar> \<le> (1 + 1) * e" by (rule rnd_le [OF n(2) e(1) one])
  have a1: "\<bar>q\<bar> \<le> 2" by (rule order_trans [OF abs_diff_le [OF e1 one]]) (use small_error [OF e] in simp)
  have cpq: "\<bar>cp * q\<bar> \<le> 1 * 2" using acp a1 by (rule abs_mult_le)
  have e2: "\<bar>c - cp * q\<bar> \<le> (1 * 2 + 1) * e" by (rule rnd_le [OF n(3) e(1) cpq])
  have "\<bar>cp * (q - (1 - cp))\<bar> \<le> 1 * ((1 + 1) * e)" using acp e1 by (rule abs_mult_le)
  then have "\<bar>cp * q - cp * (1 - cp)\<bar> \<le> 2 * e" by (simp add: right_diff_distrib)
  from abs_split_le [OF e2 this] have ec: "\<bar>c - cp * (1 - cp)\<bar> \<le> 5 * e" by simp
  have a5: "\<bar>cp * (1 - cp)\<bar> \<le> 1 * 1" using acp one by (rule abs_mult_le)
  have ac: "\<bar>c\<bar> \<le> 2" by (rule order_trans [OF abs_diff_le [OF ec a5]]) (use small_error [OF e] in simp)
  have mr: "\<bar>m * r\<bar> \<le> big * 1" using am ar by (rule abs_mult_le)
  have ew: "\<bar>w - m * r\<bar> \<le> (big * 1 + 1) * e" by (rule rnd_le [OF n(4) e(1) mr])
  have aw: "\<bar>w\<bar> \<le> big + 1" by (rule order_trans [OF abs_diff_le [OF ew mr]]) (use small_error [OF e] in simp)
  have "\<bar>w * c\<bar> \<le> (big + 1) * 2" using aw ac by (rule abs_mult_le)
  then have ey: "\<bar>y - w * c\<bar> \<le> ((big + 1) * 2 + 1) * e" by (rule rnd_le [OF n(5) e(1)])
  have "\<bar>w * c - m * r * (cp * (1 - cp))\<bar> \<le> (big + 1) * (5 * e) + (big * 1 + 1) * e * (1 * 1)"
    using ew ec aw a5 by (rule mult_error)
  from abs_split_le [OF ey this] have y: "m * r * (cp * (1 - cp)) - (8 * big + 10) * e \<le> y"
    using abs_le_D2 e by (simp add: algebra_simps abs_le_iff)
  have mono: "m * r * (l * (1 - l)) \<le> m * r * (cp * (1 - cp))" using curve m r by (intro mult_left_mono) auto
  have pl0: "0 \<le> P / l" using P l by simp
  have "\<bar>m - P / l\<bar> \<le> (P / l + 1) * e" using n(1) unfolding rnd_def abs_of_nonneg [OF pl0] .
  then have "P / l - (P / l + 1) * e \<le> m" by (simp add: abs_le_iff)
  then have "(P / l - (P / l + 1) * e) * l \<le> m * l" using l by (intro mult_right_mono) auto
  moreover have "(P / l - (P / l + 1) * e) * l = P - (P + l) * e" using l by (simp add: field_simps)
  moreover have "(P + l) * e \<le> (big + 1) * e" using P l by (intro mult_right_mono) auto
  ultimately have ml: "P - (big + 1) * e \<le> m * l" by linarith
  have rl: "0 \<le> r * (1 - l)" "r * (1 - l) \<le> 1" using r l by (auto intro: mult_le_one)
  have "(P - (big + 1) * e) * (r * (1 - l)) \<le> m * l * (r * (1 - l))" using ml rl(1) by (rule mult_right_mono)
  moreover have "(big + 1) * e * (r * (1 - l)) \<le> (big + 1) * e * 1" using rl(2) by (intro mult_left_mono) auto
  ultimately have "P * (r * (1 - l)) - (big + 1) * e \<le> m * l * (r * (1 - l))" by (simp add: left_diff_distrib)
  also have "\<dots> \<le> m * r * (cp * (1 - cp))" using mono by (simp add: ac_simps)
  finally have "P * (r * (1 - l)) - (big + 1) * e - (8 * big + 10) * e \<le> y" using y by linarith
  moreover have "(big + 1) * e + (8 * big + 10) * e \<le> 11 * big * e"
    using e by (simp add: algebra_simps)
  ultimately show ?thesis unfolding mult.assoc [of P] by linarith
qed

lemma curve_maximal:
  assumes "b \<le> (l :: rat)" and "cp = (if b \<le> 1 / 2 \<and> 1 / 2 \<le> l then 1 / 2 else if l < 1 / 2 then l else b)"
  shows "l * (1 - l) \<le> cp * (1 - cp)"
proof -
  have half: "x * (1 - x) \<le> 1 / 4" for x :: rat
    using zero_le_square [of "x - 1 / 2"] by (simp add: algebra_simps)
  show ?thesis
  proof (cases "b \<le> 1 / 2 \<and> 1 / 2 \<le> l")
    case True
    then have cp: "cp = 1 / 2" using assms(2) by simp
    show ?thesis using half [of l] unfolding cp by simp
  next
    case False
    show ?thesis
    proof (cases "l < 1 / 2")
      case True
      then have "cp = l" using False assms(2) by auto
      then show ?thesis by simp
    next
      case high: False
      then have "1 / 2 \<le> b" using False by linarith
      then have "0 \<le> (l - b) * (l + b - 1)" using assms(1) by simp
      moreover have "cp = b" using False high assms(2) by auto
      ultimately show ?thesis by (simp add: algebra_simps)
    qed
  qed
qed

subsection \<open>Exact conversion of rounded amounts\<close>

lemma rounded_is_multiple: "rat_round k strategy x * 10 ^ k \<in> \<int>"
  by (simp add: rat_round_def Let_def)

lemma u64_le_rat: "of_nat (unat (n :: u64)) \<le> (18446744073709551616 :: rat)"
proof -
  have "unat n \<le> 18446744073709551616" using unat_less_len [of n] by simp
  then have "(of_nat (unat n) :: rat) \<le> of_nat 18446744073709551616" by (simp only: of_nat_le_iff)
  then show ?thesis by (simp del: of_nat_unat)
qed

lemma amount_exact:
  assumes D: "decimal_value D val" "decimal_rounds D val" and r: "amount_from_decimal_exact D f d = Inr n"
    and int: "val d * 10 ^ 6 \<in> \<int>"
  shows "val d * 10 ^ 6 = of_nat (unat n)"
proof -
  from r obtain scaled where pos: "\<not> dec_is_sign_negative D d"
    and scaled: "dec_checked_mul D d (dec_from_u64 D ATOMIC_SCALE) = Some scaled"
    and fract: "dec_eq D (dec_fract D scaled) (dec_zero D)" and n: "dec_to_u64 D scaled = Some n"
    by (auto simp: amount_from_decimal_exact_def result_simps split: if_splits option.splits)
  have scale: "val (dec_from_u64 D ATOMIC_SCALE) = 10 ^ 6"
    using D(1) by (simp add: decimal_value_def ATOMIC_SCALE_def)
  define x where "x = val d * 10 ^ 6"
  have x0: "0 \<le> x" using D(2) pos by (simp add: decimal_rounds_def x_def)
  have near: "near x (val scaled)" using D(2) scaled scale unfolding decimal_rounds_def x_def by metis
  have S: "val scaled \<in> \<int>" using D fract by (simp add: decimal_rounds_def dec_order [OF D(1)])
  have err: "\<bar>val scaled - x\<bar> \<le> (x + 1) / 10 ^ 27" using near x0 by (simp add: near_def)
  obtain xi where xi: "x = of_int xi" using int unfolding x_def [symmetric] by (rule Ints_cases)
  obtain si where si: "val scaled = of_int si" using S by (rule Ints_cases)
  have "0 \<le> si"
  proof (rule ccontr)
    assume "\<not> 0 \<le> si"
    then have "val scaled \<le> - 1" by (simp add: si)
    then have "x + 1 \<le> (x + 1) / 10 ^ 27" using err by linarith
    then show False using x0 by simp
  qed
  then have "0 \<le> val scaled" by (simp add: si)
  then have "int (unat n) = \<lfloor>val scaled\<rfloor>" using D(1) n unfolding decimal_value_def by blast
  then have ns: "val scaled = of_nat (unat n)" using si by (metis floor_of_int of_int_of_nat_eq)
  note nb = u64_le_rat [of n]
  have "x \<le> 2 ^ 65"
  proof (rule ccontr)
    assume "\<not> x \<le> 2 ^ 65"
    then have "(x + 1) / 10 ^ 27 \<le> x / 2" by simp
    then have "x / 2 \<le> val scaled" using err by linarith
    then show False using ns nb \<open>\<not> x \<le> 2 ^ 65\<close> by simp
  qed
  then have "(x + 1) / 10 ^ 27 < 1" by simp
  then have "\<bar>val scaled - x\<bar> < 1" using err by linarith
  then have "\<bar>of_int (si - xi) :: rat\<bar> < 1" by (simp add: si xi)
  then have "si = xi" by (simp only: of_int_abs [symmetric] of_int_less_1_iff)
  then show ?thesis using ns si xi x_def by simp
qed

lemma amount_decimal:
  assumes "decimal_rounds D val"
  shows "val (amount_to_decimal D n) = of_nat (unat n) / 10 ^ 6"
  using assms by (simp add: decimal_rounds_def amount_to_decimal_def ATOMIC_SCALE_def)

lemma amount_small: "of_nat (unat (n :: u64)) / 10 ^ 6 \<le> (18446744073710 :: rat)"
  using u64_le_rat [of n] by (simp del: of_nat_unat)

lemma round_5_exact:
  assumes D: "decimal_value D val" "decimal_rounds D val" and r: "collateral_exact D (dec_round_dp D 5 strategy raw) = Inr n"
  shows "of_nat (unat n) / 10 ^ 6 = rat_round 5 strategy (val raw)"
proof -
  have five: "val (dec_round_dp D 5 strategy raw) = rat_round 5 strategy (val raw)"
    using D(1) by (simp add: decimal_value_def)
  have "rat_round 5 strategy (val raw) * 10 ^ 5 * 10 \<in> \<int>" by (intro Ints_mult rounded_is_multiple) simp
  moreover have "x * 10 ^ 5 * 10 = x * 10 ^ 6" for x :: rat by simp
  ultimately have "val (dec_round_dp D 5 strategy raw) * 10 ^ 6 \<in> \<int>" unfolding five by metis
  from amount_exact [OF D _ this] r have "val (dec_round_dp D 5 strategy raw) * 10 ^ 6 = of_nat (unat n)"
    by (auto simp: collateral_exact_def result_simps)
  then show ?thesis by (simp add: five field_simps)
qed

lemma trunc_le_ceil:
  assumes "x \<le> y + 1 / 1000000" and "0 \<le> rat_round 5 ToPositiveInfinity y"
  shows "rat_round 5 ToZero x \<le> rat_round 5 ToPositiveInfinity y"
proof (cases "0 \<le> x")
  case True
  have "of_int \<lfloor>x * 10 ^ 5\<rfloor> \<le> x * 10 ^ 5" by simp
  also have "\<dots> \<le> y * 10 ^ 5 + 1 / 10" using assms(1) by simp
  also have "\<dots> < of_int (\<lceil>y * 10 ^ 5\<rceil> + 1)" using le_of_int_ceiling [of "y * 10 ^ 5"] by simp linarith
  finally have "\<lfloor>x * 10 ^ 5\<rfloor> < \<lceil>y * 10 ^ 5\<rceil> + 1" by (simp only: of_int_less_iff)
  then show ?thesis using True by (simp add: rat_round_def divide_right_mono)
next
  case False
  then have "\<lceil>x * 10 ^ 5\<rceil> \<le> 0" by (simp add: ceiling_le_zero)
  then have "rat_round 5 ToZero x \<le> 0" using False by (simp add: rat_round_def divide_nonpos_pos)
  with assms(2) show ?thesis by linarith
qed

subsection \<open>The fee fits its reserve\<close>

lemma floor_round:
  assumes "k \<le> 6"
  shows "rat_round k ToNegativeInfinity x \<le> x" and "x < rat_round k ToNegativeInfinity x + 1"
    and "rat_round k ToNegativeInfinity x * 10 ^ 6 \<in> \<int>"
proof -
  have pow: "(0 :: rat) < 10 ^ k" "(1 :: rat) \<le> 10 ^ k" by simp_all
  have r: "rat_round k ToNegativeInfinity x = of_int \<lfloor>x * 10 ^ k\<rfloor> / 10 ^ k" by (simp add: rat_round_def)
  have "of_int \<lfloor>x * 10 ^ k\<rfloor> \<le> x * 10 ^ k" by (rule of_int_floor_le)
  then show "rat_round k ToNegativeInfinity x \<le> x" unfolding r using pow by (simp add: pos_divide_le_eq)
  have "x * 10 ^ k < of_int \<lfloor>x * 10 ^ k\<rfloor> + 1" using floor_correct [of "x * 10 ^ k"] by simp
  also have "\<dots> \<le> of_int \<lfloor>x * 10 ^ k\<rfloor> + 10 ^ k" using pow(2) by simp
  finally have "x < (of_int \<lfloor>x * 10 ^ k\<rfloor> + 10 ^ k) / 10 ^ k" using pow(1) by (simp add: pos_less_divide_eq)
  then show "x < rat_round k ToNegativeInfinity x + 1" unfolding r by (simp add: add_divide_distrib)
  have "rat_round k ToNegativeInfinity x * 10 ^ k * 10 ^ (6 - k) \<in> \<int>" by (intro Ints_mult rounded_is_multiple) simp
  then show "rat_round k ToNegativeInfinity x * 10 ^ 6 \<in> \<int>"
    using assms by (metis le_add_diff_inverse mult.assoc power_add)
qed

lemma dec_div_near:
  assumes "decimal_value D val" "decimal_rounds D val" "dec_checked_div D a b = Some c" "val b \<noteq> 0"
  shows "near (val a / val b) (val c)"
  using assms by (simp add: decimal_rounds_def)

lemma dec_mul_near: "decimal_rounds D val \<Longrightarrow> dec_checked_mul D a b = Some c \<Longrightarrow> near (val a * val b) (val c)"
  by (simp add: decimal_rounds_def)

text \<open>The minimum shares of a plan: the implied quantity rounded down to the venue's scale.\<close>

lemma shares_for_principal_bounds:
  assumes D: "decimal_value D val" "decimal_rounds D val" and scale: "unat scale \<le> 6"
    and r: "shares_for_principal D P l scale = Inr s"
  obtains m where "principal_implied_shares D P l = Inr m" "near (of_nat (unat P) / 10 ^ 6 / val l) (val m)"
    "of_nat (unat s) / 10 ^ 6 \<le> val m" "0 \<le> val m" "val m \<le> big"
proof -
  from r obtain m where m: "principal_implied_shares D P l = Inr m"
    and s: "amount_from_decimal_exact D ''ShareAmount'' (dec_round_dp D scale ToNegativeInfinity m) = Inr s"
    by (auto simp: shares_for_principal_def result_simps split: if_splits)
  from m have "dec_checked_div D (amount_to_decimal D P) l = Some m" "val l \<noteq> 0"
    by (auto simp: principal_implied_shares_def result_simps dec_order [OF D(1)] split: if_splits)
  then have "near (val (amount_to_decimal D P) / val l) (val m)" using D(2) by (simp add: decimal_rounds_def)
  then have near: "near (of_nat (unat P) / 10 ^ 6 / val l) (val m)" by (simp only: amount_decimal [OF D(2)])
  have v: "val (dec_round_dp D scale ToNegativeInfinity m) = rat_round (unat scale) ToNegativeInfinity (val m)"
    using D(1) scale by (simp add: decimal_value_def)
  have "val (dec_round_dp D scale ToNegativeInfinity m) * 10 ^ 6 = of_nat (unat s)"
    by (rule amount_exact [OF D s]) (unfold v, rule floor_round(3) [OF scale])
  then have s': "rat_round (unat scale) ToNegativeInfinity (val m) = of_nat (unat s) / 10 ^ 6"
    unfolding v by (simp add: field_simps)
  have "of_nat (unat s) / 10 ^ 6 \<le> val m" using floor_round(1) [OF scale, of "val m"] by (simp only: s')
  moreover from this have "0 \<le> val m" by (rule order_trans [rotated]) (simp del: of_nat_unat)
  moreover have "val m \<le> big"
    using floor_round(2) [OF scale, of "val m"] amount_small [of s] unfolding s' by linarith
  ultimately show ?thesis using m near by (intro that)
qed

lemma validated_rate_Some:
  assumes "decimal_value D val" and "validated_rate D schedule = Inr (Some rate)"
  shows "0 \<le> val rate" "val rate \<le> 1"
  using assms by (auto simp: validated_rate_def dec_order [OF assms(1)] split: compact_fee_schedule.splits if_splits)

lemma taker_fee_steps:
  assumes D: "decimal_value D val" "decimal_rounds D val" and rate: "validated_rate D schedule = Inr (Some rate)"
    and r: "taker_fee D schedule s p = Inr fee"
  obtains v1 v2 q raw where "near (of_nat (unat s) / 10 ^ 6 * val rate) v1" "near (v1 * val p) v2"
    "near (1 - val p) q" "near (v2 * q) raw" "of_nat (unat fee) / 10 ^ 6 = rat_round 5 ToZero raw"
proof -
  from r rate obtain v1 v2 q raw where
      1: "dec_checked_mul D (amount_to_decimal D s) rate = Some v1" and 2: "dec_checked_mul D v1 p = Some v2"
    and 3: "dec_checked_sub D (dec_one D) p = Some q" and 4: "dec_checked_mul D v2 q = Some raw"
    and fee: "collateral_exact D (dec_round_dp D 5 ToZero raw) = Inr fee"
    by (auto simp: taker_fee_def result_simps bind_eq_Some_conv)
  have "near (val (dec_one D) - val p) (val q)" using D(2) 3 by (simp add: decimal_rounds_def)
  then have "near (1 - val p) (val q)" by (simp add: dec_order [OF D(1)])
  moreover have "near (of_nat (unat s) / 10 ^ 6 * val rate) (val v1)"
    using dec_mul_near [OF D(2) 1] by (simp only: amount_decimal [OF D(2)])
  moreover have "near (val v1 * val p) (val v2)" "near (val v2 * val q) (val raw)"
    using D(2) 2 4 by (auto simp: decimal_rounds_def)
  ultimately show ?thesis using round_5_exact [OF D fee] by (intro that)
qed

lemma fee_reserve_steps:
  assumes D: "decimal_value D val" "decimal_rounds D val" and rate: "validated_rate D schedule = Inr (Some rate)"
    and P: "P \<noteq> 0" and m: "principal_implied_shares D P l = Inr m" and r: "fee_reserve D schedule P b l = Inr reserve"
  obtains cp q c w y where "val b \<le> val l" "near (1 - cp) q" "near (cp * q) c" "near (val m * val rate) w" "near (w * c) y"
    "of_nat (unat reserve) / 10 ^ 6 = rat_round 5 ToPositiveInfinity y"
    "cp = (if val b \<le> 1 / 2 \<and> 1 / 2 \<le> val l then 1 / 2 else if val l < 1 / 2 then val l else val b)"
proof -
  define cpd where "cpd = maximum_curve_price D b l"
  from r rate P m obtain q c w y where band: "\<not> dec_lt D l b" and 1: "dec_checked_sub D (dec_one D) cpd = Some q"
    and 2: "dec_checked_mul D cpd q = Some c" and 3: "dec_checked_mul D m rate = Some w"
    and 4: "dec_checked_mul D w c = Some y"
    and res: "collateral_exact D (dec_round_dp D 5 ToPositiveInfinity y) = Inr reserve"
    by (auto simp: fee_reserve_def validate_band_def cpd_def Let_def result_simps bind_eq_Some_conv split: if_splits)
  have "val (dec_new D 5 1) = 1 / 2" using D(1) by (simp add: decimal_value_def)
  then have cp: "val cpd = (if val b \<le> 1 / 2 \<and> 1 / 2 \<le> val l then 1 / 2 else if val l < 1 / 2 then val l else val b)"
    by (simp add: cpd_def maximum_curve_price_def Let_def dec_order [OF D(1)])
  have "near (val (dec_one D) - val cpd) (val q)" using D(2) 1 by (simp add: decimal_rounds_def)
  then have "near (1 - val cpd) (val q)" by (simp add: dec_order [OF D(1)])
  moreover have "near (val cpd * val q) (val c)" "near (val m * val rate) (val w)" "near (val w * val c) (val y)"
    using D(2) 2 3 4 by (auto simp: decimal_rounds_def)
  moreover have "val b \<le> val l" using band by (simp add: dec_order [OF D(1)] not_less)
  ultimately show ?thesis using round_5_exact [OF D res] cp by (intro that)
qed

lemma fee_fits_reserve:
  assumes D: "decimal_value D val" "decimal_rounds D val" and scale: "unat scale \<le> 6"
    and s: "shares_for_principal D P l scale = Inr s" and p: "signed_price D P s = Inr p" "val l \<le> val p"
    and l: "0 < val l" and b: "0 \<le> val b"
    and fee: "taker_fee D schedule s p = Inr fee" and reserve: "fee_reserve D schedule P b l = Inr reserve"
  shows "fee \<le> reserve"
proof (cases "validated_rate D schedule")
  case (Inl e)
  then show ?thesis using fee by (simp add: taker_fee_def)
next
  case (Inr r)
  show ?thesis
  proof (cases r)
    case None
    then have "fee = 0" using fee Inr by (simp add: taker_fee_def)
    then show ?thesis by simp
  next
    case (Some rate)
    with Inr have rate: "validated_rate D schedule = Inr (Some rate)" by simp
    note r01 = validated_rate_Some [OF D(1) rate]
    let ?s = "of_nat (unat s) / 10 ^ 6 :: rat" and ?P = "of_nat (unat P) / 10 ^ 6 :: rat" and ?e = "1 / 10 ^ 27 :: rat"
    have P0: "P \<noteq> 0" and s0: "s \<noteq> 0" and ratio: "near (?P / ?s) (val p)" and p01: "0 \<le> val p" "val p \<le> 1"
    proof -
      from p(1) obtain q where q: "dec_checked_div D (amount_to_decimal D P) (amount_to_decimal D s) = Some q"
        and new: "price_new D q = Inr p" and "P \<noteq> 0" "s \<noteq> 0"
        by (auto simp: signed_price_def result_simps split: if_splits)
      then show "P \<noteq> 0" "s \<noteq> 0" by auto
      have "p = q \<and> 0 \<le> val q \<and> val q \<le> 1" using D(1) new by (rule price_new_bounds)
      moreover have "near (?P / ?s) (val q)" using dec_div_near [OF D q] \<open>s \<noteq> 0\<close> by (simp add: amount_decimal [OF D(2)] unat_gt_0 del: of_nat_unat)
      ultimately show "near (?P / ?s) (val p)" "0 \<le> val p" "val p \<le> 1" by auto
    qed
    obtain m where m: "principal_implied_shares D P l = Inr m" "near (?P / val l) (val m)" "?s \<le> val m" "0 \<le> val m" "val m \<le> big"
      using D scale s by (rule shares_for_principal_bounds)
    obtain v1 v2 q raw where f: "near (?s * val rate) v1" "near (v1 * val p) v2" "near (1 - val p) q" "near (v2 * q) raw"
      and feq: "of_nat (unat fee) / 10 ^ 6 = rat_round 5 ToZero raw"
      using D rate fee by (rule taker_fee_steps)
    obtain cp q' c w y where g: "near (1 - cp) q'" "near (cp * q') c" "near (val m * val rate) w" "near (w * c) y"
      and req: "of_nat (unat reserve) / 10 ^ 6 = rat_round 5 ToPositiveInfinity y" and bl: "val b \<le> val l"
      and cp: "cp = (if val b \<le> 1 / 2 \<and> 1 / 2 \<le> val l then 1 / 2 else if val l < 1 / 2 then val l else val b)"
      using D rate P0 m(1) reserve by (rule fee_reserve_steps)
    have e: "0 \<le> ?e" "?e \<le> 1 / 1000000000000000" by simp_all
    have "0 < unat s" using s0 by (simp add: unat_gt_0)
    then have spos: "0 < ?s" by (simp del: of_nat_unat)
    have sbig: "?s \<le> big" "?P \<le> big" using amount_small [of s] amount_small [of P] by linarith+
    have Ppos: "0 \<le> ?P" by (simp del: of_nat_unat)
    have lle: "val l \<le> 1" using p p01 by linarith
    have cp01: "0 \<le> cp" "cp \<le> 1" using cp b bl lle l by (auto split: if_splits)
    have up: "raw \<le> ?P * val rate * (1 - val p) + 11 * big * ?e"
      by (rule fee_upper [OF e spos sbig(1) r01 p01 Ppos]) (use f ratio in \<open>simp_all only: near_rnd\<close>)
    have low: "?P * val rate * (1 - val l) - 11 * big * ?e \<le> y"
      by (rule reserve_lower [OF e l lle r01 cp01 Ppos sbig(2) m(4,5) curve_maximal [OF bl cp]])
        (use g m(2) in \<open>simp_all only: near_rnd\<close>)
    have "?P * val rate * (1 - val p) \<le> ?P * val rate * (1 - val l)"
      using p(2) Ppos r01(1) by (intro mult_left_mono mult_nonneg_nonneg) auto
    with up low have "raw \<le> y + 22 * big * ?e" by linarith
    also have "\<dots> \<le> y + 1 / 1000000" by simp
    finally have "rat_round 5 ToZero raw \<le> rat_round 5 ToPositiveInfinity y"
      by (rule trunc_le_ceil) (simp add: req [symmetric] del: of_nat_unat)
    then have "(of_nat (unat fee) :: rat) / 10 ^ 6 \<le> of_nat (unat reserve) / 10 ^ 6" unfolding feq req .
    then have "unat fee \<le> unat reserve" by (simp del: of_nat_unat add: divide_le_cancel)
    then show ?thesis by (simp add: word_le_nat_alt)
  qed
qed

subsection \<open>The band of a walk\<close>

text \<open>
  A walk that has taken a level has a best ask and a limit price inside the band, and every level it
  used lies between the two. Between two levels the limit price is the price of the last used level.
\<close>

definition in_band :: "('d \<Rightarrow> rat) \<Rightarrow> 'd \<Rightarrow> 'd \<Rightarrow> rat \<Rightarrow> 'd \<Rightarrow> bool" where
  "in_band val minimum maximum ceil p \<longleftrightarrow> val minimum \<le> val p \<and> val p < val maximum \<and> val p \<le> ceil \<and> val p \<noteq> 0"

definition walked_band ::
    "('d \<Rightarrow> rat) \<Rightarrow> 'd \<Rightarrow> 'd \<Rightarrow> rat \<Rightarrow> 'd ask_level list \<Rightarrow> 'd \<Rightarrow> 'd \<Rightarrow> bool" where
  "walked_band val minimum maximum ceil used best limit \<longleftrightarrow>
     in_band val minimum maximum ceil best \<and> in_band val minimum maximum ceil limit \<and> val best \<le> val limit \<and>
     (\<forall>a \<in> set used. val best \<le> val (ask_price a) \<and> val (ask_price a) \<le> val limit)"

definition between_levels :: "('d \<Rightarrow> rat) \<Rightarrow> 'd \<Rightarrow> 'd \<Rightarrow> rat \<Rightarrow> 'd principal_state \<Rightarrow> bool" where
  "between_levels val minimum maximum ceil st \<longleftrightarrow>
     (case pst_best_ask st of
        None \<Rightarrow> pst_used_asks st = [] \<and> pst_limit_price st = None
      | Some best \<Rightarrow> pst_used_asks st \<noteq> [] \<and> pst_limit_price st = Some (ask_price (last (pst_used_asks st))) \<and>
          walked_band val minimum maximum ceil (pst_used_asks st) best (ask_price (last (pst_used_asks st))))"

definition after_walk :: "('d \<Rightarrow> rat) \<Rightarrow> 'd \<Rightarrow> 'd \<Rightarrow> rat \<Rightarrow> 'd principal_state \<Rightarrow> bool" where
  "after_walk val minimum maximum ceil st \<longleftrightarrow>
     (\<forall>best limit. pst_best_ask st = Some best \<longrightarrow> pst_limit_price st = Some limit \<longrightarrow>
        walked_band val minimum maximum ceil (pst_used_asks st) best limit)"

lemma between_levels_after: "between_levels val lo hi ceil st \<Longrightarrow> after_walk val lo hi ceil st"
  by (auto simp: between_levels_def after_walk_def split: option.splits)

lemma level_use_in_band:
  assumes "decimal_value D val" "level_check D lo hi ceil level = LevelUse"
  shows "in_band val lo hi (val ceil) (ask_price level)"
  using assms by (auto simp: level_check_def in_band_def dec_order [OF assms(1)] split: if_splits)

text \<open>A level that keeps the order extends the band of the walk.\<close>

lemma level_extends_band:
  assumes D: "decimal_value D val" and mid: "between_levels val lo hi (val ceil) st"
    and order: "validate_level_order D (pst_used_asks st) level = Inr u"
    and use: "level_check D lo hi ceil level = LevelUse"
    and best: "best = (case pst_best_ask st of None \<Rightarrow> ask_price level | Some p \<Rightarrow> p)"
    and used: "set used \<subseteq> insert a (set (pst_used_asks st))" "ask_price a = ask_price level"
  shows "walked_band val lo hi (val ceil) used best (ask_price level)"
proof (cases "pst_best_ask st")
  case None
  with mid used best have "\<forall>x \<in> set used. ask_price x = ask_price level" "best = ask_price level"
    by (auto simp: between_levels_def)
  with level_use_in_band [OF D use] show ?thesis by (simp add: walked_band_def)
next
  case (Some p)
  with mid best have band: "walked_band val lo hi (val ceil) (pst_used_asks st) best (ask_price (last (pst_used_asks st)))"
    and "pst_used_asks st \<noteq> []" by (simp_all add: between_levels_def)
  with order have up: "val (ask_price (last (pst_used_asks st))) \<le> val (ask_price level)"
    by (auto simp: validate_level_order_def dec_order [OF D] not_less split: if_splits)
  have "val best \<le> val (ask_price x) \<and> val (ask_price x) \<le> val (ask_price level)" if "x \<in> set used" for x
    using that used band up by (fastforce simp: walked_band_def)
  with band up level_use_in_band [OF D use] show ?thesis by (simp add: walked_band_def)
qed

lemma walk_principal_loop_band:
  assumes D: "decimal_value D val" and "between_levels val lo hi (val ceil) st"
    and "walk_principal_loop D lo hi ceil asks st = Inr st'"
  shows "after_walk val lo hi (val ceil) st'"
  using assms(2,3)
proof (induction asks arbitrary: st)
  case Nil
  then show ?case by (simp add: between_levels_after)
next
  case (Cons level asks)
  from Cons.prems(2) obtain u where order: "validate_level_order D (pst_used_asks st) level = Inr u"
    by (auto simp: result_simps)
  note band = level_extends_band [OF D Cons.prems(1) order _ refl]
  show ?case
  proof (cases "level_check D lo hi ceil level")
    case (LevelError e)
    then show ?thesis using Cons.prems(2) order by simp
  next
    case LevelStop
    then show ?thesis using Cons.prems order by (simp add: between_levels_after)
  next
    case LevelUse
    define best where "best = (case pst_best_ask st of None \<Rightarrow> ask_price level | Some p \<Rightarrow> p)"
    have some: "(case pst_best_ask st of None \<Rightarrow> Some (ask_price level) | Some p \<Rightarrow> Some p) = Some best"
      by (simp add: best_def split: option.splits)
    have next_level: "between_levels val lo hi (val ceil)
        (st\<lparr>pst_capacity := c, pst_best_ask := Some best, pst_limit_price := Some (ask_price level),
            pst_used_asks := pst_used_asks st @ [level], pst_remaining := r\<rparr>)" for c r
      using band [OF LevelUse, of "pst_used_asks st @ [level]" level] by (simp add: between_levels_def best_def)
    have last_level: "after_walk val lo hi (val ceil) x"
      if "pst_best_ask x = Some best" "pst_limit_price x = Some (ask_price level)"
        "set (pst_used_asks x) \<subseteq> insert a (set (pst_used_asks st))" "ask_price a = ask_price level" for x a
      using band [OF LevelUse that(3,4)] that(1,2) by (simp add: after_walk_def best_def)
    from Cons.prems(2) order LevelUse obtain c r where
      "st' = st\<lparr>pst_capacity := c, pst_best_ask := Some best, pst_limit_price := Some (ask_price level),
                pst_used_asks := pst_used_asks st @ [level], pst_remaining := r\<rparr> \<or>
       walk_principal_loop D lo hi ceil asks
         (st\<lparr>pst_capacity := c, pst_best_ask := Some best, pst_limit_price := Some (ask_price level),
             pst_used_asks := pst_used_asks st @ [level], pst_remaining := r\<rparr>) = Inr st' \<or>
       pst_best_ask st' = Some best \<and> pst_limit_price st' = Some (ask_price level) \<and>
         (\<exists>n. set (pst_used_asks st') \<subseteq> insert \<lparr>ask_price = ask_price level, ask_shares = n\<rparr> (set (pst_used_asks st)))"
      by (fastforce simp: some Let_def result_simps split: if_splits)
    then show ?thesis
      using Cons.IH [OF next_level] between_levels_after [OF next_level] last_level by (metis ask_level.select_convs(1))
  qed
qed

subsection \<open>What a plan keeps\<close>

definition plan_sound :: "'d decimal_ops \<Rightarrow> ('d \<Rightarrow> rat) \<Rightarrow> 'd \<Rightarrow> 'd \<Rightarrow> rat \<Rightarrow> u32 \<Rightarrow> 'd ladder_plan \<Rightarrow> bool" where
  "plan_sound D val minimum maximum ceil scale plan \<longleftrightarrow>
     walked_band val minimum maximum ceil (used_asks plan) (best_ask plan) (limit_price plan) \<and>
     shares_for_principal D (worst_case_debit plan) (limit_price plan) scale = Inr (plan_shares plan) \<and>
     (\<exists>signed. plan_signed_price D plan = Inr signed \<and> val (limit_price plan) \<le> val signed)"

lemma walk_principal_band:
  assumes D: "decimal_value D val" and "walk_principal D asks prin partial lo hi ceil = Inr walked"
  shows "walked_band val lo hi (val ceil) (pw_used_asks walked) (pw_best_ask walked) (pw_limit_price walked)"
proof -
  let ?init = "\<lparr>pst_remaining = amount_to_decimal D prin, pst_used_asks = [], pst_capacity = dec_zero D,
    pst_best_ask = None, pst_limit_price = None\<rparr>"
  from assms(2) obtain st where st: "walk_principal_loop D lo hi ceil asks ?init = Inr st"
    unfolding walk_principal_def rbind_eq_Inr_iff by blast
  have parts: "pst_best_ask st = Some (pw_best_ask walked)" "pst_limit_price st = Some (pw_limit_price walked)"
      "pst_used_asks st = pw_used_asks walked"
    using assms(2) unfolding walk_principal_def st by (auto simp: result_simps split: if_splits)
  have "after_walk val lo hi (val ceil) st"
    by (rule walk_principal_loop_band [OF D _ st]) (simp add: between_levels_def)
  with parts show ?thesis by (simp add: after_walk_def)
qed

lemma plan_principal_sound:
  assumes D: "decimal_value D val"
    and "plan_principal_buy_with_scale D asks prin scale partial lo hi chase impact = Inr plan"
  shows "plan_sound D val lo hi (min (val chase) (val impact)) scale plan"
proof -
  from assms(2) obtain walked signed where
      w: "walk_principal D asks prin (partial \<noteq> None) lo hi (dec_min D chase impact) = Inr walked"
    and s: "shares_for_principal D (pw_principal walked) (pw_limit_price walked) scale = Inr (plan_shares plan)"
    and p: "used_asks plan = pw_used_asks walked" "best_ask plan = pw_best_ask walked" "limit_price plan = pw_limit_price walked"
      "worst_case_debit plan = pw_principal walked"
    and signed: "plan_signed_price D plan = Inr signed" "\<not> dec_lt D signed (limit_price plan)"
    by (auto simp: plan_principal_buy_with_scale_def Let_def result_simps split: if_splits)
  have "walked_band val lo hi (min (val chase) (val impact)) (pw_used_asks walked) (pw_best_ask walked) (pw_limit_price walked)"
    using walk_principal_band [OF D w] by (simp add: dec_order [OF D])
  with s p signed show ?thesis by (simp add: plan_sound_def dec_order [OF D] not_less)
qed

lemma plan_share_sound:
  assumes "decimal_value D val" and "plan_share_buy D asks requested scale minimum lo hi chase impact = Inr plan"
  shows "plan_sound D val lo hi (min (val chase) (val impact)) scale plan"
  using assms(2) plan_principal_sound [OF assms(1)] by (auto simp: plan_share_buy_def result_simps split: if_splits)

lemma plan_for_sizing_sound:
  assumes D: "decimal_value D val"
    and "plan_for_sizing D asks schedule sizing caps minimum scale best lo hi chase impact = Inr (budget, plan)"
  shows "plan_sound D val lo hi (min (val chase) (val impact)) scale plan"
proof (cases sizing)
  case (SizeContract n)
  with assms(2) show ?thesis using plan_share_sound [OF D]
    by (auto simp: plan_for_sizing_def plan_contract_buy_def Let_def result_simps)
next
  case (SizeKelly allocate slippage)
  with assms(2) show ?thesis using plan_share_sound [OF D]
    by (auto simp: plan_for_sizing_def plan_kelly_buy_def Let_def result_simps split: if_splits)
qed (use assms(2) plan_principal_sound [OF D] in \<open>auto simp: plan_for_sizing_def Let_def result_simps\<close>)

lemma share_scale_le_6: "signed_share_scale D tick = Inr scale \<Longrightarrow> unat scale \<le> 6"
  by (auto simp: signed_share_scale_def result_simps word_le_nat_alt split: option.splits if_splits)

lemma plan_sized_buy_steps:
  assumes "plan_sized_buy D asks schedule sizing caps minimum tick lo hi chase impact = Inr plan"
  obtains scale best where "signed_share_scale D tick = Inr scale"
    "plan_for_sizing D asks schedule sizing caps minimum scale best lo hi chase impact = Inr (sb_budget plan, sb_ladder plan)"
    "fee_reserve D schedule (worst_case_debit (sb_ladder plan)) (best_ask (sb_ladder plan)) (limit_price (sb_ladder plan)) =
       Inr (sb_reserve plan)"
    "\<exists>all_in. worst_case_all_in_debit plan = Inr all_in \<and> all_in \<le> sb_budget plan \<and> (\<forall>cap \<in> set caps. all_in \<le> cap)"
    "minimum \<le> plan_shares (sb_ladder plan)"
  using assms
  by (auto simp: plan_sized_buy_def worst_case_all_in_debit_def result_simps list_ex_iff not_less split: if_splits)

text \<open>C10. A buy that \<open>plan_sized_buy\<close> returns, for any of the four sizings, keeps every limit it was
  given: the principal plus the fee reserve is within the budget and within every cap, the shares reach
  the minimum order, and every level used lies between the best ask and the limit price, inside the
  price band and under both ceilings. The price it signs is no better than the limit price, and the taker
  fee charged at the signed price never exceeds the fee reserve, when each
  operation of \<open>rust_decimal\<close> is exact up to the rounding that \<open>decimal_rounds\<close> states.\<close>

theorem sized_buy_keeps_limits:
  assumes D: "decimal_value D val" "decimal_rounds D val" and lo: "0 \<le> val lo"
    and plan: "plan_sized_buy D asks schedule sizing caps minimum tick lo hi chase impact = Inr plan"
  shows "\<exists>all_in signed.
     worst_case_all_in_debit plan = Inr all_in \<and> all_in \<le> sb_budget plan \<and> (\<forall>cap \<in> set caps. all_in \<le> cap) \<and>
     minimum \<le> plan_shares (sb_ladder plan) \<and>
     (\<forall>a \<in> set (used_asks (sb_ladder plan)).
        val lo \<le> val (ask_price a) \<and> val (best_ask (sb_ladder plan)) \<le> val (ask_price a) \<and>
        val (ask_price a) \<le> val (limit_price (sb_ladder plan))) \<and>
     val (limit_price (sb_ladder plan)) < val hi \<and>
     val (limit_price (sb_ladder plan)) \<le> val chase \<and> val (limit_price (sb_ladder plan)) \<le> val impact \<and>
     plan_signed_price D (sb_ladder plan) = Inr signed \<and> val (limit_price (sb_ladder plan)) \<le> val signed \<and>
     (\<forall>fee. taker_fee D schedule (plan_shares (sb_ladder plan)) signed = Inr fee \<longrightarrow> fee \<le> sb_reserve plan)"
proof -
  obtain scale best where scale: "signed_share_scale D tick = Inr scale"
    and sizing: "plan_for_sizing D asks schedule sizing caps minimum scale best lo hi chase impact = Inr (sb_budget plan, sb_ladder plan)"
    and reserve: "fee_reserve D schedule (worst_case_debit (sb_ladder plan)) (best_ask (sb_ladder plan)) (limit_price (sb_ladder plan)) =
       Inr (sb_reserve plan)"
    and caps: "\<exists>all_in. worst_case_all_in_debit plan = Inr all_in \<and> all_in \<le> sb_budget plan \<and> (\<forall>cap \<in> set caps. all_in \<le> cap)"
    and least: "minimum \<le> plan_shares (sb_ladder plan)"
    using plan by (rule plan_sized_buy_steps)
  have sound: "plan_sound D val lo hi (min (val chase) (val impact)) scale (sb_ladder plan)"
    using D(1) sizing by (rule plan_for_sizing_sound)
  then obtain signed where signed: "plan_signed_price D (sb_ladder plan) = Inr signed"
      "val (limit_price (sb_ladder plan)) \<le> val signed"
    and shares: "shares_for_principal D (worst_case_debit (sb_ladder plan)) (limit_price (sb_ladder plan)) scale =
      Inr (plan_shares (sb_ladder plan))"
    and band: "walked_band val lo hi (min (val chase) (val impact)) (used_asks (sb_ladder plan)) (best_ask (sb_ladder plan))
      (limit_price (sb_ladder plan))" by (auto simp: plan_sound_def)
  have price: "signed_price D (worst_case_debit (sb_ladder plan)) (plan_shares (sb_ladder plan)) = Inr signed"
    using signed(1) by (simp add: plan_signed_price_def result_simps)
  have "0 < val (limit_price (sb_ladder plan))" "0 \<le> val (best_ask (sb_ladder plan))"
    using band lo by (auto simp: walked_band_def in_band_def)
  then have "fee \<le> sb_reserve plan" if "taker_fee D schedule (plan_shares (sb_ladder plan)) signed = Inr fee" for fee
    using fee_fits_reserve [OF D share_scale_le_6 [OF scale] shares price signed(2) _ _ that reserve] by blast
  with caps least band signed show ?thesis by (fastforce simp: walked_band_def in_band_def)
qed

definition one_ask :: "rat ask_level list" where
  "one_ask = [\<lparr>ask_price = 1 / 2, ask_shares = 100000000\<rparr>]"

lemmas exact_amounts = amount_from_decimal_exact_def amount_to_decimal_def ATOMIC_SCALE_def exact_decimal_def
  rat_round_def dec_le_def dec_min_def amount_checked_add_def checked_add_def collateral_exact_def price_new_def
  validate_band_def validated_rate_def result_simps

lemma one_ask_principal:
  "principal_for_budget exact_decimal (TakerFee (1 / 25)) 30600000 (1 / 2) (3 / 5) = Inr 30000000"
  by (simp add: principal_for_budget_def all_in_reserve_def exact_amounts)

lemma one_ask_plan:
  "plan_principal_buy_with_scale exact_decimal one_ask 30000000 2 None (1 / 10) (9 / 10) (3 / 5) (7 / 10) =
     Inr \<lparr>used_asks = [\<lparr>ask_price = 1 / 2, ask_shares = 60000000\<rparr>], best_ask = 1 / 2, limit_price = 1 / 2,
          plan_shares = 60000000, worst_case_debit = 30000000\<rparr>"
  by (simp add: plan_principal_buy_with_scale_def walk_principal_def one_ask_def validate_level_order_def
      level_check_def plan_signed_price_def signed_price_def decimal_to_atomic_shares_def shares_for_principal_def
      principal_implied_shares_def exact_amounts)

lemma one_ask_sized:
  "plan_sized_buy exact_decimal one_ask (TakerFee (1 / 25)) (SizeDollar 30600000) [40000000] 5000000 (1 / 100)
     (1 / 10) (9 / 10) (3 / 5) (7 / 10) =
     Inr \<lparr>sb_ladder = \<lparr>used_asks = [\<lparr>ask_price = 1 / 2, ask_shares = 60000000\<rparr>], best_ask = 1 / 2, limit_price = 1 / 2,
            plan_shares = 60000000, worst_case_debit = 30000000\<rparr>, sb_budget = 30600000, sb_reserve = 600000\<rparr>"
proof -
  have scale: "signed_share_scale exact_decimal (1 / 100) = Inr 2"
    by (simp add: signed_share_scale_def exact_decimal_def checked_add_def)
  have ceil: "dec_min exact_decimal (3 / 5) (7 / 10) = 3 / 5" by (simp add: dec_min_def exact_decimal_def)
  have first: "first_eligible_ask exact_decimal one_ask (1 / 10) (9 / 10) (3 / 5) = Inr (1 / 2)"
    by (simp add: first_eligible_ask_def one_ask_def exact_decimal_def dec_le_def)
  have reserve: "fee_reserve exact_decimal (TakerFee (1 / 25)) 30000000 (1 / 2) (1 / 2) = Inr 600000"
    by (simp add: fee_reserve_def principal_implied_shares_def maximum_curve_price_def Let_def exact_amounts)
  have tick: "\<not> dec_eq exact_decimal (1 / 100) (dec_zero exact_decimal)" by (simp add: exact_decimal_def)
  show ?thesis
    by (simp add: plan_sized_buy_def scale ceil first plan_for_sizing_def one_ask_principal one_ask_plan reserve tick
        amount_checked_add_def checked_add_def result_simps)
qed

theorem sized_buy_keeps_limits_witness:
  "\<exists>plan. plan_sized_buy exact_decimal one_ask (TakerFee (1 / 25)) (SizeDollar 30600000) [40000000] 5000000 (1 / 100)
             (1 / 10) (9 / 10) (3 / 5) (7 / 10) = Inr plan \<and>
          worst_case_all_in_debit plan = Inr 30600000 \<and> limit_price (sb_ladder plan) \<le> 3 / 5 \<and>
          taker_fee exact_decimal (TakerFee (1 / 25)) (plan_shares (sb_ladder plan)) (1 / 2) = Inr 600000 \<and>
          600000 \<le> sb_reserve plan"
proof -
  have fee: "taker_fee exact_decimal (TakerFee (1 / 25)) 60000000 (1 / 2) = Inr 600000"
    by (simp add: taker_fee_def exact_amounts)
  have signed: "signed_price exact_decimal 30000000 60000000 = Inr (1 / 2)"
    by (simp add: signed_price_def exact_amounts)
  show ?thesis
    using sized_buy_keeps_limits [OF exact_decimal_value exact_decimal_rounds _ one_ask_sized]
    by (simp add: one_ask_sized fee signed plan_signed_price_def worst_case_all_in_debit_def amount_checked_add_def
        checked_add_def result_simps)
qed

subsection \<open>The exact-share walk\<close>

text \<open>The walk takes whole levels from the front of the book and a part of the last one.\<close>

definition fills :: "'d ask_level list \<Rightarrow> 'd ask_level list \<Rightarrow> u64 \<Rightarrow> bool" where
  "fills asks used n \<longleftrightarrow>
     used \<noteq> [] \<and> length used \<le> length asks \<and> butlast used = take (length used - 1) asks \<and>
     ask_price (last used) = ask_price (asks ! (length used - 1)) \<and>
     0 < ask_shares (last used) \<and> ask_shares (last used) \<le> ask_shares (asks ! (length used - 1)) \<and>
     (\<Sum>a \<leftarrow> used. unat (ask_shares a)) = unat n"

lemma fills_whole:
  assumes "fills asks used (n - ask_shares level)" "ask_shares level \<le> n"
  shows "fills (level # asks) (level # used) n"
  using assms by (auto simp: fills_def take_Cons' nth_Cons' unat_sub word_le_nat_alt)

lemma fills_part: "0 < n \<Longrightarrow> n \<le> ask_shares level \<Longrightarrow> fills (level # asks) [\<lparr>ask_price = ask_price level, ask_shares = n\<rparr>] n"
  by (simp add: fills_def)

lemma walk_shares_fills:
  assumes "walk_shares D lo hi ceil asks n used = Inr out" "0 < n"
  shows "\<exists>more_asks. out = used @ more_asks \<and> fills asks more_asks n"
  using assms
proof (induction asks arbitrary: n used)
  case Nil
  then show ?case by simp
next
  case (Cons level asks)
  from Cons.prems have use: "level_check D lo hi ceil level = LevelUse"
    by (auto simp: result_simps split: level_verdict.splits)
  then have pos: "0 < ask_shares level" by (auto simp: level_check_def word_gt_0 split: if_splits)
  obtain u where order: "validate_level_order D used level = Inr u" using Cons.prems by (auto simp: result_simps)
  show ?case
  proof (cases "n \<le> ask_shares level")
    case True
    with Cons.prems use order have "out = used @ [\<lparr>ask_price = ask_price level, ask_shares = n\<rparr>]"
      by (simp add: Let_def min_def checked_sub_def word_gt_0)
    with fills_part [OF Cons.prems(2) True] show ?thesis by blast
  next
    case False
    then have rest: "0 < n - ask_shares level" and le: "ask_shares level \<le> n" by (simp_all add: word_gt_0)
    have eta: "\<lparr>ask_price = ask_price level, ask_shares = ask_shares level\<rparr> = level" by simp
    from False Cons.prems use order pos rest le
    have "walk_shares D lo hi ceil asks (n - ask_shares level) (used @ [level]) = Inr out"
      by (simp add: Let_def min_def checked_sub_def word_gt_0 eta)
    from Cons.IH [OF this rest] obtain w where "out = used @ level # w" "fills asks w (n - ask_shares level)" by auto
    with fills_whole [of asks w n level] False show ?thesis by auto
  qed
qed

text \<open>Conversely a book with the depth, in order and in the band, is filled.\<close>

definition usable_depth :: "'d decimal_ops \<Rightarrow> 'd \<Rightarrow> 'd \<Rightarrow> 'd \<Rightarrow> 'd ask_level list \<Rightarrow> nat \<Rightarrow> u64 \<Rightarrow> bool" where
  "usable_depth D lo hi ceil asks k n \<longleftrightarrow>
     list_all (\<lambda>a. level_check D lo hi ceil a = LevelUse) (take k asks) \<and>
     sorted_wrt (\<lambda>a b. \<not> dec_lt D (ask_price b) (ask_price a)) (take k asks) \<and>
     unat n \<le> (\<Sum>a \<leftarrow> take k asks. unat (ask_shares a))"

lemma walk_shares_complete:
  assumes "usable_depth D lo hi ceil asks k n" "0 < n"
    and "used = [] \<or> list_all (\<lambda>a. \<not> dec_lt D (ask_price a) (ask_price (last used))) (take k asks)"
  shows "\<exists>out. walk_shares D lo hi ceil asks n used = Inr out"
  using assms
proof (induction asks arbitrary: n used k)
  case Nil
  then show ?case by (simp add: usable_depth_def word_gt_0 unat_eq_zero)
next
  case (Cons level asks)
  then obtain j where k: "k = Suc j" by (cases k) (auto simp: usable_depth_def unat_eq_zero)
  with Cons.prems have use: "level_check D lo hi ceil level = LevelUse"
    and order: "validate_level_order D used level = Inr ()"
    by (auto simp: usable_depth_def validate_level_order_def)
  from use have pos: "0 < ask_shares level" by (auto simp: level_check_def word_gt_0 split: if_splits)
  show ?case
  proof (cases "n \<le> ask_shares level")
    case True
    with Cons.prems use order show ?thesis by (simp add: Let_def min_def checked_sub_def word_gt_0)
  next
    case False
    then have rest: "0 < n - ask_shares level" and le: "ask_shares level \<le> n" by (simp_all add: word_gt_0)
    have "unat (n - ask_shares level) = unat n - unat (ask_shares level)" using False by (simp add: unat_sub)
    with Cons.prems k have "usable_depth D lo hi ceil asks j (n - ask_shares level)" by (auto simp: usable_depth_def)
    moreover have "list_all (\<lambda>a. \<not> dec_lt D (ask_price a) (ask_price (last (used @ [level])))) (take j asks)"
      using Cons.prems k by (auto simp: usable_depth_def list_all_iff)
    ultimately obtain out where "walk_shares D lo hi ceil asks (n - ask_shares level) (used @ [level]) = Inr out"
      using Cons.IH rest by blast
    moreover have eta: "\<lparr>ask_price = ask_price level, ask_shares = ask_shares level\<rparr> = level" by simp
    ultimately show ?thesis using False use order pos rest le
      by (simp add: Let_def min_def checked_sub_def word_gt_0 eta)
  qed
qed

text \<open>C28. The exact-share walk of the canary fills an order exactly or not at all. When a prefix of the
  book is in price order, in the band and deep enough, the walk succeeds; and whatever it returns is that
  book taken from the front, whole levels and a positive part of the last one, whose shares sum to the
  request with no wrap-around.\<close>

theorem exact_walk_fills_request:
  assumes "0 < n"
  shows "(usable_depth D lo hi ceil asks k n \<longrightarrow> (\<exists>used. walk_shares D lo hi ceil asks n [] = Inr used)) \<and>
         (\<forall>used. walk_shares D lo hi ceil asks n [] = Inr used \<longrightarrow> fills asks used n)"
  using walk_shares_fills [OF _ assms, of D lo hi ceil asks "[]"] walk_shares_complete [OF _ assms, of D lo hi ceil asks k "[]"] by auto

theorem exact_walk_fills_request_witness:
  "usable_depth exact_decimal (1 / 10) (9 / 10) (3 / 5) one_ask 1 40000000 \<and>
   (\<exists>used. walk_shares exact_decimal (1 / 10) (9 / 10) (3 / 5) one_ask 40000000 [] = Inr used \<and> fills one_ask used 40000000)"
proof -
  have "usable_depth exact_decimal (1 / 10) (9 / 10) (3 / 5) one_ask 1 40000000"
    by (simp add: usable_depth_def one_ask_def level_check_def exact_decimal_def dec_le_def)
  then show ?thesis
    using exact_walk_fills_request [of 40000000 exact_decimal "1 / 10" "9 / 10" "3 / 5" one_ask 1] by auto
qed

end
