(* ===== verification/Live_Types.thy ===== *)
theory Live_Types
  imports Fee_Ladder Risk_Engine Event_Frame
begin

section \<open>The records of the live journal (crates/execution-core/src/live_journal.rs, economic.rs)\<close>

text \<open>
  The types that live execution writes to its journal, in the order of the source: the HTTP evidence of
  \<open>core-types\<close>, the venue settlement of \<open>resolver-card\<close>, the prepared order and the matched receipt of
  \<open>venue-polymarket\<close>, the economic record and the journal payloads. A \<open>Box\<close> or \<open>Arc\<close> is its content, a
  JSON value is the type parameter \<open>'j\<close>, a decimal the type parameter \<open>'d\<close>, and a timestamp an
  \<open>int\<close>. The functions of these types follow them; \<open>unix_timestamp\<close> is an argument where it is read.
\<close>

subsection \<open>HTTP evidence (core-types/src/http_evidence.rs)\<close>

type_synonym account_id = string
type_synonym polymarket_condition_id = string
type_synonym polymarket_token_id = string
type_synonym offset_date_time = int

datatype transport_error_class = TeTimeout | TeConnect | TeBodyRead | TeRequestBuild | TeCancelled | TeOther

record raw_http_response =
  rh_source_id :: string
  rh_endpoint_kind :: string
  rh_method :: string
  rh_path :: string
  rh_ordered_query :: "(string \<times> string) list"
  rh_status :: u16
  rh_headers :: "(string \<times> string) list"
  rh_body :: bytes
  rh_attempt_ordinal :: u32
  rh_source_at :: "offset_date_time option"
  rh_observed_at :: offset_date_time
  rh_received_at :: offset_date_time
  rh_schema_version :: u16
  rh_parser_version :: u16
  rh_adapter_version :: string

record raw_transport_failure =
  tf_source_id :: string
  tf_endpoint_kind :: string
  tf_method :: string
  tf_path :: string
  tf_ordered_query :: "(string \<times> string) list"
  tf_attempt_ordinal :: u32
  tf_observed_at :: offset_date_time
  tf_received_at :: offset_date_time
  tf_error_class :: transport_error_class
  tf_schema_version :: u16
  tf_parser_version :: u16
  tf_adapter_version :: string

datatype raw_http_attempt = HttpResponse raw_http_response | TransportFailure raw_transport_failure

subsection \<open>Venue settlement (resolver-card/src/venue_settlement.rs)\<close>

definition VENUE_SETTLEMENT_SCHEMA_VERSION :: u16 where "VENUE_SETTLEMENT_SCHEMA_VERSION = 1"

datatype venue_resolution_status = Unresolved | ResolvedWinner u8 | ResolvedAmbiguous

record venue_settlement_record =
  vs_schema_version :: u16
  vs_condition_id :: polymarket_condition_id
  vs_status :: venue_resolution_status
  vs_raw_evidence_hash :: string
  vs_source_timestamp_unix :: "i64 option"
  vs_observed_at_unix :: i64
  vs_parser_version :: u16
  vs_freshness_window_secs :: u64

datatype venue_settlement_error = SettlementSchema u16 | SettlementStale | SettlementResolved | SettlementUnclear

text \<open>The subtraction is the plain \<open>-\<close> of \<open>i64\<close>, which wraps in the release profile.\<close>

definition wrap_i64 :: "int \<Rightarrow> i64" where
  "wrap_i64 x = (x + 2 ^ 63) mod 2 ^ 64 - 2 ^ 63"

definition validate_fresh_for_entry :: "venue_settlement_record \<Rightarrow> i64 \<Rightarrow> venue_settlement_error + unit" where
  "validate_fresh_for_entry r now_unix =
     (if vs_schema_version r \<noteq> VENUE_SETTLEMENT_SCHEMA_VERSION then Inl (SettlementSchema (vs_schema_version r))
      else
        let age = wrap_i64 (now_unix - vs_observed_at_unix r) in
        if age < 0 \<or> int (unat (vs_freshness_window_secs r)) < age then Inl SettlementStale
        else case vs_status r of
          Unresolved \<Rightarrow> Inr ()
        | ResolvedWinner _ \<Rightarrow> Inl SettlementResolved
        | ResolvedAmbiguous \<Rightarrow> Inl SettlementUnclear)"

subsection \<open>Venue records (venue-polymarket/src/v2.rs, receipt.rs)\<close>

record 'd prepared_polymarket_buy =
  pb_condition_id :: polymarket_condition_id
  pb_outcome_id :: outcome_id
  pb_token_id :: polymarket_token_id
  pb_maker :: string
  pb_signer :: string
  pb_funder :: string
  pb_verifying_contract :: string
  pb_spender :: string
  pb_exchange_domain_version :: u8
  pb_neg_risk :: bool
  pb_side :: string
  pb_salt :: string
  pb_timestamp_ms :: u64
  pb_expiration :: string
  pb_maker_collateral :: collateral_amount
  pb_taker_shares :: share_amount
  pb_limit_price :: 'd
  pb_minimum_tick_size :: 'd
  pb_signature_type :: u8
  pb_order_type :: string
  pb_post_only :: bool
  pb_defer_exec :: bool
  pb_metadata :: string
  pb_builder :: string
  pb_order_hash :: string
  pb_post_body_hash :: string
  pb_sdk_version :: string
  pb_sdk_archive_sha256 :: string
  pb_metadata_hashes :: "string list"
  pb_worst_case_debit :: collateral_amount

record receipt_log =
  rl_transaction_hash :: string
  rl_block_number :: u64
  rl_block_hash :: string
  rl_log_index :: u64
  rl_address :: bytes
  rl_topics :: "bytes list"
  rl_data :: string
  rl_removed :: bool
  rl_raw_hash :: string

record matched_receipt =
  mr_transaction_hash :: string
  mr_block_number :: u64
  mr_block_hash :: string
  mr_logs :: "receipt_log list"

subsection \<open>Admission evidence\<close>

record credential_binding_identity =
  cb_version :: i64
  cb_key_id :: string

record sanitized_http_request_descriptor =
  sd_account_id :: string
  sd_credential_fingerprint :: string
  sd_custody_wallet :: string
  sd_method :: string
  sd_path :: string
  sd_partition :: string
  sd_offset :: u64
  sd_ordered_query :: "(string \<times> string) list"

record live_account_binding_audit =
  lb_account_id :: account_id
  lb_credential :: credential_binding_identity
  lb_custody_wallet :: string
  lb_credential_fingerprint :: string

definition account_binding_new ::
    "account_id \<Rightarrow> credential_binding_identity \<Rightarrow> wallet_address \<Rightarrow> string \<Rightarrow> live_account_binding_audit" where
  "account_binding_new account credential wallet fingerprint =
     \<lparr>lb_account_id = account, lb_credential = credential, lb_custody_wallet = wallet_display wallet,
      lb_credential_fingerprint = fingerprint\<rparr>"

definition is_lower_hex_byte :: "char \<Rightarrow> bool" where
  "is_lower_hex_byte c \<longleftrightarrow> (48 \<le> (of_char c :: nat) \<and> (of_char c :: nat) \<le> 57) \<or> (97 \<le> (of_char c :: nat) \<and> (of_char c :: nat) \<le> 102)"

definition is_valid_for :: "live_account_binding_audit \<Rightarrow> account_id \<Rightarrow> bool" where
  "is_valid_for b account \<longleftrightarrow>
     lb_account_id b = account \<and>
     (case wallet_from_hex (lb_custody_wallet b) of
        Inl _ \<Rightarrow> False
      | Inr wallet \<Rightarrow> wallet_display wallet = lb_custody_wallet b) \<and>
     length (lb_credential_fingerprint b) = 64 \<and>
     list_all is_lower_hex_byte (lb_credential_fingerprint b)"

definition is_valid_for_frozen_credential ::
    "live_account_binding_audit \<Rightarrow> account_id \<Rightarrow> credential_binding_identity \<Rightarrow> bool" where
  "is_valid_for_frozen_credential b account frozen \<longleftrightarrow> is_valid_for b account \<and> lb_credential b = frozen"

definition request_descriptor ::
    "live_account_binding_audit \<Rightarrow> string \<Rightarrow> string \<Rightarrow> string \<Rightarrow> u64 \<Rightarrow> (string \<times> string) list
       \<Rightarrow> sanitized_http_request_descriptor" where
  "request_descriptor b http_method path partition_name offset ordered_query =
     \<lparr>sd_account_id = lb_account_id b, sd_credential_fingerprint = lb_credential_fingerprint b,
      sd_custody_wallet = lb_custody_wallet b, sd_method = http_method, sd_path = path, sd_partition = partition_name,
      sd_offset = offset, sd_ordered_query = ordered_query\<rparr>"

definition request_descriptor_for_attempt ::
    "live_account_binding_audit \<Rightarrow> raw_http_attempt \<Rightarrow> sanitized_http_request_descriptor" where
  "request_descriptor_for_attempt b attempt =
     (case attempt of
        HttpResponse r \<Rightarrow> request_descriptor b (rh_method r) (rh_path r) (rh_endpoint_kind r) 0 (rh_ordered_query r)
      | TransportFailure f \<Rightarrow> request_descriptor b (tf_method f) (tf_path f) (tf_endpoint_kind f) 0 (tf_ordered_query f))"

record live_fill_projection_identity =
  fp_leader_wallet :: string
  fp_source_trade_id :: "string option"
  fp_market_id :: string
  fp_outcome_id :: i64
  fp_side :: string

record live_order_identity =
  lo_dispatch_id :: string
  lo_idempotency_key :: string
  lo_quote_id :: string
  lo_config_hash :: string
  lo_decision_hash :: string
  lo_evidence_hashes :: "string list"
  lo_fill_projection :: "live_fill_projection_identity option"
  lo_schema_version :: u16
  lo_parser_version :: u16

definition idempotency_key_for :: "string \<Rightarrow> account_id \<Rightarrow> string" where
  "idempotency_key_for dispatch_id account = dispatch_id @ '':'' @ account"

datatype live_control_mode = ModeOff | LiveTiny

record 'd live_market_evidence =
  le_condition_id :: polymarket_condition_id
  le_ordered_outcome_token_ids :: "polymarket_token_id \<times> polymarket_token_id"
  le_neg_risk :: bool
  le_neg_risk_market_id :: "string option"
  le_series_recurrence :: "string option"
  le_minimum_tick_size :: 'd
  le_minimum_order_size :: share_amount
  le_scheduled_end_unix :: "i64 option"
  le_observed_at_unix :: i64
  le_schema_version :: u32
  le_parser_version :: u32
  le_freshness_window_secs :: u64

record 'd live_market_evidence_audit =
  me_condition_id :: polymarket_condition_id
  me_ordered_outcome_token_ids :: "polymarket_token_id \<times> polymarket_token_id"
  me_neg_risk :: bool
  me_minimum_tick_size :: 'd
  me_minimum_order_size :: share_amount
  me_observed_at_unix :: i64
  me_schema_version :: u32
  me_parser_version :: u32
  me_freshness_window_secs :: u64

definition market_evidence_audit :: "'d live_market_evidence \<Rightarrow> 'd live_market_evidence_audit" where
  "market_evidence_audit v =
     \<lparr>me_condition_id = le_condition_id v, me_ordered_outcome_token_ids = le_ordered_outcome_token_ids v,
      me_neg_risk = le_neg_risk v, me_minimum_tick_size = le_minimum_tick_size v,
      me_minimum_order_size = le_minimum_order_size v, me_observed_at_unix = le_observed_at_unix v,
      me_schema_version = le_schema_version v, me_parser_version = le_parser_version v,
      me_freshness_window_secs = le_freshness_window_secs v\<rparr>"

record admission_receipts =
  ad_gamma :: append_receipt
  ad_clob_long :: append_receipt
  ad_clob_compact :: append_receipt

record 'd live_admission_artifact_audit =
  aa_market :: "'d live_market_evidence_audit"
  aa_settlement :: venue_settlement_record
  aa_fee_schedule :: "'d compact_fee_schedule"
  aa_scheduled_end_unix :: "i64 option"
  aa_receipts :: admission_receipts

definition admission_artifact_audit_new ::
    "'d live_market_evidence \<Rightarrow> venue_settlement_record \<Rightarrow> 'd compact_fee_schedule \<Rightarrow> admission_receipts
       \<Rightarrow> 'd live_admission_artifact_audit" where
  "admission_artifact_audit_new market settlement schedule receipts =
     \<lparr>aa_market = market_evidence_audit market, aa_settlement = settlement, aa_fee_schedule = schedule,
      aa_scheduled_end_unix = le_scheduled_end_unix market, aa_receipts = receipts\<rparr>"

record 'd ladder_ask_audit =
  la_price :: 'd
  la_shares :: share_amount

record 'd ladder_plan_audit =
  lp_used_asks :: "'d ladder_ask_audit list"
  lp_best_ask :: 'd
  lp_limit_price :: 'd
  lp_minimum_shares :: share_amount
  lp_principal :: collateral_amount

definition ladder_plan_audit_new :: "'d ladder_plan \<Rightarrow> 'd ladder_plan_audit" where
  "ladder_plan_audit_new plan =
     \<lparr>lp_used_asks = map (\<lambda>a. \<lparr>la_price = ask_price a, la_shares = ask_shares a\<rparr>) (used_asks plan),
      lp_best_ask = best_ask plan, lp_limit_price = limit_price plan, lp_minimum_shares = plan_shares plan,
      lp_principal = worst_case_debit plan\<rparr>"

definition audit_expected_shares :: "'d ladder_plan_audit \<Rightarrow> core_error + share_amount" where
  "audit_expected_shares a = try_fold (\<lambda>total ask. share_checked_add total (la_shares ask)) 0 (lp_used_asks a)"

definition audit_expected_spend :: "'d decimal_ops \<Rightarrow> 'd ladder_plan_audit \<Rightarrow> core_error + collateral_amount" where
  "audit_expected_spend D a =
     rbind (try_fold (\<lambda>total ask.
              ok_or (OutOfRange ''LadderPlanAudit.expected_spend'')
                (Option.bind (dec_checked_mul D (amount_to_decimal D (la_shares ask)) (la_price ask)) (\<lambda>v.
                   dec_checked_add D total v))) (dec_zero D) (lp_used_asks a)) (\<lambda>spend.
       amount_from_decimal_exact D ''CollateralAmount'' (dec_round_dp D 6 ToNegativeInfinity spend))"

definition audit_expected_vwap :: "'d decimal_ops \<Rightarrow> 'd ladder_plan_audit \<Rightarrow> 'd option" where
  "audit_expected_vwap D a =
     Option.bind (ok (audit_expected_shares a)) (\<lambda>n.
     let shares = amount_to_decimal D n in
     if dec_le D shares (dec_zero D) then None
     else Option.bind (ok (audit_expected_spend D a)) (\<lambda>spend.
          Option.bind (dec_checked_div D (amount_to_decimal D spend) shares) (\<lambda>q. ok (price_new D q))))"

subsection \<open>The economic record (economic.rs)\<close>

record market_selection =
  ms_condition_id :: polymarket_condition_id
  ms_outcome_index :: u8
  ms_token_id :: polymarket_token_id
  ms_side :: side
  ms_market_id :: string

datatype 'd sizing_mode_audit = KellyMode 'd 'd | DollarMode 'd | ContractMode u64

record 'd sizing_audit =
  sz_mode :: "'d sizing_mode_audit"
  sz_budget :: collateral_amount
  sz_principal :: collateral_amount
  sz_minimum_shares :: share_amount
  sz_expected_shares :: share_amount
  sz_expected_vwap :: 'd
  sz_all_in_price :: 'd
  sz_slippage_rate :: 'd

record 'd fee_audit =
  fa_schedule :: "'d compact_fee_schedule"
  fa_expected_fee :: collateral_amount
  fa_reserve :: collateral_amount

datatype risk_decision_audit = AuditApproved | AuditBlocked risk_block

record risk_audit =
  ra_financial_prefix :: append_receipt
  ra_snapshot :: risk_snapshot
  ra_decision :: risk_decision_audit
  ra_price_receipts :: "append_receipt list"
  ra_evaluated_at_unix_ms :: i64

record 'd balance_audit =
  ba_cash_before :: collateral_amount
  ba_worst_case_debit :: collateral_amount
  ba_price_impact_cap_bps :: i32
  ba_chase_ceiling :: 'd
  ba_band_floor :: 'd
  ba_band_ceiling_exclusive :: 'd

record observation_evidence =
  oe_source_receipt :: append_receipt
  oe_complete_bound_receipt :: append_receipt
  oe_observed_unix_ms :: i64
  oe_provenance :: string

record 'd economic_prepared =
  ep_version :: u16
  ep_market :: market_selection
  ep_admission :: "'d live_admission_artifact_audit"
  ep_ladder :: "'d ladder_plan_audit"
  ep_book_receipt :: append_receipt
  ep_observation :: "observation_evidence option"
  ep_sizing :: "'d sizing_audit"
  ep_fee :: "'d fee_audit"
  ep_risk :: risk_audit
  ep_balance :: "'d balance_audit"
  ep_applied_configuration_hash :: string

subsection \<open>Account state and admission\<close>

datatype live_account_read_failure = ReadTransport | ReadAuthentication | ReadProtocol | ReadStale

record live_account_state_audit =
  as_observed_at :: offset_date_time
  as_closed_only :: bool
  as_geoblocked :: bool
  as_selected_spender :: string
  as_collateral_balance :: collateral_amount
  as_allowance :: collateral_amount
  as_reconciled_free_collateral :: collateral_amount
  as_schema_version :: u16
  as_parser_version :: u16
  as_evidence :: "raw_http_attempt list"
  as_request_descriptor_hashes :: "string list"
  as_evidence_hashes :: "string list"

datatype live_admission_refusal =
    ModeNotArmed | CredentialVersionChanged | MarketEvidenceStale | MarketEvidenceInvalid | SettlementEvidenceStale
  | MarketAlreadyResolved | SettlementAmbiguous | ArtifactIdentityMismatch | LadderInvalid
  | AccountStateUnavailable live_account_read_failure | AccountIsClosedOnly | Geoblocked
  | InsufficientBalance collateral_amount collateral_amount
  | InsufficientAllowance collateral_amount collateral_amount
  | WorstCaseDebitExceedsFreeCollateral collateral_amount collateral_amount

datatype live_admission_verdict = AdmissionApproved | AdmissionRefused live_admission_refusal

record 'd live_admission_evaluation_audit =
  av_identity :: live_order_identity
  av_frozen_binding :: credential_binding_identity
  av_current_binding :: credential_binding_identity
  av_requested_mode :: live_control_mode
  av_effective_mode :: live_control_mode
  av_economic :: "'d economic_prepared"
  av_account_state :: "live_account_state_audit option"
  av_account_read_failure_evidence :: "raw_http_attempt list"
  av_account_read_failure_request_descriptor_hashes :: "string list"
  av_account_read_failure_evidence_hashes :: "string list"
  av_verdict :: live_admission_verdict

datatype live_order_preparation_failure =
    FailVenue | PreparedAuditMismatch | RecoveryCredentialChanged | RecoveryAdmissionExpired | PrePostRiskDayChanged
  | PrePostRiskPriceExpired | PrePostLadderExpired | PrePostCopyExpired | PrePostScopeDropped | PrePostAdmissionExpired
  | PrePostMarkUnavailable | PrePostNotArmed | PrePostControlUnavailable

definition terminal_reason :: "live_order_preparation_failure \<Rightarrow> bool \<Rightarrow> string" where
  "terminal_reason f has_control =
     (case f of
        RecoveryCredentialChanged \<Rightarrow> ''recovery_credential_changed''
      | RecoveryAdmissionExpired \<Rightarrow>
          if has_control then ''recovery_account_not_armed'' else ''recovery_admission_expired''
      | PrePostRiskDayChanged \<Rightarrow> ''recovery_risk_evidence_expired''
      | PrePostRiskPriceExpired \<Rightarrow> ''recovery_risk_evidence_expired''
      | PrePostLadderExpired \<Rightarrow> ''recovery_ladder_expired''
      | PrePostCopyExpired \<Rightarrow> ''copy_expired_before_post''
      | PrePostScopeDropped \<Rightarrow> ''scope_dropped_before_post''
      | PrePostNotArmed \<Rightarrow> ''not_armed''
      | PrePostControlUnavailable \<Rightarrow> ''control_unavailable''
      | FailVenue \<Rightarrow> ''rejected'' | PreparedAuditMismatch \<Rightarrow> ''rejected''
      | PrePostAdmissionExpired \<Rightarrow> ''rejected'' | PrePostMarkUnavailable \<Rightarrow> ''rejected'')"

subsection \<open>Control observations\<close>

datatype live_control_availability = ControlFresh | ControlFailedRead | ControlStale

record live_control_observation =
  co_decided_at_unix :: i64
  co_last_successful_read_unix :: "i64 option"
  co_stale_after_secs :: i64
  co_availability :: live_control_availability
  co_account_present :: bool
  co_requested_mode :: "live_control_mode option"
  co_effective_mode :: "live_control_mode option"
  co_credential_version_available :: bool
  co_bundle_version :: "i64 option"

definition checked_sub_i64 :: "i64 \<Rightarrow> i64 \<Rightarrow> i64 option" where
  "checked_sub_i64 a b = (if - (2 ^ 63) \<le> a - b \<and> a - b < 2 ^ 63 then Some (a - b) else None)"

definition control_fresh_time :: "live_control_observation \<Rightarrow> bool" where
  "control_fresh_time c =
     (case Option.bind (co_last_successful_read_unix c) (checked_sub_i64 (co_decided_at_unix c)) of
        None \<Rightarrow> False
      | Some age \<Rightarrow> 0 \<le> age \<and> age < co_stale_after_secs c)"

definition control_valid_shape :: "live_control_observation \<Rightarrow> bool" where
  "control_valid_shape c =
     (if co_stale_after_secs c \<le> 0
         \<or> co_account_present c \<noteq> (co_requested_mode c \<noteq> None)
         \<or> co_account_present c \<noteq> (co_effective_mode c \<noteq> None)
         \<or> \<not> co_account_present c \<and> (co_bundle_version c \<noteq> None \<or> co_credential_version_available c)
         \<or> \<not> co_credential_version_available c \<and> co_bundle_version c \<noteq> None
      then False
      else case co_availability c of
        ControlFresh \<Rightarrow> control_fresh_time c
      | ControlFailedRead \<Rightarrow> control_fresh_time c
      | ControlStale \<Rightarrow> \<not> control_fresh_time c)"

definition permits_mode :: "live_control_observation \<Rightarrow> bool" where
  "permits_mode c \<longleftrightarrow>
     control_valid_shape c \<and> co_availability c = ControlFresh \<and>
     co_requested_mode c = Some LiveTiny \<and> co_effective_mode c = Some LiveTiny"

definition not_armed :: "live_control_observation \<Rightarrow> bool" where
  "not_armed c \<longleftrightarrow> control_valid_shape c \<and> co_availability c = ControlFresh \<and> \<not> permits_mode c"

definition control_unavailable :: "live_control_observation \<Rightarrow> bool" where
  "control_unavailable c \<longleftrightarrow> control_valid_shape c \<and> co_availability c \<noteq> ControlFresh"

record live_staged_target_control_audit =
  st_account_id :: account_id
  st_exec_rank :: u64
  st_is_primary :: bool
  st_execution_order :: i64
  st_control :: live_control_observation
  st_observed_credential_key_id :: string
  st_frozen_binding :: credential_binding_identity

record live_staged_dispatch_control_audit =
  sg_dispatch_id :: string
  sg_targets :: "live_staged_target_control_audit list"

text \<open>The order of the tuples \<open>(!is_primary, execution_order, account_id)\<close>.\<close>

definition staged_before :: "live_staged_target_control_audit \<Rightarrow> live_staged_target_control_audit \<Rightarrow> bool" where
  "staged_before l r \<longleftrightarrow>
     (st_is_primary l \<and> \<not> st_is_primary r) \<or>
     (st_is_primary l = st_is_primary r \<and>
       (st_execution_order l < st_execution_order r \<or>
        (st_execution_order l = st_execution_order r \<and> st_account_id l < st_account_id r)))"

definition staged_target_ok :: "nat \<Rightarrow> live_staged_target_control_audit \<Rightarrow> bool" where
  "staged_target_ok rank t \<longleftrightarrow>
     rank < 2 ^ 64 \<and> unat (st_exec_rank t) = rank \<and> permits_mode (st_control t) \<and>
     co_credential_version_available (st_control t) \<and>
     co_bundle_version (st_control t) = Some (cb_version (st_frozen_binding t)) \<and>
     st_observed_credential_key_id t = cb_key_id (st_frozen_binding t)"

definition staged_dispatch_valid :: "live_staged_dispatch_control_audit \<Rightarrow> bool" where
  "staged_dispatch_valid s \<longleftrightarrow>
     sg_dispatch_id s \<noteq> [] \<and> sg_targets s \<noteq> [] \<and>
     list_all (\<lambda>(rank, t). staged_target_ok rank t) (List.enumerate 0 (sg_targets s)) \<and>
     list_all (\<lambda>(l, r). staged_before l r) (zip (sg_targets s) (tl (sg_targets s)))"

datatype live_target_control_outcome = ControlPause | ControlNotArmed

record live_target_control_audit =
  tc_dispatch_id :: string
  tc_account_id :: account_id
  tc_exec_rank :: u64
  tc_control :: live_control_observation
  tc_outcome :: live_target_control_outcome

definition target_control_valid :: "live_target_control_audit \<Rightarrow> bool" where
  "target_control_valid t \<longleftrightarrow>
     tc_dispatch_id t \<noteq> [] \<and>
     (case tc_outcome t of
        ControlPause \<Rightarrow> control_unavailable (tc_control t)
      | ControlNotArmed \<Rightarrow> not_armed (tc_control t))"

subsection \<open>Order facts\<close>

record live_order_preparation_failed_audit =
  pf_identity :: live_order_identity
  pf_failure :: live_order_preparation_failure
  pf_control :: "live_control_observation option"

record 'd live_order_prepared_audit =
  op_identity :: live_order_identity
  op_frozen_binding :: credential_binding_identity
  op_economic :: "'d economic_prepared"
  op_account_state :: live_account_state_audit
  op_prepared :: "'d prepared_polymarket_buy"

record live_order_post_audit =
  po_identity :: live_order_identity
  po_order_hash :: string
  po_evidence :: raw_http_attempt
  po_evidence_hash :: string

datatype live_order_reject_kind = VenueRejected | InvalidResponse | PreparationRejected

datatype live_order_ambiguity_kind =
  AmbTransport | AmbTimeout | AmbUnexpectedResponse | AmbReconciliationUnavailable | AmbReconciliationPending

record 'd live_executed_amounts =
  ea_making_amount :: 'd
  ea_taking_amount :: 'd

datatype 'd live_journal_order_outcome =
    OutcomeMatched string "string list" "'d live_executed_amounts option"
  | OutcomeKilled "string option"
  | OutcomeRejected "string option" live_order_reject_kind
  | OutcomeAmbiguous live_order_ambiguity_kind
  | FinalityPending string
  | FinalityConflict string

datatype live_reconciliation_source = PostResponse | OrderHashLookupAndCancel | PolygonFinality

record 'd live_order_reconciliation_audit =
  rc_identity :: live_order_identity
  rc_order_hash :: string
  rc_source :: live_reconciliation_source
  rc_outcome :: "'d live_journal_order_outcome"
  rc_evidence :: "raw_http_attempt list"
  rc_evidence_hashes :: "string list"

subsection \<open>Redemptions, modes, fills and marks\<close>

record redemption_attempt_identity =
  ri_account_id :: account_id
  ri_condition_id :: polymarket_condition_id
  ri_adapter :: string
  ri_custody_wallet :: string

datatype redemption_custody_audit = AuditDepositWallet | AuditProxy | AuditSafe | AuditEoa

record redemption_request_audit =
  rr_call_to :: string
  rr_calldata :: bytes
  rr_condition_id :: polymarket_condition_id
  rr_neg_risk :: bool
  rr_custody :: redemption_custody_audit
  rr_signer_address :: string
  rr_custody_wallet :: string
  rr_deadline_unix :: "u64 option"
  rr_metadata_hash :: string
  rr_request_hash :: string
  rr_schema_version :: u16
  rr_parser_version :: u16
  rr_adapter_version :: string

datatype redemption_receipt_status_audit = ReceiptPending | ReceiptConfirmed | ReceiptTerminalFailure | ReceiptAmbiguous

record redemption_requested_audit =
  rq_identity :: redemption_attempt_identity
  rq_attempt_count :: u32
  rq_redeemable_balance :: collateral_amount
  rq_request :: redemption_request_audit

record redemption_transaction_audit =
  rt_identity :: redemption_attempt_identity
  rt_attempt_count :: u32
  rt_transaction_id :: string
  rt_submit_body_hash :: string
  rt_evidence :: "raw_http_attempt list"
  rt_evidence_hashes :: "string list"

record redemption_receipt_audit =
  rp_identity :: redemption_attempt_identity
  rp_attempt_count :: u32
  rp_transaction_id :: string
  rp_transaction_hash :: "string option"
  rp_status :: redemption_receipt_status_audit
  rp_evidence :: "raw_http_attempt list"
  rp_evidence_hashes :: "string list"

datatype live_mode_transition_reason =
  ReasonArmed | OperatorKill | CredentialInvalidated | PromotionInvalidated | ReasonAccountClosedOnly

record live_mode_transition_audit =
  mt_requested :: live_control_mode
  mt_previous_effective :: live_control_mode
  mt_new_effective :: live_control_mode
  mt_reason :: live_mode_transition_reason

record matched_log_identity =
  ml_transaction_hash :: string
  ml_log_index :: u64

record order_fill_finalized_audit =
  ff_identity :: live_order_identity
  ff_prepared_journal_seq :: u64
  ff_principal :: collateral_amount
  ff_quantity :: share_amount
  ff_fee :: collateral_amount
  ff_matched_logs :: "matched_log_identity list"
  ff_chain_id :: u64
  ff_finalized_head :: u64
  ff_receipts :: "raw_http_attempt list"
  ff_blocks :: "raw_http_attempt list"

record resolution_finalized_audit =
  rf_condition_id :: polymarket_condition_id
  rf_payout_by_outcome_index_json :: string
  rf_source_append_receipt :: append_receipt

record canonical_position_audit =
  cp_condition_id :: polymarket_condition_id
  cp_outcome_index :: u8
  cp_token_id :: polymarket_token_id
  cp_size :: share_amount
  cp_redeemable :: bool

record live_position_page_audit =
  pp_request_identity :: string
  pp_receipt :: append_receipt

record live_position_evidence_audit =
  pe_requested_wallet :: string
  pe_pages :: "live_position_page_audit list"

record redemption_custody_reconciled_audit =
  cr_identity :: redemption_attempt_identity
  cr_account_state :: live_account_state_audit
  cr_venue_positions :: "canonical_position_audit list"
  cr_venue_position_receipts :: "append_receipt list"

datatype mark_kind = MarkBaseline | MarkDaily

record 'd mark_price =
  mp_condition_id :: polymarket_condition_id
  mp_outcome_index :: u8
  mp_price :: 'd
  mp_receipt :: append_receipt
  mp_observed_unix :: i64

record 'd account_portfolio_marked_audit =
  pm_kind :: mark_kind
  pm_cutoff_unix :: i64
  pm_account_binding :: live_account_binding_audit
  pm_account_state :: live_account_state_audit
  pm_venue_positions :: "canonical_position_audit list"
  pm_venue_position_evidence :: live_position_evidence_audit
  pm_marked_positions :: "canonical_position_audit list"
  pm_prices :: "'d mark_price list"
  pm_equity :: collateral_amount

record collateral_credited_audit =
  cc_account_binding :: live_account_binding_audit
  cc_account_state :: live_account_state_audit
  cc_venue_positions :: "canonical_position_audit list"
  cc_venue_position_evidence :: live_position_evidence_audit
  cc_credited :: collateral_amount

subsection \<open>Events\<close>

datatype ('d, 'j) live_journal_payload =
    StagedDispatchControl live_staged_dispatch_control_audit
  | PendingTargetControl live_target_control_audit
  | ApprovedRecoveryControlPause live_target_control_audit
  | AdmissionEvaluated "'d live_admission_evaluation_audit"
  | OrderPreparationFailed live_order_preparation_failed_audit
  | OrderPrepared "'d live_order_prepared_audit"
  | OrderPosted live_order_post_audit
  | OrderReconciled "'d live_order_reconciliation_audit"
  | RedemptionRequested redemption_requested_audit
  | RedemptionTransactionIdentified redemption_transaction_audit
  | RedemptionReceiptTransition redemption_receipt_audit
  | OrderFillFinalized order_fill_finalized_audit
  | ResolutionFinalized resolution_finalized_audit
  | RedemptionCustodyReconciled redemption_custody_reconciled_audit
  | AccountPortfolioMarked "'d account_portfolio_marked_audit"
  | CollateralCredited collateral_credited_audit
  | CredentialBindingMismatch credential_binding_identity credential_binding_identity
  | ModeTransitionApplied live_mode_transition_audit
  | LegacyV1 'j

record ('d, 'j) live_journal_event =
  je_account_id :: account_id
  je_seq :: u64
  je_timestamp :: offset_date_time
  je_payload :: "('d, 'j) live_journal_payload"

record live_journal_tail =
  jt_last_sequence :: "event_seq option"
  jt_last_hash :: blake3_hash
  jt_scanned_prefix_last_sequence :: "event_seq option"
  jt_scanned_prefix_last_hash :: blake3_hash

datatype live_journal_error =
    InvalidControlEvidence | InsecurePermissions | JournalIo io_error | JournalEventLog log_error
  | JournalEncoding string | UnexpectedEnvelope | JournalSequenceMismatch | OrderFactConflict | RequestBinding
  | InvalidFinalityEvidence | JournalMutexPoisoned | Unpublished

subsection \<open>Schema one (module legacy_v1)\<close>

record v1_account_state_audit =
  v1s_observed_at :: offset_date_time
  v1s_closed_only :: bool
  v1s_geoblocked :: bool
  v1s_selected_spender :: string
  v1s_collateral_balance :: collateral_amount
  v1s_allowance :: collateral_amount
  v1s_reconciled_free_collateral :: collateral_amount
  v1s_schema_version :: u16
  v1s_parser_version :: u16
  v1s_evidence :: "raw_http_attempt list"
  v1s_evidence_hashes :: "string list"

record 'j v1_fee_evidence_audit =
  v1f_gamma_fees_enabled :: "'j option"
  v1f_gamma_fee_schedule :: "'j option"
  v1f_gamma_maker_base_fee_bps :: "'j option"
  v1f_gamma_taker_base_fee_bps :: "'j option"
  v1f_clob_maker_base_fee_bps :: "'j option"
  v1f_clob_taker_base_fee_bps :: "'j option"

record ('d, 'j) v1_market_evidence_audit =
  v1m_condition_id :: polymarket_condition_id
  v1m_ordered_outcome_token_ids :: "polymarket_token_id \<times> polymarket_token_id"
  v1m_neg_risk :: bool
  v1m_minimum_tick_size :: 'd
  v1m_minimum_order_size :: share_amount
  v1m_fee_evidence :: "'j v1_fee_evidence_audit"
  v1m_raw_gamma_market_hash :: string
  v1m_raw_clob_market_hash :: string
  v1m_observed_at_unix :: i64
  v1m_schema_version :: u32
  v1m_parser_version :: u32
  v1m_freshness_window_secs :: u64

record ('d, 'j) v1_admission_artifact_audit =
  v1a_market :: "('d, 'j) v1_market_evidence_audit"
  v1a_settlement :: venue_settlement_record
  v1a_artifact_bundle_hash :: string

record 'd v1_ladder_plan_audit =
  v1l_used_asks :: "'d ladder_ask_audit list"
  v1l_best_ask :: 'd
  v1l_limit_price :: 'd
  v1l_shares :: share_amount
  v1l_estimated_ladder_spend :: collateral_amount
  v1l_worst_case_debit :: collateral_amount
  v1l_plan_hash :: string

record ('d, 'j) v1_admission_evaluation_audit =
  v1e_identity :: live_order_identity
  v1e_frozen_binding :: credential_binding_identity
  v1e_current_binding :: credential_binding_identity
  v1e_requested_mode :: live_control_mode
  v1e_effective_mode :: live_control_mode
  v1e_artifact :: "('d, 'j) v1_admission_artifact_audit"
  v1e_ladder :: "'d v1_ladder_plan_audit"
  v1e_account_state :: "v1_account_state_audit option"
  v1e_account_read_failure_evidence :: "raw_http_attempt list"
  v1e_account_read_failure_evidence_hashes :: "string list"
  v1e_verdict :: live_admission_verdict

record ('d, 'j) v1_order_prepared_audit =
  v1p_identity :: live_order_identity
  v1p_frozen_binding :: credential_binding_identity
  v1p_admission :: "('d, 'j) v1_admission_artifact_audit"
  v1p_account_state :: v1_account_state_audit
  v1p_ladder :: "'d v1_ladder_plan_audit"
  v1p_prepared :: "'d prepared_polymarket_buy"
  v1p_prepared_audit_hash :: string

datatype ('d, 'j) v1_payload =
    V1AdmissionEvaluated "('d, 'j) v1_admission_evaluation_audit"
  | V1OrderPreparationFailed live_order_preparation_failed_audit
  | V1OrderPrepared "('d, 'j) v1_order_prepared_audit"
  | V1OrderPosted live_order_post_audit
  | V1OrderReconciled "'d live_order_reconciliation_audit"
  | V1RedemptionRequested redemption_requested_audit
  | V1RedemptionTransactionIdentified redemption_transaction_audit
  | V1RedemptionReceiptTransition redemption_receipt_audit
  | V1CredentialBindingMismatch credential_binding_identity credential_binding_identity
  | V1ModeTransitionApplied live_mode_transition_audit

record ('d, 'j) v1_journal_event =
  v1_account_id :: account_id
  v1_seq :: u64
  v1_timestamp :: offset_date_time
  v1_payload :: "('d, 'j) v1_payload"

text \<open>\<open>prepared_order\<close> reads the event back from the raw value; \<open>from_value\<close> is \<open>serde_json::from_value\<close>.\<close>

definition v1_prepared_order ::
    "('j \<Rightarrow> string + ('d, 'j) v1_journal_event) \<Rightarrow> 'j \<Rightarrow> string + (live_order_identity \<times> string) option" where
  "v1_prepared_order from_value raw =
     rbind (from_value raw) (\<lambda>e. Inr (case v1_payload e of
         V1OrderPrepared p \<Rightarrow> Some (v1p_identity p, pb_order_hash (v1p_prepared p))
       | _ \<Rightarrow> None))"

fun v1_convert_payload :: "'j \<Rightarrow> ('d, 'j) v1_payload \<Rightarrow> ('d, 'j) live_journal_payload" where
  "v1_convert_payload raw (V1AdmissionEvaluated _) = LegacyV1 raw"
| "v1_convert_payload raw (V1OrderPrepared _) = LegacyV1 raw"
| "v1_convert_payload raw (V1OrderPreparationFailed v) = OrderPreparationFailed v"
| "v1_convert_payload raw (V1OrderPosted v) = OrderPosted v"
| "v1_convert_payload raw (V1OrderReconciled v) = OrderReconciled v"
| "v1_convert_payload raw (V1RedemptionRequested v) = RedemptionRequested v"
| "v1_convert_payload raw (V1RedemptionTransactionIdentified v) = RedemptionTransactionIdentified v"
| "v1_convert_payload raw (V1RedemptionReceiptTransition v) = RedemptionReceiptTransition v"
| "v1_convert_payload raw (V1CredentialBindingMismatch frozen current) = CredentialBindingMismatch frozen current"
| "v1_convert_payload raw (V1ModeTransitionApplied v) = ModeTransitionApplied v"

definition v1_convert :: "('d, 'j) v1_journal_event \<Rightarrow> 'j \<Rightarrow> ('d, 'j) live_journal_event" where
  "v1_convert e raw =
     \<lparr>je_account_id = v1_account_id e, je_seq = v1_seq e, je_timestamp = v1_timestamp e,
      je_payload = v1_convert_payload raw (v1_payload e)\<rparr>"

end
