(* ===== verification/Live_Journal.thy ===== *)
theory Live_Journal
  imports Live_Types Event_Writer
begin

section \<open>The live journal (crates/execution-core/src/live_journal.rs)\<close>

text \<open>
  The account-tagged journal over one event log: the decoder of a record, the validity of control
  records, the journal with its cached records and indexes, and the replays of the file. \<open>serde_json\<close> and
  \<open>OffsetDateTime::unix_timestamp\<close> are the fields of a \<open>live_codec\<close>; the answers of the file system are
  arguments. The records vector is a list, its index the sequence number, and a \<open>HashMap\<close> is a map. The
  mutex is never poisoned in the model, since no operation panics while it is held.
\<close>

subsection \<open>Decoding a record\<close>

definition LIVE_JOURNAL_SOURCE :: string where "LIVE_JOURNAL_SOURCE = ''ordinary-live-execution''"
definition LIVE_JOURNAL_SCHEMA_VERSION :: u32 where "LIVE_JOURNAL_SCHEMA_VERSION = 2"
definition LIVE_JOURNAL_PARSER_VERSION :: u32 where "LIVE_JOURNAL_PARSER_VERSION = 1"

record ('d, 'j) live_codec =
  lc_to_vec :: "('d, 'j) live_journal_event \<Rightarrow> string + bytes"
  lc_from_slice :: "bytes \<Rightarrow> string + ('d, 'j) live_journal_event"
  lc_value_from_slice :: "bytes \<Rightarrow> string + 'j"
  lc_v1_from_slice :: "bytes \<Rightarrow> string + ('d, 'j) v1_journal_event"
  lc_v1_from_value :: "'j \<Rightarrow> string + ('d, 'j) v1_journal_event"
  lc_attempt_json :: "string \<times> raw_http_attempt \<Rightarrow> string + bytes"
  lc_descriptor_json :: "string \<times> sanitized_http_request_descriptor \<Rightarrow> string + bytes"
  lc_unix_timestamp :: "offset_date_time \<Rightarrow> i64"

definition control_decided_at :: "('d, 'j) live_codec \<Rightarrow> ('d, 'j) live_journal_event \<Rightarrow> live_control_observation \<Rightarrow> bool" where
  "control_decided_at L ev c \<longleftrightarrow> co_decided_at_unix c = lc_unix_timestamp L (je_timestamp ev)"

definition staged_control_ok :: "('d, 'j) live_codec \<Rightarrow> ('d, 'j) live_journal_event \<Rightarrow> live_staged_dispatch_control_audit \<Rightarrow> bool" where
  "staged_control_ok L ev s \<longleftrightarrow>
     staged_dispatch_valid s \<and>
     (case sg_targets s of [] \<Rightarrow> False | first # _ \<Rightarrow> st_account_id first = je_account_id ev) \<and>
     list_all (\<lambda>t. control_decided_at L ev (st_control t)) (sg_targets s)"

definition target_control_ok :: "('d, 'j) live_codec \<Rightarrow> ('d, 'j) live_journal_event \<Rightarrow> live_target_control_audit \<Rightarrow> bool" where
  "target_control_ok L ev t \<longleftrightarrow>
     target_control_valid t \<and> tc_account_id t = je_account_id ev \<and> control_decided_at L ev (tc_control t)"

definition preparation_failed_ok ::
    "('d, 'j) live_codec \<Rightarrow> ('d, 'j) live_journal_event \<Rightarrow> live_order_preparation_failed_audit \<Rightarrow> bool" where
  "preparation_failed_ok L ev f \<longleftrightarrow>
     (let some = (\<lambda>p. case pf_control f of None \<Rightarrow> False | Some c \<Rightarrow> p c) in
      if pf_failure f = PrePostNotArmed then some not_armed
      else if pf_failure f = PrePostControlUnavailable then some control_unavailable
      else if pf_failure f = RecoveryAdmissionExpired \<and> pf_control f \<noteq> None then some not_armed
      else pf_control f = None) \<and>
     (case pf_control f of None \<Rightarrow> True | Some c \<Rightarrow> control_decided_at L ev c)"

definition control_event_ok :: "('d, 'j) live_codec \<Rightarrow> ('d, 'j) live_journal_event \<Rightarrow> bool" where
  "control_event_ok L ev =
     (case je_payload ev of
        StagedDispatchControl s \<Rightarrow> staged_control_ok L ev s
      | PendingTargetControl t \<Rightarrow> target_control_ok L ev t
      | ApprovedRecoveryControlPause t \<Rightarrow> target_control_ok L ev t \<and> tc_outcome t = ControlPause
      | OrderPreparationFailed f \<Rightarrow> preparation_failed_ok L ev f
      | _ \<Rightarrow> True)"

definition validate_control_event :: "('d, 'j) live_codec \<Rightarrow> ('d, 'j) live_journal_event \<Rightarrow> live_journal_error + unit" where
  "validate_control_event L ev = (if control_event_ok L ev then Inr () else Inl InvalidControlEvidence)"

definition decode_event :: "('d, 'j) live_codec \<Rightarrow> event_envelope \<Rightarrow> live_journal_error + ('d, 'j) live_journal_event" where
  "decode_event L envelope =
     map_err JournalEncoding
       (if ev_schema_version envelope = 1
        then rbind (lc_value_from_slice L (ev_payload envelope)) (\<lambda>raw.
             rbind (lc_v1_from_slice L (ev_payload envelope)) (\<lambda>legacy. Inr (v1_convert legacy raw)))
        else lc_from_slice L (ev_payload envelope))"

definition decode_record ::
    "('d, 'j) live_codec \<Rightarrow> event_envelope \<Rightarrow> nat \<Rightarrow> live_journal_error + ('d, 'j) live_journal_event" where
  "decode_record L envelope expected =
     (if ev_source_id envelope \<noteq> LIVE_JOURNAL_SOURCE
         \<or> \<not> (ev_schema_version envelope = 1 \<or> ev_schema_version envelope = LIVE_JOURNAL_SCHEMA_VERSION)
         \<or> ev_parser_version envelope \<noteq> LIVE_JOURNAL_PARSER_VERSION
         \<or> ev_content_type envelope \<noteq> ContentJson
      then Inl UnexpectedEnvelope
      else
        rbind (decode_event L envelope) (\<lambda>ev.
          if \<not> expected < 2 ^ 64 \<or> unat (ev_seq envelope) \<noteq> expected \<or> unat (je_seq ev) \<noteq> expected
             \<or> je_timestamp ev \<noteq> ev_observed_at envelope
          then Inl JournalSequenceMismatch
          else rbind (validate_control_event L ev) (\<lambda>_. Inr ev)))"

subsection \<open>The journal\<close>

record ('d, 'j) live_journal =
  lj_path :: log_path
  lj_writer :: log_writer
  lj_last_hash :: blake3_hash
  lj_records :: "('d, 'j) live_journal_event list"
  lj_pending_controls :: "account_id \<times> string \<Rightarrow> nat list option"
  lj_approved_pauses :: "account_id \<times> string \<Rightarrow> nat list option"
  lj_unpublished :: bool

definition entry_push :: "'k \<Rightarrow> 'v \<Rightarrow> ('k \<Rightarrow> 'v list option) \<Rightarrow> 'k \<Rightarrow> 'v list option" where
  "entry_push k v m = m(k \<mapsto> (case m k of None \<Rightarrow> [] | Some vs \<Rightarrow> vs) @ [v])"

definition journal_publish :: "('d, 'j) live_journal_event \<Rightarrow> ('d, 'j) live_journal \<Rightarrow> ('d, 'j) live_journal" where
  "journal_publish rec j =
     (let index = length (lj_records j);
          j1 = (case je_payload rec of
                  PendingTargetControl audit \<Rightarrow>
                    j\<lparr>lj_pending_controls := entry_push (je_account_id rec, tc_dispatch_id audit) index (lj_pending_controls j)\<rparr>
                | ApprovedRecoveryControlPause audit \<Rightarrow>
                    j\<lparr>lj_approved_pauses := entry_push (je_account_id rec, tc_dispatch_id audit) index (lj_approved_pauses j)\<rparr>
                | _ \<Rightarrow> j) in
      j1\<lparr>lj_records := lj_records j @ [rec]\<rparr>)"

definition control_audit_of :: "('d, 'j) live_journal_event \<Rightarrow> live_target_control_audit option" where
  "control_audit_of rec =
     (case je_payload rec of
        PendingTargetControl audit \<Rightarrow> Some audit
      | ApprovedRecoveryControlPause audit \<Rightarrow> Some audit
      | _ \<Rightarrow> None)"

definition control_audits :: "('d, 'j) live_journal \<Rightarrow> nat list option \<Rightarrow> live_target_control_audit list" where
  "control_audits j index =
     List.map_filter (\<lambda>i. if i < length (lj_records j) then control_audit_of (lj_records j ! i) else None)
       (case index of None \<Rightarrow> [] | Some is \<Rightarrow> is)"

text \<open>
  The metadata of the path: a symbolic link or not, and the permission bits. A missing file is created
  empty with mode 0600; \<open>created\<close> is the answer to that.
\<close>

definition check_journal_path ::
    "io_error + bool \<times> u32 \<Rightarrow> io_error option \<Rightarrow> live_journal_error + unit" where
  "check_journal_path metadata created =
     (case metadata of
        Inr (is_symlink, mode) \<Rightarrow>
          if is_symlink \<or> take_bit 9 mode \<noteq> 384 then Inl InsecurePermissions else Inr ()
      | Inl e \<Rightarrow>
          if io_kind e = NotFound then (case created of None \<Rightarrow> Inr () | Some e' \<Rightarrow> Inl (JournalIo e'))
          else Inl (JournalIo e))"

definition decode_observed ::
    "('d, 'j) live_codec \<Rightarrow> event_envelope list \<Rightarrow> live_journal_error + ('d, 'j) live_journal_event list" where
  "decode_observed L envelopes =
     try_fold (\<lambda>records envelope. rbind (decode_record L envelope (length records)) (\<lambda>ev. Inr (records @ [ev]))) [] envelopes"

definition journal_open ::
    "codec \<Rightarrow> ('d, 'j) live_codec \<Rightarrow> os_calls \<Rightarrow> io_error + bool \<times> u32 \<Rightarrow> io_error option \<Rightarrow> log_file
       \<Rightarrow> (live_journal_error + ('d, 'j) live_journal) \<times> bytes" where
  "journal_open C L os metadata created F =
     (case check_journal_path metadata created of
        Inl e \<Rightarrow> (Inl e, lf_data F)
      | Inr _ \<Rightarrow>
          (let (opened, seen, data) = open_verified C os F None in
           (rbind (map_err JournalEventLog opened) (\<lambda>(writer, binding).
            rbind (decode_observed L (map snd seen)) (\<lambda>records.
              Inr (fold journal_publish records
                     \<lparr>lj_path = lf_path F, lj_writer = writer, lj_last_hash = tb_last_hash binding, lj_records = [],
                      lj_pending_controls = Map.empty, lj_approved_pauses = Map.empty, lj_unpublished = False\<rparr>))), data)))"

definition published_guard :: "('d, 'j) live_journal \<Rightarrow> live_journal_error + unit" where
  "published_guard j =
     (case wr_poison_reason (lj_writer j) of
        Some reason \<Rightarrow> Inl (JournalEventLog (LogPoisoned reason))
      | None \<Rightarrow> if lj_unpublished j then Inl Unpublished else Inr ())"

definition records_from :: "('d, 'j) live_journal \<Rightarrow> u64 \<Rightarrow> live_journal_error + ('d, 'j) live_journal_event list" where
  "records_from j start =
     rbind (published_guard j) (\<lambda>_. Inr (drop (min (unat start) (length (lj_records j))) (lj_records j)))"

definition staged_dispatch_control ::
    "('d, 'j) live_journal \<Rightarrow> u64 \<Rightarrow> string \<Rightarrow> live_journal_error + live_staged_dispatch_control_audit option" where
  "staged_dispatch_control j sq dispatch_id =
     rbind (published_guard j) (\<lambda>_. Inr
       (if unat sq < length (lj_records j)
        then (case je_payload (lj_records j ! unat sq) of
                StagedDispatchControl audit \<Rightarrow> if sg_dispatch_id audit = dispatch_id then Some audit else None
              | _ \<Rightarrow> None)
        else None))"

definition pending_target_controls ::
    "('d, 'j) live_journal \<Rightarrow> account_id \<Rightarrow> string \<Rightarrow> live_journal_error + live_target_control_audit list" where
  "pending_target_controls j account dispatch_id =
     rbind (published_guard j) (\<lambda>_. Inr (control_audits j (lj_pending_controls j (account, dispatch_id))))"

definition last_approved_recovery_pause ::
    "('d, 'j) live_journal \<Rightarrow> account_id \<Rightarrow> string \<Rightarrow> live_journal_error + live_target_control_audit option" where
  "last_approved_recovery_pause j account dispatch_id =
     rbind (published_guard j) (\<lambda>_. Inr
       (let audits = control_audits j (lj_approved_pauses j (account, dispatch_id)) in
        if audits = [] then None else Some (last audits)))"

definition journal_poisoned :: "('d, 'j) live_journal \<Rightarrow> live_journal_error + poison_reason option" where
  "journal_poisoned j =
     (case wr_poison_reason (lj_writer j) of
        Some reason \<Rightarrow> Inr (Some reason)
      | None \<Rightarrow> if lj_unpublished j then Inl Unpublished else Inr None)"

definition journal_envelope_in :: "offset_date_time \<Rightarrow> bytes \<Rightarrow> envelope_in" where
  "journal_envelope_in timestamp payload =
     \<lparr>ei_source_id = LIVE_JOURNAL_SOURCE, ei_schema_version = LIVE_JOURNAL_SCHEMA_VERSION,
      ei_parser_version = LIVE_JOURNAL_PARSER_VERSION, ei_observed_at = timestamp, ei_received_at = timestamp,
      ei_content_type = ContentJson, ei_payload = payload\<rparr>"

definition written_envelope :: "codec \<Rightarrow> append_receipt \<Rightarrow> blake3_hash \<Rightarrow> offset_date_time \<Rightarrow> bytes \<Rightarrow> event_envelope" where
  "written_envelope C receipt prev timestamp payload =
     \<lparr>ev_seq = ar_sequence receipt, ev_source_id = LIVE_JOURNAL_SOURCE,
      ev_schema_version = LIVE_JOURNAL_SCHEMA_VERSION, ev_parser_version = LIVE_JOURNAL_PARSER_VERSION,
      ev_observed_at = timestamp, ev_received_at = timestamp, ev_content_type = ContentJson,
      ev_raw_payload_hash = cd_blake3 C payload, ev_prev_hash = prev, ev_this_hash = ar_this_hash receipt,
      ev_payload = payload\<rparr>"

definition journal_append ::
    "codec \<Rightarrow> ('d, 'j) live_codec \<Rightarrow> io_error option \<Rightarrow> io_error option \<Rightarrow> account_id \<Rightarrow> offset_date_time
       \<Rightarrow> ('d, 'j) live_journal_payload \<Rightarrow> ('d, 'j) live_journal
       \<Rightarrow> (live_journal_error + ('d, 'j) live_journal_event) \<times> ('d, 'j) live_journal" where
  "journal_append C L flushed synced account timestamp payload j =
     (case published_guard j of
        Inl e \<Rightarrow> (Inl e, j)
      | Inr _ \<Rightarrow>
          if \<not> length (lj_records j) < 2 ^ 64 then (Inl JournalSequenceMismatch, j)
          else
            (let ev = \<lparr>je_account_id = account, je_seq = word_of_nat (length (lj_records j)), je_timestamp = timestamp,
                       je_payload = payload\<rparr> in
             case lc_to_vec L ev of
               Inl e \<Rightarrow> (Inl (JournalEncoding e), j)
             | Inr bs \<Rightarrow>
                 (let (res, writer) = append_synced C flushed synced (journal_envelope_in timestamp bs) (lj_writer j);
                      j1 = j\<lparr>lj_unpublished := True, lj_writer := writer\<rparr> in
                  case res of
                    Inl e \<Rightarrow> (Inl (JournalEventLog e), j1)
                  | Inr receipt \<Rightarrow>
                      (case decode_record L (written_envelope C receipt (lj_last_hash j) timestamp bs)
                              (length (lj_records j)) of
                         Inl e \<Rightarrow> (Inl e, j1)
                       | Inr decoded \<Rightarrow>
                           (Inr decoded,
                            (journal_publish decoded (j1\<lparr>lj_last_hash := ar_this_hash receipt\<rparr>))\<lparr>lj_unpublished := False\<rparr>)))))"

subsection \<open>Replaying the file\<close>

lemma replay_moves_forward:
  assumes "replay_next C it = (Some (Inr x), it')"
  shows "length (rd_data (ri_reader it')) - rd_pos (ri_reader it') < length (rd_data (ri_reader it)) - rd_pos (ri_reader it)"
  using assms
  by (auto simp: replay_next_def Let_def split: if_splits sum.splits prod.splits scan_step.splits dest: frame_moves_forward)

function replay_collect ::
    "codec \<Rightarrow> ('d, 'j) live_codec \<Rightarrow> event_seq option \<Rightarrow> replay_iter \<Rightarrow> (('d, 'j) live_journal_event \<times> append_receipt) list
       \<Rightarrow> live_journal_error + (('d, 'j) live_journal_event \<times> append_receipt) list" where
  "replay_collect C L last_sequence it events =
     (case replay_next C it of
        (None, _) \<Rightarrow> Inr events
      | (Some (Inl e), _) \<Rightarrow> Inl (JournalEventLog e)
      | (Some (Inr (_, sq, envelope)), it') \<Rightarrow>
          if (case last_sequence of None \<Rightarrow> False | Some l \<Rightarrow> l < sq) then Inr events
          else if sq \<noteq> ev_seq envelope then Inl JournalSequenceMismatch
          else
            (case decode_record L envelope (length events) of
               Inl e \<Rightarrow> Inl e
             | Inr ev \<Rightarrow>
                 replay_collect C L last_sequence it'
                   (events @ [(ev, \<lparr>ar_sequence = sq, ar_this_hash = ev_this_hash envelope\<rparr>)])))"
  by pat_completeness auto
termination
  by (relation "measure (\<lambda>(C, L, l, it, events). length (rd_data (ri_reader it)) - rd_pos (ri_reader it))")
    (auto dest: replay_moves_forward [OF sym])

declare replay_collect.simps [simp del]

definition replay_with_receipts ::
    "codec \<Rightarrow> ('d, 'j) live_codec \<Rightarrow> log_file \<Rightarrow> event_seq option
       \<Rightarrow> live_journal_error + (('d, 'j) live_journal_event \<times> append_receipt) list" where
  "replay_with_receipts C L F last_sequence =
     rbind (map_err JournalEventLog (replay_with_offsets C F)) (\<lambda>it.
     rbind (replay_collect C L last_sequence it []) (\<lambda>events.
       if last_sequence \<noteq> None \<and> (if events = [] then None else Some (ar_sequence (snd (last events)))) \<noteq> last_sequence
       then Inl JournalSequenceMismatch else Inr events))"

definition replay_all_with_receipts ::
    "codec \<Rightarrow> ('d, 'j) live_codec \<Rightarrow> log_file \<Rightarrow> live_journal_error + (('d, 'j) live_journal_event \<times> append_receipt) list" where
  "replay_all_with_receipts C L F = replay_with_receipts C L F None"

definition replay_all :: "codec \<Rightarrow> ('d, 'j) live_codec \<Rightarrow> log_file \<Rightarrow> live_journal_error + ('d, 'j) live_journal_event list" where
  "replay_all C L F = map_sum id (map fst) (replay_all_with_receipts C L F)"

definition replay_prefix ::
    "codec \<Rightarrow> ('d, 'j) live_codec \<Rightarrow> log_file \<Rightarrow> event_seq \<Rightarrow> live_journal_error + ('d, 'j) live_journal_event list" where
  "replay_prefix C L F last_sequence = map_sum id (map fst) (replay_with_receipts C L F (Some last_sequence))"

definition replay_account ::
    "codec \<Rightarrow> ('d, 'j) live_codec \<Rightarrow> log_file \<Rightarrow> account_id \<Rightarrow> live_journal_error + ('d, 'j) live_journal_event list" where
  "replay_account C L F account = map_sum id (filter (\<lambda>ev. je_account_id ev = account)) (replay_all C L F)"

definition journal_verified_tail ::
    "codec \<Rightarrow> ('d, 'j) live_codec \<Rightarrow> log_file \<Rightarrow> live_journal_error + log_tail_binding" where
  "journal_verified_tail C L F =
     rbind (replay_all C L F) (\<lambda>events.
     rbind (map_err JournalEventLog (scanner_verify C F)) (\<lambda>binding.
     rbind (case tb_last_sequence binding of
              None \<Rightarrow> Inr 0
            | Some sq \<Rightarrow> ok_or JournalSequenceMismatch (checked_add sq 1)) (\<lambda>actual.
       if length events \<noteq> unat actual then Inl JournalSequenceMismatch else Inr binding)))"

definition staged_dispatch_control_at ::
    "codec \<Rightarrow> ('d, 'j) live_codec \<Rightarrow> log_file \<Rightarrow> u64 \<Rightarrow> string
       \<Rightarrow> live_journal_error + live_staged_dispatch_control_audit option" where
  "staged_dispatch_control_at C L F sq dispatch_id =
     rbind (replay_all C L F) (\<lambda>events. Inr
       (case find (\<lambda>ev. je_seq ev = sq) events of
          None \<Rightarrow> None
        | Some ev \<Rightarrow>
            (case je_payload ev of
               StagedDispatchControl audit \<Rightarrow> if sg_dispatch_id audit = dispatch_id then Some audit else None
             | _ \<Rightarrow> None)))"

definition account_tail ::
    "account_id \<Rightarrow> (('d, 'j) live_journal_event \<times> append_receipt) list \<Rightarrow> event_seq option \<times> blake3_hash" where
  "account_tail account events =
     (case find (\<lambda>(ev, _). je_account_id ev = account) (rev events) of
        None \<Rightarrow> (None, genesis_hash)
      | Some (_, receipt) \<Rightarrow> (Some (ar_sequence receipt), ar_this_hash receipt))"

definition replay_account_with_tail ::
    "codec \<Rightarrow> ('d, 'j) live_codec \<Rightarrow> log_file \<Rightarrow> account_id
       \<Rightarrow> live_journal_error + ('d, 'j) live_journal_event list \<times> live_journal_tail" where
  "replay_account_with_tail C L F account =
     rbind (replay_all_with_receipts C L F) (\<lambda>replayed.
       let scanned = (if replayed = [] then (None, genesis_hash)
                      else (Some (ar_sequence (snd (last replayed))), ar_this_hash (snd (last replayed))));
           tail = fold (\<lambda>(ev, receipt) tail.
                    if je_account_id ev = account then (Some (ar_sequence receipt), ar_this_hash receipt) else tail)
                    replayed (None, genesis_hash) in
       Inr (map fst (filter (\<lambda>(ev, _). je_account_id ev = account) replayed),
            \<lparr>jt_last_sequence = fst tail, jt_last_hash = snd tail, jt_scanned_prefix_last_sequence = fst scanned,
             jt_scanned_prefix_last_hash = snd scanned\<rparr>))"

definition verify_account_tail_checkpoint ::
    "codec \<Rightarrow> ('d, 'j) live_codec \<Rightarrow> log_file \<Rightarrow> account_id \<Rightarrow> live_journal_tail \<Rightarrow> live_journal_error + unit" where
  "verify_account_tail_checkpoint C L F account checkpoint =
     rbind (replay_all_with_receipts C L F) (\<lambda>replayed.
     rbind (case jt_scanned_prefix_last_sequence checkpoint of
              None \<Rightarrow>
                if jt_scanned_prefix_last_hash checkpoint \<noteq> genesis_hash then Inl JournalSequenceMismatch else Inr 0
            | Some last_sequence \<Rightarrow>
                rbind (ok_or JournalSequenceMismatch (checked_add last_sequence 1)) (\<lambda>prefix_len.
                  if \<not> unat prefix_len - 1 < length replayed then Inl JournalSequenceMismatch
                  else
                    let receipt = snd (replayed ! (unat prefix_len - 1)) in
                    if ar_sequence receipt \<noteq> last_sequence \<or> ar_this_hash receipt \<noteq> jt_scanned_prefix_last_hash checkpoint
                    then Inl JournalSequenceMismatch else Inr (unat prefix_len))) (\<lambda>prefix_len.
       if \<not> prefix_len \<le> length replayed then Inl JournalSequenceMismatch
       else if account_tail account (take prefix_len replayed) \<noteq> (jt_last_sequence checkpoint, jt_last_hash checkpoint)
       then Inl JournalSequenceMismatch else Inr ()))"

subsection \<open>Evidence hashes\<close>

definition http_attempt_hash :: "codec \<Rightarrow> ('d, 'j) live_codec \<Rightarrow> raw_http_attempt \<Rightarrow> live_journal_error + string" where
  "http_attempt_hash C L attempt =
     map_sum JournalEncoding (\<lambda>bs. cd_to_hex C (cd_blake3 C bs)) (lc_attempt_json L (''prediction-edge/live-http-attempt/v1'', attempt))"

definition http_attempt_hashes ::
    "codec \<Rightarrow> ('d, 'j) live_codec \<Rightarrow> raw_http_attempt list \<Rightarrow> live_journal_error + string list" where
  "http_attempt_hashes C L attempts =
     try_fold (\<lambda>hashes attempt. rbind (http_attempt_hash C L attempt) (\<lambda>h. Inr (hashes @ [h]))) [] attempts"

definition request_descriptor_hash ::
    "codec \<Rightarrow> ('d, 'j) live_codec \<Rightarrow> sanitized_http_request_descriptor \<Rightarrow> live_journal_error + string" where
  "request_descriptor_hash C L descriptor =
     map_sum JournalEncoding (\<lambda>bs. cd_to_hex C (cd_blake3 C bs))
       (lc_descriptor_json L (''prediction-edge/live-http-request-descriptor/v1'', descriptor))"

definition verify_http_response_request ::
    "codec \<Rightarrow> ('d, 'j) live_codec \<Rightarrow> sanitized_http_request_descriptor \<Rightarrow> string \<Rightarrow> live_journal_error + unit" where
  "verify_http_response_request C L descriptor retained =
     rbind (request_descriptor_hash C L descriptor) (\<lambda>h. if h \<noteq> retained then Inl RequestBinding else Inr ())"

end
