(* ===== verification/Journal_Properties.thy ===== *)
theory Journal_Properties
  imports Live_Journal Event_Properties
begin

section \<open>Properties of the live journal\<close>

text \<open>
  What an open journal holds (\<open>journal_holds\<close>: the log of linked frames, the decoded records, the two
  indexes), what opening, appending and replaying do to it, and what a history of appends with any
  answers of the file system leaves. The three properties: reads are the replay of the file, an
  acknowledged record survives a crash, and a record refused as control evidence closes the journal.
\<close>

subsection \<open>Decoded records\<close>

lemma try_fold_decode:
  "try_fold (\<lambda>rs e. rbind (decode_record L e (length rs)) (\<lambda>ev. Inr (rs @ [ev]))) acc es = Inr rs \<longleftrightarrow>
     length rs = length acc + length es \<and> take (length acc) rs = acc \<and>
     (\<forall>i < length es. decode_record L (es ! i) (length acc + i) = Inr (rs ! (length acc + i)))"
proof (induction es arbitrary: acc)
  case Nil
  then show ?case by auto
next
  case (Cons e es)
  show ?case
  proof (cases "decode_record L e (length acc)")
    case (Inl err)
    then show ?thesis by (auto intro!: exI [of _ 0])
  next
    case (Inr ev)
    have "(\<forall>i < Suc n. P i) \<longleftrightarrow> P 0 \<and> (\<forall>i < n. P (Suc i))" for n and P :: "nat \<Rightarrow> bool"
      using less_Suc_eq_0_disj by auto
    moreover have "take (Suc (length acc)) rs = acc @ [ev] \<longleftrightarrow> take (length acc) rs = acc \<and> rs ! length acc = ev"
      if "length acc < length rs"
      using that by (simp add: take_Suc_conv_app_nth)
    ultimately show ?thesis using Inr Cons.IH [of "acc @ [ev]"] by auto
  qed
qed

lemma decode_observed_iff:
  "decode_observed L es = Inr rs \<longleftrightarrow>
     length rs = length es \<and> (\<forall>i < length es. decode_record L (es ! i) i = Inr (rs ! i))"
  using try_fold_decode [of L "[]" es rs] by (simp add: decode_observed_def)

lemma decode_observed_snoc:
  assumes "decode_observed L es = Inr rs" "decode_record L e (length rs) = Inr ev"
  shows "decode_observed L (es @ [e]) = Inr (rs @ [ev])"
  using assms by (auto simp: decode_observed_iff nth_append less_Suc_eq)

lemma decode_observed_take: "decode_observed L es = Inr rs \<Longrightarrow> decode_observed L (take k es) = Inr (take k rs)"
  by (auto simp: decode_observed_iff)


subsection \<open>Opening\<close>

lemma open_verified_image:
  assumes laws: "codec_laws C" and ok: "framed_ok C 0 genesis_hash efs" and p: "torn C p"
    and F: "plain_file F" "lf_data F = log_image efs p" and small: "length (lf_data F) < 2 ^ 64" and os: "os_healthy os"
  shows "\<exists>w b. open_verified C os F None = (Inr (w, b), offsets_from HEADER_LEN efs, log_image efs []) \<and>
    writer_holds C efs w \<and> tb_last_hash b = last_hash efs"
proof -
  let ?st = "scan_after after_header efs"
  obtain path where walk: "walk_locked C F (walk_request_from None) =
    (Inr (\<lparr>so_verified_tail = tail_binding path ?st, so_incomplete_tail = torn_tail p ?st\<rparr>, NotRequested),
     offsets_from HEADER_LEN efs)"
    using walk_image [OF laws ok p F] by blast
  obtain w where w: "writer_open C os F = (Inr w, log_image efs [])" "writer_holds C efs w"
    using reopen_image [OF laws ok p F small os] by blast
  have "length (lf_data F) \<noteq> 0" using F(2) by simp
  then have len: "file_len F \<noteq> 0" using small
    by (metis file_len_def of_nat_0 unat_0 unat_u64_of_nat)
  have lock: "lock_exclusive os (lf_path F) = Inr ()" using os by (simp add: lock_exclusive_def os_healthy_def os_call_def)
  define scan where "scan = \<lparr>so_verified_tail = tail_binding path ?st, so_incomplete_tail = torn_tail p ?st\<rparr>"
  have hash: "tb_last_hash (so_verified_tail scan) = last_hash efs" by (simp add: scan_def tail_binding_def scan_whole)
  have "repair_and_attach os F scan = (Inr w, log_image efs [])"
    using w(1) len lock by (simp add: writer_open_def inspect_open_def walk scan_def)
  then have "finish_verified_open os F scan NotRequested False = (Inr (w, so_verified_tail scan), log_image efs [])"
    by (simp add: finish_verified_open_def require_match_def split: option.splits)
  then show ?thesis
    using w(2) hash walk [folded scan_def] by (simp add: open_verified_def lock len)
qed

subsection \<open>Replaying\<close>

lemma replay_collect_framed:
  assumes "codec_laws C" "framed_ok C (ss_next_sequence st) (ss_previous_hash st) efs"
    and "rd_rest r = frames_of efs" "rd_end r = None" "stream_position r = ss_physical_tail st"
  shows "map_sum id (map fst) (replay_collect C L None \<lparr>ri_reader = r, ri_state = st, ri_poisoned = False,
      ri_retained_tail = None, ri_reached_retained_tail = True\<rparr> acc) =
    try_fold (\<lambda>rs e. rbind (decode_record L e (length rs)) (\<lambda>ev. Inr (rs @ [ev]))) (map fst acc) (map fst efs)"
  using assms
proof (induction efs arbitrary: st r acc)
  case Nil
  then show ?case
    using read_torn_tail [OF Nil.prems(1) torn_Nil, of r st]
    by (subst replay_collect.simps) (simp add: replay_next_def)
next
  case (Cons ef efs)
  obtain e f where ef: "ef = (e, f)" by (cases ef)
  let ?it = "\<lparr>ri_reader = advance (length f) r, ri_state = scan_after st [(e, f)], ri_poisoned = False,
      ri_retained_tail = None, ri_reached_retained_tail = True\<rparr>"
  have "read_verified_frame_observed C r st = Inr (StepFrame e, f, scan_after st [(e, f)], advance (length f) r)"
    using Cons.prems by (intro read_linked_frame) (auto simp: ef)
  then have step: "replay_next C \<lparr>ri_reader = r, ri_state = st, ri_poisoned = False, ri_retained_tail = None,
      ri_reached_retained_tail = True\<rparr> = (Some (Inr (ss_physical_tail st, ev_seq e, e)), ?it)"
    by (simp add: replay_next_def)
  have IH: "map_sum id (map fst) (replay_collect C L None ?it acc') =
      try_fold (\<lambda>rs e. rbind (decode_record L e (length rs)) (\<lambda>ev. Inr (rs @ [ev]))) (map fst acc') (map fst efs)" for acc'
    using Cons.prems by (intro Cons.IH) (auto simp: ef stream_position_def)
  show ?case
  proof (cases "decode_record L e (length acc)")
    case (Inl err)
    then show ?thesis by (subst replay_collect.simps) (simp add: step ef)
  next
    case (Inr ev)
    then show ?thesis
      using IH [of "acc @ [(ev, \<lparr>ar_sequence = ev_seq e, ar_this_hash = ev_this_hash e\<rparr>)]"]
      by (subst replay_collect.simps) (simp add: step ef)
  qed
qed

lemma map_sum_rbind: "map_sum id g (rbind r (\<lambda>x. Inr x)) = map_sum id g r"
  by (cases r) simp_all

lemma replay_all_image:
  assumes laws: "codec_laws C" and ok: "framed_ok C 0 genesis_hash efs"
    and F: "plain_file F" "lf_data F = log_image efs []"
  shows "replay_all C L F = decode_observed L (map fst efs)"
proof -
  let ?r = "seek HEADER_LEN (advance 5 (file_reader F))"
  let ?it = "\<lparr>ri_reader = ?r, ri_state = after_header, ri_poisoned = False, ri_retained_tail = None,
      ri_reached_retained_tail = True\<rparr>"
  have opened: "lf_open_error F = None" "lf_authority F = Inr None" using F(1) by (simp_all add: plain_file_def)
  obtain path where "walk_locked C F (walk_request_from None) =
    (Inr (\<lparr>so_verified_tail = tail_binding path (scan_after after_header efs),
           so_incomplete_tail = torn_tail [] (scan_after after_header efs)\<rparr>, NotRequested), offsets_from HEADER_LEN efs)"
    using walk_image [OF laws ok torn_Nil F] by blast
  then have verify: "\<exists>b. scanner_verify C F = Inr b"
    by (simp add: scanner_verify_def inspect_def inspect_open_def open_read_def opened torn_tail_def)
  have "replay_open F = Inr ?it"
    using header_ok [OF F(2)]
    by (simp add: replay_open_def open_read_def opened fresh_state_def require_retained_length_def Let_def)
      (simp add: after_header_def)
  then have start: "replay_with_offsets C F = Inr ?it" using verify by (auto simp: replay_with_offsets_def)
  have rest: "rd_rest ?r = frames_of efs"
    by (simp add: rd_rest_def seek_def file_reader_def F(2) log_image_def HEADER_LEN_def MAGIC_def str_bytes_def)
  have "map_sum id (map fst) (replay_collect C L None ?it []) =
      try_fold (\<lambda>rs e. rbind (decode_record L e (length rs)) (\<lambda>ev. Inr (rs @ [ev]))) [] (map fst efs)"
    using replay_collect_framed [OF laws _ rest, of after_header L "[]"] ok F(1)
    by (simp add: after_header_def plain_file_def seek_def file_reader_def stream_position_def)
  then show ?thesis
    by (simp add: replay_all_def replay_all_with_receipts_def replay_with_receipts_def start map_sum_rbind decode_observed_def)
qed

subsection \<open>The invariant of an open journal\<close>

text \<open>The control records an index should list: the positions of its records, in journal order.\<close>

definition is_pending_control :: "account_id \<times> string \<Rightarrow> ('d, 'j) live_journal_event \<Rightarrow> bool" where
  "is_pending_control k rec \<longleftrightarrow>
     (\<exists>a. je_payload rec = PendingTargetControl a \<and> k = (je_account_id rec, tc_dispatch_id a))"

definition is_recovery_pause :: "account_id \<times> string \<Rightarrow> ('d, 'j) live_journal_event \<Rightarrow> bool" where
  "is_recovery_pause k rec \<longleftrightarrow>
     (\<exists>a. je_payload rec = ApprovedRecoveryControlPause a \<and> k = (je_account_id rec, tc_dispatch_id a))"

definition positions :: "('a \<Rightarrow> bool) \<Rightarrow> 'a list \<Rightarrow> nat list" where
  "positions P xs = filter (\<lambda>i. P (xs ! i)) [0..<length xs]"

definition index_of :: "('a \<Rightarrow> bool) \<Rightarrow> 'a list \<Rightarrow> nat list option \<Rightarrow> bool" where
  "index_of P xs m \<longleftrightarrow> (case m of None \<Rightarrow> [] | Some is \<Rightarrow> is) = positions P xs"

lemma positions_snoc: "positions P (xs @ [x]) = positions P xs @ (if P x then [length xs] else [])"
proof -
  have "filter (\<lambda>i. P ((xs @ [x]) ! i)) [0..<length xs] = filter (\<lambda>i. P (xs ! i)) [0..<length xs]"
    by (rule filter_cong) (simp_all add: nth_append)
  then show ?thesis by (simp add: positions_def)
qed

definition journal_indexed :: "('d, 'j) live_journal \<Rightarrow> bool" where
  "journal_indexed j \<longleftrightarrow>
     (\<forall>k. index_of (is_pending_control k) (lj_records j) (lj_pending_controls j k) \<and>
          index_of (is_recovery_pause k) (lj_records j) (lj_approved_pauses j k))"

lemma publish_records [simp]:
  "lj_records (journal_publish rec j) = lj_records j @ [rec]" "lj_writer (journal_publish rec j) = lj_writer j"
  "lj_last_hash (journal_publish rec j) = lj_last_hash j" "lj_unpublished (journal_publish rec j) = lj_unpublished j"
  by (simp_all add: journal_publish_def Let_def split: live_journal_payload.splits)

lemma index_push:
  assumes "index_of P xs (m k)" "k \<noteq> k' \<Longrightarrow> \<not> P x" "k = k' \<Longrightarrow> P x"
  shows "index_of P (xs @ [x]) (entry_push k' (length xs) m k)"
  using assms by (auto simp: index_of_def entry_push_def positions_snoc)

lemma index_keep: "index_of P xs m \<Longrightarrow> \<not> P x \<Longrightarrow> index_of P (xs @ [x]) m"
  by (simp add: index_of_def positions_snoc)

lemma publish_indexed:
  assumes "journal_indexed j"
  shows "journal_indexed (journal_publish rec j)"
proof -
  have ix: "index_of (is_pending_control k) (lj_records j) (lj_pending_controls j k)"
    "index_of (is_recovery_pause k) (lj_records j) (lj_approved_pauses j k)" for k
    using assms unfolding journal_indexed_def by blast+
  have pending: "index_of (is_pending_control k) (lj_records j @ [rec]) (lj_pending_controls (journal_publish rec j) k)" for k
  proof (cases "\<exists>a. je_payload rec = PendingTargetControl a")
    case True
    then obtain a where a: "je_payload rec = PendingTargetControl a" by blast
    then show ?thesis
      using index_push [where m = "lj_pending_controls j" and k = k, OF ix(1), of "(je_account_id rec, tc_dispatch_id a)" rec]
      by (simp add: journal_publish_def is_pending_control_def)
  next
    case False
    then have "lj_pending_controls (journal_publish rec j) = lj_pending_controls j"
      by (simp add: journal_publish_def Let_def split: live_journal_payload.splits)
    with False show ?thesis using index_keep [OF ix(1), of k rec] by (simp add: is_pending_control_def)
  qed
  have pause: "index_of (is_recovery_pause k) (lj_records j @ [rec]) (lj_approved_pauses (journal_publish rec j) k)" for k
  proof (cases "\<exists>a. je_payload rec = ApprovedRecoveryControlPause a")
    case True
    then obtain a where a: "je_payload rec = ApprovedRecoveryControlPause a" by blast
    then show ?thesis
      using index_push [where m = "lj_approved_pauses j" and k = k, OF ix(2), of "(je_account_id rec, tc_dispatch_id a)" rec]
      by (simp add: journal_publish_def is_recovery_pause_def)
  next
    case False
    then have "lj_approved_pauses (journal_publish rec j) = lj_approved_pauses j"
      by (simp add: journal_publish_def Let_def split: live_journal_payload.splits)
    with False show ?thesis using index_keep [OF ix(2), of k rec] by (simp add: is_recovery_pause_def)
  qed
  from pending pause show ?thesis by (simp add: journal_indexed_def)
qed

lemma fold_publish:
  "lj_records (fold journal_publish rs j) = lj_records j @ rs" "lj_writer (fold journal_publish rs j) = lj_writer j"
  "lj_last_hash (fold journal_publish rs j) = lj_last_hash j"
  "lj_unpublished (fold journal_publish rs j) = lj_unpublished j"
  by (induction rs arbitrary: j) simp_all

lemma fold_publish_indexed: "journal_indexed j \<Longrightarrow> journal_indexed (fold journal_publish rs j)"
  by (induction rs arbitrary: j) (simp_all add: publish_indexed)

text \<open>An open journal caches exactly the decoded frames of its log.\<close>

definition journal_holds :: "codec \<Rightarrow> ('d, 'j) live_codec \<Rightarrow> framed \<Rightarrow> ('d, 'j) live_journal \<Rightarrow> bool" where
  "journal_holds C L efs j \<longleftrightarrow>
     writer_holds C efs (lj_writer j) \<and> lj_last_hash j = last_hash efs \<and>
     decode_observed L (map fst efs) = Inr (lj_records j) \<and> \<not> lj_unpublished j \<and> journal_indexed j"

lemma journal_open_image:
  assumes laws: "codec_laws C" and ok: "framed_ok C 0 genesis_hash efs" and p: "torn C p"
    and F: "plain_file F" "lf_data F = log_image efs p" and small: "length (lf_data F) < 2 ^ 64" and os: "os_healthy os"
    and path: "check_journal_path metadata created = Inr ()"
  shows "case decode_observed L (map fst efs) of
      Inl err \<Rightarrow> journal_open C L os metadata created F = (Inl err, log_image efs [])
    | Inr rs \<Rightarrow> \<exists>j. journal_open C L os metadata created F = (Inr j, log_image efs []) \<and> journal_holds C L efs j \<and> lj_records j = rs"
proof -
  obtain w b where opened: "open_verified C os F None = (Inr (w, b), offsets_from HEADER_LEN efs, log_image efs [])"
    and w: "writer_holds C efs w" "tb_last_hash b = last_hash efs"
    using open_verified_image [OF laws ok p F small os] by blast
  show ?thesis
  proof (cases "decode_observed L (map fst efs)")
    case (Inl err)
    then show ?thesis by (simp add: journal_open_def path opened)
  next
    case (Inr rs)
    let ?j = "\<lparr>lj_path = lf_path F, lj_writer = w, lj_last_hash = tb_last_hash b, lj_records = [],
      lj_pending_controls = Map.empty, lj_approved_pauses = Map.empty, lj_unpublished = False\<rparr> :: ('a, 'b) live_journal"
    have "journal_indexed ?j" by (simp add: journal_indexed_def index_of_def positions_def)
    then have "journal_holds C L efs (fold journal_publish rs ?j)"
      using w Inr by (simp add: journal_holds_def fold_publish fold_publish_indexed)
    then show ?thesis using Inr by (simp add: journal_open_def path opened fold_publish)
  qed
qed

subsection \<open>Appending\<close>

text \<open>The event an append builds, and the envelope its log entry has.\<close>

definition next_event :: "('d, 'j) live_journal \<Rightarrow> account_id \<Rightarrow> offset_date_time \<Rightarrow> ('d, 'j) live_journal_payload \<Rightarrow> ('d, 'j) live_journal_event" where
  "next_event j account timestamp payload =
     \<lparr>je_account_id = account, je_seq = word_of_nat (length (lj_records j)), je_timestamp = timestamp, je_payload = payload\<rparr>"

definition journal_closed :: "('d, 'j) live_journal \<Rightarrow> bool" where
  "journal_closed j \<longleftrightarrow> published_guard j \<noteq> Inr ()"

lemma holds_open: "journal_holds C L efs j \<Longrightarrow> published_guard j = Inr ()"
  by (simp add: journal_holds_def writer_holds_def published_guard_def)

lemma holds_length: "journal_holds C L efs j \<Longrightarrow> length (lj_records j) = length efs"
  by (auto simp: journal_holds_def decode_observed_iff)

lemma holds_count: "journal_holds C L efs j \<Longrightarrow> length efs < 2 ^ 64"
  using framed_ok_count [of C 0 genesis_hash efs] by (simp add: journal_holds_def writer_holds_def)

lemma written_appended:
  "written_envelope C \<lparr>ar_sequence = word_of_nat (length efs), ar_this_hash = h\<rparr> (last_hash efs) timestamp bs =
     appended_envelope C efs (journal_envelope_in timestamp bs) h"
  by (simp add: written_envelope_def appended_envelope_def new_envelope_def journal_envelope_in_def)

lemma publish_flags:
  "journal_indexed (j\<lparr>lj_unpublished := b\<rparr>) = journal_indexed j"
  "journal_indexed (j\<lparr>lj_writer := w\<rparr>) = journal_indexed j"
  "journal_indexed (j\<lparr>lj_last_hash := h\<rparr>) = journal_indexed j"
  by (simp_all add: journal_indexed_def)

lemma journal_append_cases:
  assumes j: "journal_holds C L efs j" and run: "journal_append C L flushed synced account timestamp payload j = (res, j')"
  obtains (refused) err where "res = Inl err" "j' = j" "err \<noteq> InvalidControlEvidence"
  | (appended) bs e f ev where "lc_to_vec L (next_event j account timestamp payload) = Inr bs"
      "e = appended_envelope C efs (journal_envelope_in timestamp bs) (ev_this_hash e)"
      "decode_record L e (length efs) = Inr ev" "res = Inr ev"
      "journal_holds C L (efs @ [(e, f)]) j'" "lj_records j' = lj_records j @ [ev]"
  | (undecoded) bs e f err where "lc_to_vec L (next_event j account timestamp payload) = Inr bs"
      "e = appended_envelope C efs (journal_envelope_in timestamp bs) (ev_this_hash e)"
      "decode_record L e (length efs) = Inl err" "res = Inl err" "lj_unpublished j'"
      "writer_holds C (efs @ [(e, f)]) (lj_writer j')"
  | (failed) bs efs' err where "lc_to_vec L (next_event j account timestamp payload) = Inr bs" "res = Inl (JournalEventLog err)"
      "grown_by C efs (journal_envelope_in timestamp bs) efs'" "journal_closed j'"
      "writer_failed C efs' (lj_writer j')"
proof -
  let ?ev = "next_event j account timestamp payload"
  have guard: "published_guard j = Inr ()" and len: "length (lj_records j) = length efs" and small: "length efs < 2 ^ 64"
    using j holds_open holds_length holds_count by blast+
  have w: "writer_holds C efs (lj_writer j)" and hash: "lj_last_hash j = last_hash efs" and ix: "journal_indexed j"
    and dec: "decode_observed L (map fst efs) = Inr (lj_records j)"
    using j by (simp_all add: journal_holds_def)
  show ?thesis
  proof (cases "lc_to_vec L ?ev")
    case (Inl e)
    then show ?thesis using run guard len small
      by (intro refused [of "JournalEncoding e"]) (auto simp: journal_append_def next_event_def)
  next
    case (Inr bs)
    obtain r w' where a: "append_synced C flushed synced (journal_envelope_in timestamp bs) (lj_writer j) = (r, w')"
      by (metis surj_pair)
    let ?j1 = "j\<lparr>lj_unpublished := True, lj_writer := w'\<rparr>"
    from append_synced_cases [OF w a] consider
      (ok) e f where "r = Inr \<lparr>ar_sequence = word_of_nat (length efs), ar_this_hash = ev_this_hash e\<rparr>"
        "e = appended_envelope C efs (journal_envelope_in timestamp bs) (ev_this_hash e)" "writer_holds C (efs @ [(e, f)]) w'"
      | (err) err efs' where "r = Inl err" "grown_by C efs (journal_envelope_in timestamp bs) efs'"
        "writer_holds C efs' w' \<or> writer_poisoned w' \<and> writer_failed C efs' w'"
      by blast
    then show ?thesis
    proof cases
      case (ok e f)
      have env: "written_envelope C \<lparr>ar_sequence = word_of_nat (length efs), ar_this_hash = ev_this_hash e\<rparr> (lj_last_hash j) timestamp bs = e"
        using ok(2) by (simp add: hash written_appended)
      show ?thesis
      proof (cases "decode_record L e (length efs)")
        case (Inl err)
        then have "res = Inl err" "j' = ?j1"
          using run guard len small Inr a ok(1) env by (auto simp: journal_append_def next_event_def)
        then show ?thesis using Inl Inr ok by (intro undecoded [of bs e err f]) simp_all
      next
        case dec_ok: (Inr ev)
        then have res: "res = Inr ev" "j' = (journal_publish ev (?j1\<lparr>lj_last_hash := ev_this_hash e\<rparr>))\<lparr>lj_unpublished := False\<rparr>"
          using run guard len small Inr a ok(1) env by (auto simp: journal_append_def next_event_def)
        have "decode_observed L (map fst efs @ [e]) = Inr (lj_records j @ [ev])"
          using decode_observed_snoc [OF dec] dec_ok len by simp
        then have "journal_holds C L (efs @ [(e, f)]) j'"
          using ok(3) ix by (simp add: res journal_holds_def publish_flags publish_indexed last_hash_def)
        then show ?thesis using res dec_ok Inr ok by (intro appended [of bs e ev f]) simp_all
      qed
    next
      case (err err efs')
      then have "res = Inl (JournalEventLog err)" "j' = ?j1"
        using run guard len small Inr a by (auto simp: journal_append_def next_event_def)
      moreover have "journal_closed ?j1" by (simp add: journal_closed_def published_guard_def split: option.splits)
      moreover have "writer_failed C efs' w'" using err(3) holds_failed by (auto simp: writer_failed_def writer_holds_def intro!: exI [of _ "[]"])
      ultimately show ?thesis using Inr err by (intro failed [of bs err efs']) simp_all
    qed
  qed
qed

subsection \<open>Histories\<close>

record ('d, 'j) journal_op =
  jo_flushed :: "io_error option"
  jo_synced :: "io_error option"
  jo_account :: account_id
  jo_timestamp :: offset_date_time
  jo_payload :: "('d, 'j) live_journal_payload"

definition journal_step :: "codec \<Rightarrow> ('d, 'j) live_codec \<Rightarrow> ('d, 'j) journal_op \<Rightarrow> ('d, 'j) live_journal \<Rightarrow> ('d, 'j) live_journal" where
  "journal_step C L op j =
     snd (journal_append C L (jo_flushed op) (jo_synced op) (jo_account op) (jo_timestamp op) (jo_payload op) j)"

lemma closed_append: "published_guard j = Inl e \<Longrightarrow> journal_append C L flushed synced account timestamp payload j = (Inl e, j)"
  by (simp add: journal_append_def)

lemma closed_guard: "journal_closed j \<Longrightarrow> \<exists>e. published_guard j = Inl e"
  by (cases "published_guard j") (simp_all add: journal_closed_def)

interpretation journal: poisonable "journal_step C L" journal_closed for C L
  by unfold_locales (auto simp: journal_step_def closed_append dest: closed_guard)

text \<open>What a history of appends leaves: a journal that still holds its log, or a closed one over a log that only grew.\<close>

definition decodable :: "('d, 'j) live_codec \<Rightarrow> framed \<Rightarrow> bool" where
  "decodable L efs \<longleftrightarrow> (\<exists>rs. decode_observed L (map fst efs) = Inr rs)"

definition live_codec_laws :: "('d, 'j) live_codec \<Rightarrow> bool" where
  "live_codec_laws L \<longleftrightarrow> (\<forall>ev bs. lc_to_vec L ev = Inr bs \<longrightarrow> lc_from_slice L bs = Inr ev)"

definition op_valid :: "('d, 'j) live_codec \<Rightarrow> ('d, 'j) journal_op \<Rightarrow> bool" where
  "op_valid L op \<longleftrightarrow>
     control_event_ok L \<lparr>je_account_id = jo_account op, je_seq = 0, je_timestamp = jo_timestamp op, je_payload = jo_payload op\<rparr>"

lemma control_ok_seq: "control_event_ok L (ev\<lparr>je_seq := n\<rparr>) = control_event_ok L ev"
proof -
  have dec: "control_decided_at L (ev\<lparr>je_seq := n\<rparr>) = control_decided_at L ev" by (simp add: control_decided_at_def fun_eq_iff)
  have "staged_control_ok L (ev\<lparr>je_seq := n\<rparr>) = staged_control_ok L ev" "target_control_ok L (ev\<lparr>je_seq := n\<rparr>) = target_control_ok L ev"
    "preparation_failed_ok L (ev\<lparr>je_seq := n\<rparr>) = preparation_failed_ok L ev"
    unfolding staged_control_ok_def target_control_ok_def preparation_failed_ok_def fun_eq_iff dec by (simp_all split: list.split)
  then show ?thesis by (simp add: control_event_ok_def split: live_journal_payload.split)
qed

lemma appended_decodes:
  assumes "live_codec_laws L" "lc_to_vec L (next_event j account timestamp payload) = Inr bs" "length (lj_records j) = length efs"
    "length efs < 2 ^ 64"
  shows "decode_record L (appended_envelope C efs (journal_envelope_in timestamp bs) h) (length efs) =
    rbind (validate_control_event L (next_event j account timestamp payload)) (\<lambda>_. Inr (next_event j account timestamp payload))"
proof -
  have "lc_from_slice L bs = Inr (next_event j account timestamp payload)" using assms by (simp add: live_codec_laws_def)
  moreover have "unat (word_of_nat (length efs) :: u64) = length efs" using assms(4) by (rule unat_u64_of_nat)
  ultimately show ?thesis
    using assms(3,4)
    by (simp add: decode_record_def appended_envelope_def new_envelope_def journal_envelope_in_def decode_event_def
        LIVE_JOURNAL_SCHEMA_VERSION_def next_event_def)
qed

lemma valid_next_event: "op_valid L op \<Longrightarrow> control_event_ok L (next_event j (jo_account op) (jo_timestamp op) (jo_payload op))"
  using control_ok_seq [where L = L and n = 0 and ev = "next_event j (jo_account op) (jo_timestamp op) (jo_payload op)"]
  by (simp add: op_valid_def next_event_def)

lemma grown_decodable:
  assumes "decodable L efs" "grown_by C efs i efs'"
    and "\<And>h. \<exists>ev. decode_record L (appended_envelope C efs i h) (length efs) = Inr ev"
  shows "decodable L efs'"
proof -
  obtain rs where rs: "decode_observed L (map fst efs) = Inr rs" using assms(1) by (auto simp: decodable_def)
  then have len: "length rs = length efs" by (simp add: decode_observed_iff)
  from assms(2) consider "efs' = efs" | e f where "efs' = efs @ [(e, f)]" "e = appended_envelope C efs i (ev_this_hash e)"
    unfolding grown_by_def by blast
  then show ?thesis
  proof cases
    case (2 e f)
    then obtain ev where "decode_record L e (length rs) = Inr ev" using assms(3) [of "ev_this_hash e"] len by metis
    from decode_observed_snoc [OF rs this] show ?thesis by (simp add: 2(1) decodable_def)
  qed (simp add: assms(1))
qed

lemma journal_history:
  assumes "journal_holds C L efs j"
  shows "\<exists>efs'. prefix efs efs' \<and> (journal_holds C L efs' (fold (journal_step C L) ops j) \<or>
    journal_closed (fold (journal_step C L) ops j) \<and> writer_failed C efs' (lj_writer (fold (journal_step C L) ops j)))"
proof (rule journal.run_invariant_on [where healthy = "journal_holds C L" and grows = prefix and allowed = "\<lambda>_. True"
      and final = "\<lambda>efs j. writer_failed C efs (lj_writer j)"])
  fix efs and j :: "('a, 'b) live_journal" and op :: "('a, 'b) journal_op"
  assume j: "journal_holds C L efs j"
  obtain res where run: "journal_append C L (jo_flushed op) (jo_synced op) (jo_account op) (jo_timestamp op) (jo_payload op) j = (res, journal_step C L op j)"
    by (simp add: journal_step_def) (metis surjective_pairing)
  from j run show "\<exists>y. prefix efs y \<and> (journal_holds C L y (journal_step C L op j) \<or>
      journal_closed (journal_step C L op j) \<and> writer_failed C y (lj_writer (journal_step C L op j)))"
  proof (cases rule: journal_append_cases)
    case (appended bs e f ev)
    then show ?thesis by (intro exI [of _ "efs @ [(e, f)]"]) simp
  next
    case (undecoded bs e f err)
    then show ?thesis
      by (intro exI [of _ "efs @ [(e, f)]"]) (auto simp: journal_closed_def published_guard_def writer_holds_def writer_failed_def
          intro!: exI [of _ "[]"] split: option.splits)
  qed (use j in \<open>auto dest: grown_by_prefix\<close>)
qed (use assms in \<open>auto simp: list_all_iff\<close>)

lemma valid_history:
  assumes laws: "live_codec_laws L" and "journal_holds C L efs j" "list_all (op_valid L) ops"
  shows "\<exists>efs'. prefix efs efs' \<and> decodable L efs' \<and> writer_failed C efs' (lj_writer (fold (journal_step C L) ops j))"
proof -
  have "\<exists>efs'. prefix efs efs' \<and> (journal_holds C L efs' (fold (journal_step C L) ops j) \<or>
    journal_closed (fold (journal_step C L) ops j) \<and> decodable L efs' \<and> writer_failed C efs' (lj_writer (fold (journal_step C L) ops j)))"
  proof (rule journal.run_invariant_on [where healthy = "journal_holds C L" and grows = prefix and allowed = "op_valid L"
        and final = "\<lambda>efs j. decodable L efs \<and> writer_failed C efs (lj_writer j)"])
    fix efs and j :: "('a, 'b) live_journal" and op :: "('a, 'b) journal_op"
    assume j: "journal_holds C L efs j" and ok: "op_valid L op"
    have dec: "\<exists>ev. decode_record L (appended_envelope C efs (journal_envelope_in (jo_timestamp op) bs) h) (length efs) = Inr ev"
      if "lc_to_vec L (next_event j (jo_account op) (jo_timestamp op) (jo_payload op)) = Inr bs" for bs h
      using appended_decodes [OF laws that holds_length [OF j] holds_count [OF j]] valid_next_event [OF ok]
      by (simp add: validate_control_event_def)
    have old: "decodable L efs" using j by (auto simp: journal_holds_def decodable_def)
    obtain res where run: "journal_append C L (jo_flushed op) (jo_synced op) (jo_account op) (jo_timestamp op) (jo_payload op) j = (res, journal_step C L op j)"
      by (simp add: journal_step_def) (metis surjective_pairing)
    from j run show "\<exists>y. prefix efs y \<and> (journal_holds C L y (journal_step C L op j) \<or>
        journal_closed (journal_step C L op j) \<and> decodable L y \<and> writer_failed C y (lj_writer (journal_step C L op j)))"
    proof (cases rule: journal_append_cases)
      case (appended bs e f ev)
      then show ?thesis by (intro exI [of _ "efs @ [(e, f)]"]) simp
    next
  case (undecoded bs e f err)
      then show ?thesis using dec [of bs "ev_this_hash e"] by auto
    next
      case (failed bs efs' err)
      then show ?thesis using grown_decodable [OF old failed(3)] dec [OF failed(1)] grown_by_prefix by blast
    qed (use j in \<open>auto\<close>)
  qed (use assms in auto)
  then show ?thesis
    by (fastforce simp: journal_holds_def decodable_def writer_holds_def writer_failed_def intro: exI [of _ "[]"])
qed

subsection \<open>What the indexed reads return\<close>

definition pending_controls_of :: "account_id \<Rightarrow> string \<Rightarrow> ('d, 'j) live_journal_event list \<Rightarrow> live_target_control_audit list" where
  "pending_controls_of account dispatch rs =
     List.map_filter (\<lambda>r. case je_payload r of
         PendingTargetControl a \<Rightarrow> if je_account_id r = account \<and> tc_dispatch_id a = dispatch then Some a else None
       | _ \<Rightarrow> None) rs"

definition recovery_pauses_of :: "account_id \<Rightarrow> string \<Rightarrow> ('d, 'j) live_journal_event list \<Rightarrow> live_target_control_audit list" where
  "recovery_pauses_of account dispatch rs =
     List.map_filter (\<lambda>r. case je_payload r of
         ApprovedRecoveryControlPause a \<Rightarrow> if je_account_id r = account \<and> tc_dispatch_id a = dispatch then Some a else None
       | _ \<Rightarrow> None) rs"

lemma positions_nth: "map ((!) xs) (positions P xs) = filter P xs"
proof -
  have "filter P (map ((!) xs) [0..<length xs]) = map ((!) xs) (filter (\<lambda>i. P (xs ! i)) [0..<length xs])"
    by (simp add: filter_map comp_def)
  then show ?thesis by (simp add: map_nth positions_def)
qed

lemma positions_bound: "i \<in> set (positions P xs) \<Longrightarrow> i < length xs"
  by (simp add: positions_def)

lemma map_filter_agree: "(\<And>x. x \<in> set xs \<Longrightarrow> f x = g x) \<Longrightarrow> List.map_filter f xs = List.map_filter g xs"
  by (induction xs) (simp_all add: List.map_filter_simps split: option.split)

lemma control_audits_indexed:
  assumes "index_of P (lj_records j) m"
  shows "control_audits j m = List.map_filter control_audit_of (filter P (lj_records j))"
proof -
  have "control_audits j m = List.map_filter (\<lambda>i. control_audit_of (lj_records j ! i)) (positions P (lj_records j))"
    using assms unfolding control_audits_def index_of_def by (simp only:) (rule map_filter_agree, simp add: positions_bound)
  also have "\<dots> = List.map_filter control_audit_of (map ((!) (lj_records j)) (positions P (lj_records j)))"
    by (simp add: List.map_filter_def filter_map comp_def)
  finally show ?thesis by (simp add: positions_nth)
qed

lemma pending_filter: "List.map_filter control_audit_of (filter (is_pending_control (account, dispatch)) rs) = pending_controls_of account dispatch rs"
  by (induction rs) (auto simp: pending_controls_of_def control_audit_of_def is_pending_control_def List.map_filter_simps
      split: live_journal_payload.splits)

lemma pause_filter: "List.map_filter control_audit_of (filter (is_recovery_pause (account, dispatch)) rs) = recovery_pauses_of account dispatch rs"
  by (induction rs) (auto simp: recovery_pauses_of_def control_audit_of_def is_recovery_pause_def List.map_filter_simps
      split: live_journal_payload.splits)

lemma indexed_reads:
  assumes "journal_holds C L efs j"
  shows "pending_target_controls j account dispatch = Inr (pending_controls_of account dispatch (lj_records j))"
    and "last_approved_recovery_pause j account dispatch =
      Inr (if recovery_pauses_of account dispatch (lj_records j) = [] then None
           else Some (last (recovery_pauses_of account dispatch (lj_records j))))"
proof -
  have ix: "index_of (is_pending_control k) (lj_records j) (lj_pending_controls j k)"
    "index_of (is_recovery_pause k) (lj_records j) (lj_approved_pauses j k)" for k
    using assms unfolding journal_holds_def journal_indexed_def by blast+
  show "pending_target_controls j account dispatch = Inr (pending_controls_of account dispatch (lj_records j))"
    using control_audits_indexed [OF ix(1)] by (simp add: pending_target_controls_def holds_open [OF assms] pending_filter)
  show "last_approved_recovery_pause j account dispatch =
      Inr (if recovery_pauses_of account dispatch (lj_records j) = [] then None
           else Some (last (recovery_pauses_of account dispatch (lj_records j))))"
    using control_audits_indexed [OF ix(2)] by (simp add: last_approved_recovery_pause_def holds_open [OF assms] pause_filter)
qed

lemma acknowledged_append:
  assumes "journal_holds C L efs j" "journal_append C L flushed synced account timestamp payload j = (Inr ev, j')"
  obtains bs e f where "lc_to_vec L (next_event j account timestamp payload) = Inr bs"
    "e = appended_envelope C efs (journal_envelope_in timestamp bs) (ev_this_hash e)" "decode_record L e (length efs) = Inr ev"
    "journal_holds C L (efs @ [(e, f)]) j'" "lj_records j' = lj_records j @ [ev]"
  using assms
proof (cases rule: journal_append_cases)
  case (appended bs e f ev')
  from appended(4) have "ev' = ev" by simp
  with appended show ?thesis by (intro that [of bs e f]) blast+
next
  case (undecoded bs e f err)
  from undecoded(4) show ?thesis by simp
qed simp_all


lemma appended_event:
  assumes "live_codec_laws L" and j: "journal_holds C L efs j"
    and e: "lc_to_vec L (next_event j account timestamp payload) = Inr bs"
      "e = appended_envelope C efs (journal_envelope_in timestamp bs) (ev_this_hash e)" "decode_record L e (length efs) = Inr ev"
  shows "ev = next_event j account timestamp payload"
proof -
  have "rbind (validate_control_event L (next_event j account timestamp payload)) (\<lambda>_. Inr (next_event j account timestamp payload)) = Inr ev"
    using appended_decodes [OF assms(1) e(1) holds_length [OF j] holds_count [OF j], where C = C and h = "ev_this_hash e"] e(2,3)
    by metis
  then show ?thesis by (auto simp: rbind_eq_Inr_iff)
qed

lemma append_error_keeps:
  "journal_append C L flushed synced account timestamp payload j = (Inl e, j') \<Longrightarrow> lj_records j' = lj_records j"
  by (auto simp: journal_append_def Let_def split: sum.splits if_splits prod.splits)

subsection \<open>The journal's properties\<close>

text \<open>C5. The cached records are the file. Start from an open journal, run any appends with any answers of the
  file system. As long as the journal answers reads at all, the records it returns are exactly what a
  verified replay of its file decodes, and its two indexes return the pending controls and the last
  approved pause that a scan of those records finds.\<close>

theorem journal_reads_are_the_replay:
  assumes laws: "codec_laws C" and start: "journal_holds C L efs j0" and run: "j = fold (journal_step C L) ops j0"
    and open_for_reads: "records_from j 0 = Inr rs"
    and F: "plain_file F" "lf_data F = sk_bytes (wr_inner (lj_writer j))"
  shows "replay_all C L F = Inr rs \<and>
    pending_target_controls j account dispatch = Inr (pending_controls_of account dispatch rs) \<and>
    last_approved_recovery_pause j account dispatch =
      Inr (if recovery_pauses_of account dispatch rs = [] then None else Some (last (recovery_pauses_of account dispatch rs))) \<and>
    prefix (lj_records j0) rs"
proof -
  have "\<not> journal_closed j" using open_for_reads by (auto simp: journal_closed_def records_from_def rbind_eq_Inr_iff)
  then obtain efs' where efs': "prefix efs efs'" "journal_holds C L efs' j"
    using journal_history [OF start, of ops] run by auto
  have rs: "rs = lj_records j" using open_for_reads holds_open [OF efs'(2)] by (simp add: records_from_def)
  have dec: "decode_observed L (map fst efs') = Inr rs" "decode_observed L (map fst efs) = Inr (lj_records j0)"
    and w: "framed_ok C 0 genesis_hash efs'" "sk_bytes (wr_inner (lj_writer j)) = log_image efs' []"
    using efs'(2) start by (simp_all add: journal_holds_def writer_holds_def rs)
  have "replay_all C L F = Inr rs" using replay_all_image [where L = L, OF laws w(1) F(1)] F(2) w(2) dec(1) by simp
  moreover have "prefix (lj_records j0) rs"
  proof -
    have "map fst efs = take (length efs) (map fst efs')" using efs'(1) by (auto simp: prefix_def)
    with decode_observed_take [OF dec(1), of "length efs"] dec(2) show ?thesis using take_is_prefix [of "length efs" rs] by simp
  qed
  ultimately show ?thesis using indexed_reads [OF efs'(2)] by (simp add: rs)
qed

text \<open>C4. An acknowledged record survives. If an append returned its record, then after any later appends
  whose control payloads are well-formed, any failures of the file system, and a crash that keeps any
  part of the file from the synchronized bytes on, reopening the journal succeeds and the reopened journal
  lists every record read before, then that record, at the sequence number it was given.\<close>

theorem acknowledged_record_survives:
  assumes laws: "codec_laws C" "live_codec_laws L" and start: "journal_holds C L efs j"
    and ack: "journal_append C L flushed synced account timestamp payload j = (Inr ev, j1)"
    and later: "list_all (op_valid L) ops" "j2 = fold (journal_step C L) ops j1"
    and small: "length (sk_bytes (wr_inner (lj_writer j2))) < 2 ^ 64"
    and crash: "length (sk_bytes (wr_inner (lj_writer j1))) \<le> n" "lf_data F = take n (sk_bytes (wr_inner (lj_writer j2)))"
    and F: "plain_file F" and os: "os_healthy os" and path: "check_journal_path metadata created = Inr ()"
  shows "\<exists>j3 bytes rest. journal_open C L os metadata created F = (Inr j3, bytes) \<and>
    records_from j3 0 = Inr (lj_records j @ [ev] @ rest) \<and>
    ev = \<lparr>je_account_id = account, je_seq = word_of_nat (length (lj_records j)), je_timestamp = timestamp, je_payload = payload\<rparr>"
proof -
  from start ack obtain bs e f where to_vec: "lc_to_vec L (next_event j account timestamp payload) = Inr bs"
    and e: "e = appended_envelope C efs (journal_envelope_in timestamp bs) (ev_this_hash e)" "decode_record L e (length efs) = Inr ev"
    and j1: "journal_holds C L (efs @ [(e, f)]) j1" "lj_records j1 = lj_records j @ [ev]"
    by (rule acknowledged_append)
  let ?efs1 = "efs @ [(e, f)]"
  have "ev = next_event j account timestamp payload" by (rule appended_event [OF laws(2) start to_vec e])
  moreover
  have bytes1: "sk_bytes (wr_inner (lj_writer j1)) = log_image ?efs1 []" and dec1: "decode_observed L (map fst ?efs1) = Inr (lj_records j @ [ev])"
    using j1 by (simp_all add: journal_holds_def writer_holds_def)
  obtain efs2 p rs2 where efs2: "prefix ?efs1 efs2" "framed_ok C 0 genesis_hash efs2" "torn C p"
    "sk_bytes (wr_inner (lj_writer j2)) = log_image efs2 p" and dec2: "decode_observed L (map fst efs2) = Inr rs2"
    using valid_history [OF laws(2) j1(1) later(1)] by (auto simp: later(2) writer_failed_def decodable_def)
  have cut: "5 \<le> n" using crash(1) bytes1 by simp
  obtain k q where k: "take n (log_image efs2 p) = log_image (take k efs2) q" "torn C q" "k \<le> length efs2"
    "k < length efs2 \<longrightarrow> n < length (log_image (take (Suc k) efs2) [])"
    using cut_image [OF efs2(2,3) cut] by metis
  have long: "length ?efs1 \<le> k"
    by (rule cut_keeps_prefix [OF efs2(1), of "n - 5"]) (use crash(1) bytes1 k in auto)
  have dec3: "decode_observed L (map fst (take k efs2)) = Inr (take k rs2)"
    using decode_observed_take [OF dec2, of k] by (simp add: take_map)
  have data: "lf_data F = log_image (take k efs2) q" "length (lf_data F) < 2 ^ 64"
    using crash(2) efs2(4) k(1) small by simp (use crash(2) small in simp)
  obtain j3 where j3: "journal_open C L os metadata created F = (Inr j3, log_image (take k efs2) [])"
    "journal_holds C L (take k efs2) j3" "lj_records j3 = take k rs2"
    using journal_open_image [OF laws(1) framed_ok_take [OF efs2(2)] k(2) F data os path, of L] dec3 by auto
  have "map fst ?efs1 = take (length ?efs1) (map fst efs2)" using efs2(1) by (auto simp: prefix_def)
  then have "take (length ?efs1) rs2 = lj_records j @ [ev]"
    using decode_observed_take [OF dec2, of "length ?efs1"] dec1 by simp
  then have "take k rs2 = lj_records j @ [ev] @ drop (length ?efs1) (take k rs2)"
    using long append_take_drop_id [of "length ?efs1" "take k rs2"] by (simp add: min_absorb1)
  ultimately show ?thesis
    using j3 holds_open [OF j3(2)] by (auto simp: records_from_def next_event_def)
qed


subsection \<open>Witnesses\<close>

text \<open>A codec and a live codec that know one record, and an empty journal.\<close>

definition one_codec :: "envelope_in \<Rightarrow> codec" where
  "one_codec i = \<lparr>cd_blake3 = (\<lambda>_. sample_hash), cd_to_hex = (\<lambda>_. []), cd_crc32 = (\<lambda>_. 7),
     cd_encode_all = (\<lambda>_ x. Inr x), cd_decode_all = (\<lambda>x. Inr x), cd_single_frame = (\<lambda>_. None),
     cd_canonical = (\<lambda>_. Inr [123]),
     cd_to_vec = (\<lambda>e. if e = new_envelope 0 sample_hash genesis_hash sample_hash i then Inr [1] else Inl ''unsupported''),
     cd_from_slice = (\<lambda>b. if b = [1] then Inr (new_envelope 0 sample_hash genesis_hash sample_hash i) else Inl ''unsupported'')\<rparr>"

definition one_live :: "('d, 'j) live_journal_event \<Rightarrow> ('d, 'j) live_codec" where
  "one_live ev = \<lparr>lc_to_vec = (\<lambda>e. if e = ev then Inr [42] else Inl ''unsupported''),
     lc_from_slice = (\<lambda>b. if b = [42] then Inr ev else Inl ''unsupported''), lc_value_from_slice = (\<lambda>_. Inl ''unsupported''),
     lc_v1_from_slice = (\<lambda>_. Inl ''unsupported''), lc_v1_from_value = (\<lambda>_. Inl ''unsupported''),
     lc_attempt_json = (\<lambda>_. Inl ''unsupported''), lc_descriptor_json = (\<lambda>_. Inl ''unsupported''), lc_unix_timestamp = (\<lambda>t. t)\<rparr>"

definition empty_journal :: "('d, 'j) live_journal" where
  "empty_journal = \<lparr>lj_path = ''log'', lj_writer = sample_writer, lj_last_hash = genesis_hash, lj_records = [],
     lj_pending_controls = Map.empty, lj_approved_pauses = Map.empty, lj_unpublished = False\<rparr>"

definition sample_record :: "i64 \<Rightarrow> (nat, nat) live_journal_event" where
  "sample_record decided = \<lparr>je_account_id = ''a'', je_seq = 0, je_timestamp = 7, je_payload = PendingTargetControl
     \<lparr>tc_dispatch_id = ''d'', tc_account_id = ''a'', tc_exec_rank = 0, tc_control = \<lparr>co_decided_at_unix = decided,
        co_last_successful_read_unix = Some 6, co_stale_after_secs = 10, co_availability = ControlFresh, co_account_present = True,
        co_requested_mode = Some LiveTiny, co_effective_mode = Some ModeOff, co_credential_version_available = True,
        co_bundle_version = Some 1\<rparr>, tc_outcome = ControlNotArmed\<rparr>\<rparr>"

lemma one_laws: "codec_laws (one_codec i)" "live_codec_laws (one_live ev)"
  by (auto simp: codec_laws_def one_codec_def live_codec_laws_def one_live_def split: if_splits)

lemma empty_holds: "journal_holds C L [] empty_journal"
  by (simp add: journal_holds_def empty_journal_def writer_holds_def sample_writer_def from_file_def HEADER_LEN_def last_hash_def
      decode_observed_def journal_indexed_def index_of_def positions_def)

lemma one_ack:
  "append_synced (one_codec i) None None i sample_writer =
    (Inr \<lparr>ar_sequence = 0, ar_this_hash = sample_hash\<rparr>,
     sample_writer\<lparr>wr_inner := \<lparr>sk_bytes = log_image [] [] @ sample_frame, sk_fault = None\<rparr>, wr_cursor := 14,
       wr_next_seq := 1, wr_last_hash := sample_hash\<rparr>)"
proof -
  have "compute_hashes (one_codec i) (new_hash_input 0 genesis_hash i) = Inr (sample_hash, [123], sample_hash)"
    by (simp add: compute_hashes_def one_codec_def new_hash_input_def)
  moreover have "cd_to_vec (one_codec i) (new_envelope 0 sample_hash genesis_hash sample_hash i) = Inr [1]"
    by (simp add: one_codec_def)
  moreover have "write_frame (one_codec i) \<lparr>sk_bytes = bs, sk_fault = None\<rparr> [1] = (Inr 9, \<lparr>sk_bytes = bs @ sample_frame, sk_fault = None\<rparr>)" for bs
    by (simp add: write_frame_def one_codec_def MAX_FRAME_BYTES_def write_all_def after_write_def sample_frame_def sample_fields_bytes)
  ultimately show ?thesis
    by (simp add: append_synced_def writer_append_def sample_writer_def from_file_def ensure_healthy_def checked_add_def HEADER_LEN_def
        writer_sync_def writer_flush_def)
qed

definition one_input :: envelope_in where "one_input = journal_envelope_in 7 [42]"

definition one_append :: "(nat, nat) live_journal_event \<Rightarrow> (live_journal_error + (nat, nat) live_journal_event) \<times> (nat, nat) live_journal" where
  "one_append ev = journal_append (one_codec one_input) (one_live ev) None None (je_account_id ev) (je_timestamp ev) (je_payload ev) empty_journal"

lemma one_append_result:
  assumes "d = 6 \<or> d = 7"
  shows "fst (one_append (sample_record d)) = (if d = 7 then Inr (sample_record d) else Inl InvalidControlEvidence)"
    and "sk_bytes (wr_inner (lj_writer (snd (one_append (sample_record d))))) = log_image [] [] @ sample_frame"
proof -
  have guard: "published_guard (empty_journal :: (nat, nat) live_journal) = Inr ()" using holds_open [OF empty_holds] .
  have vec: "lc_to_vec (one_live (sample_record d)) (sample_record d) = Inr [42]" for d by (simp add: one_live_def)
  have input: "\<lparr>je_account_id = je_account_id (sample_record d), je_seq = 0, je_timestamp = 7, je_payload = je_payload (sample_record d)\<rparr> =
      sample_record d"
    by (simp add: sample_record_def)
  have ts: "je_timestamp (sample_record d) = 7" by (simp add: sample_record_def)
  have env: "journal_envelope_in 7 [42] = one_input" by (simp add: one_input_def)
  have writer: "lj_writer (empty_journal :: (nat, nat) live_journal) = sample_writer" "length (lj_records (empty_journal :: (nat, nat) live_journal)) = 0"
    by (simp_all add: empty_journal_def)
  have decode: "decode_record (one_live (sample_record d)) (written_envelope (one_codec one_input) \<lparr>ar_sequence = 0, ar_this_hash = sample_hash\<rparr> h 7 [42]) 0 =
      rbind (validate_control_event (one_live (sample_record d)) (sample_record d)) (\<lambda>_. Inr (sample_record d))" for h
    by (simp add: decode_record_def written_envelope_def decode_event_def LIVE_JOURNAL_SCHEMA_VERSION_def) (simp add: one_live_def sample_record_def)
  have valid: "validate_control_event (one_live (sample_record d)) (sample_record d) = (if d = 7 then Inr () else Inl InvalidControlEvidence)"
    using assms by (auto simp: validate_control_event_def control_event_ok_def sample_record_def target_control_ok_def target_control_valid_def
      control_decided_at_def one_live_def not_armed_def control_valid_shape_def control_fresh_time_def checked_sub_i64_def permits_mode_def)
  have result: "one_append (sample_record d) = (if d = 7
     then (Inr (sample_record d), (journal_publish (sample_record d) (empty_journal\<lparr>lj_unpublished := True,
        lj_writer := snd (append_synced (one_codec one_input) None None one_input sample_writer), lj_last_hash := sample_hash\<rparr>))\<lparr>lj_unpublished := False\<rparr>)
     else (Inl InvalidControlEvidence, empty_journal\<lparr>lj_unpublished := True,
        lj_writer := snd (append_synced (one_codec one_input) None None one_input sample_writer)\<rparr>))"
    by (simp add: one_append_def journal_append_def guard ts input vec env writer one_ack decode valid)
  show "fst (one_append (sample_record d)) = (if d = 7 then Inr (sample_record d) else Inl InvalidControlEvidence)"
    "sk_bytes (wr_inner (lj_writer (snd (one_append (sample_record d))))) = log_image [] [] @ sample_frame"
    by (simp_all add: result one_ack)
qed

theorem journal_reads_are_the_replay_witness:
  "replay_all (one_codec one_input) (one_live (sample_record 7)) (sample_file (log_image [] [] @ sample_frame)) = Inr [sample_record 7]"
proof -
  let ?C = "one_codec one_input" and ?L = "one_live (sample_record 7)" and ?r = "sample_record 7"
  let ?op = "\<lparr>jo_flushed = None, jo_synced = None, jo_account = je_account_id ?r, jo_timestamp = je_timestamp ?r, jo_payload = je_payload ?r\<rparr>"
  let ?j = "fold (journal_step ?C ?L) [?op] empty_journal"
  have j: "?j = snd (one_append ?r)" by (simp add: journal_step_def one_append_def)
  have ack: "journal_append ?C ?L None None (je_account_id ?r) (je_timestamp ?r) (je_payload ?r) empty_journal = (Inr ?r, snd (one_append ?r))"
    using one_append_result(1) [of 7] by (simp add: one_append_def prod_eq_iff)
  obtain f e where h: "journal_holds ?C ?L ([] @ [(e, f)]) (snd (one_append ?r))" "lj_records (snd (one_append ?r)) = lj_records empty_journal @ [?r]"
    using empty_holds ack by (rule acknowledged_append)
  then have reads: "records_from ?j 0 = Inr [?r]" unfolding j
    by (simp add: records_from_def holds_open [OF h(1)]) (simp add: empty_journal_def)
  have data: "lf_data (sample_file (log_image [] [] @ sample_frame)) = sk_bytes (wr_inner (lj_writer ?j))"
    unfolding j using one_append_result(2) [of 7] sample_plain by simp
  show ?thesis
    using journal_reads_are_the_replay [OF one_laws(1) empty_holds refl reads sample_plain(1) data, of "''a''" "''d''"] by blast
qed

theorem acknowledged_record_survives_witness:
  "\<exists>j3 bytes rest. journal_open (one_codec one_input) (one_live (sample_record 7)) sample_os (Inr (False, 384)) None
      (sample_file (take 14 (log_image [] [] @ sample_frame))) = (Inr j3, bytes) \<and>
    records_from j3 0 = Inr ([] @ [sample_record 7] @ rest)"
proof -
  let ?C = "one_codec one_input" and ?L = "one_live (sample_record 7)" and ?r = "sample_record 7"
  have ack: "journal_append ?C ?L None None (je_account_id ?r) (je_timestamp ?r) (je_payload ?r) empty_journal = (Inr ?r, snd (one_append ?r))"
    using one_append_result(1) [of 7] by (simp add: one_append_def prod_eq_iff)
  have path: "check_journal_path (Inr (False, 384)) None = Inr ()" by (simp add: check_journal_path_def take_bit_eq_mod)
  have len: "length (log_image [] [] @ sample_frame) = 14" by (simp add: sample_frame_def)
  have recs: "lj_records (empty_journal :: (nat, nat) live_journal) = []" by (simp add: empty_journal_def)
  from acknowledged_record_survives [OF one_laws empty_holds ack, of "[]" "snd (one_append ?r)" 14
      "sample_file (take 14 (log_image [] [] @ sample_frame))" sample_os "Inr (False, 384)" None]
  show ?thesis using sample_plain one_append_result(2) [of 7] len path recs by auto
qed


end
