(* ===== verification/Redemption_Machine.thy ===== *)
theory Redemption_Machine
  imports Live_Journal Second_Classifier
begin

section \<open>The redemption machine (crates/execution-core/src/redemption_machine.rs)\<close>

text \<open>
  The durable redemption state, its reconstruction from journal records, the reducer, the one-pass
  driver, and what the service decides with them. A \<open>HashMap\<close> is a map; \<open>OffsetDateTime\<close> is its instant
  as an integer; a request string is a list of its UTF-8 bytes. The driver takes
  the journal through its one operation: \<open>app n account timestamp payload\<close> is the \<open>n\<close>-th append of the pass.
  The Relayer is the argument \<open>submit\<close> and the status reader the argument \<open>status\<close>.
\<close>

subsection \<open>Requests and answers of the Relayer (crates/venue-polymarket/src/redemption.rs)\<close>

definition REDEMPTION_SCHEMA_VERSION :: u16 where "REDEMPTION_SCHEMA_VERSION = 1"
definition REDEMPTION_PARSER_VERSION :: u16 where "REDEMPTION_PARSER_VERSION = 1"
definition REDEMPTION_ADAPTER_VERSION :: string where "REDEMPTION_ADAPTER_VERSION = ''polymarket-redemption-v1''"

record redemption_call =
  rc_to :: string
  rc_calldata :: bytes
  rc_condition_id :: polymarket_condition_id
  rc_neg_risk :: bool

datatype custody_kind = DepositWallet | Proxy | Safe | Eoa

record relayer_signature_params =
  rs_gas_price :: string
  rs_operation :: string
  rs_safe_txn_gas :: string
  rs_base_gas :: string
  rs_gas_token :: string
  rs_refund_receiver :: string

record signed_redemption_request =
  sr_call :: redemption_call
  sr_custody :: custody_kind
  sr_signer_address :: string
  sr_custody_wallet :: string
  sr_nonce :: string
  sr_signature :: string
  sr_deadline_unix :: "u64 option"
  sr_signature_params :: "relayer_signature_params option"
  sr_metadata :: string

datatype relayer_state = StateNew | StateExecuted | StateMined | StateConfirmed | StateInvalid | StateFailed

record confirmed_redemption =
  cf_transaction_id :: string
  cf_transaction_hash :: string
  cf_submit_body_hash :: string
  cf_evidence :: "raw_http_response list"

datatype redemption_transport_error =
    TransportConfiguration string
  | UnsupportedCustody custody_kind
  | TransportRequest string
  | TransportAuthentication string u16 string
  | TransportRejected string u16 string
  | TransportFailed string string
  | AmbiguousAfterSubmit "string option" string "raw_http_response list" string
  | TransportTerminalFailure string relayer_state "string option" "raw_http_response list"
  | TransportProtocol string string "raw_http_response list"

subsection \<open>The state of an attempt\<close>

definition LIVE_REDEMPTION_SURFACE_AFTER_ATTEMPTS :: u32 where "LIVE_REDEMPTION_SURFACE_AFTER_ATTEMPTS = 3"

datatype redemption_failure_kind =
  FailAuthentication | FailRejected | FailTransport | FailProtocol | FailTerminal | FailInvalidRequest

datatype redemption_attempt_state =
    Idle u32
  | SubmissionReserved u32 collateral_amount string "u64 option"
  | InFlight u32 string string
  | AttemptAmbiguous u32 "string option" string
  | AttemptFailed u32 offset_date_time redemption_failure_kind
  | ConfirmedAwaitingBalance u32 string string offset_date_time
  | AttemptComplete u32 string string offset_date_time collateral_amount

definition default_attempt_state :: redemption_attempt_state where
  "default_attempt_state = Idle 0"

fun attempt_count :: "redemption_attempt_state \<Rightarrow> u32" where
  "attempt_count (Idle n) = n"
| "attempt_count (SubmissionReserved n _ _ _) = n"
| "attempt_count (InFlight n _ _) = n"
| "attempt_count (AttemptAmbiguous n _ _) = n"
| "attempt_count (AttemptFailed n _ _) = n"
| "attempt_count (ConfirmedAwaitingBalance n _ _ _) = n"
| "attempt_count (AttemptComplete n _ _ _ _) = n"

definition submission_deadline_passed :: "(offset_date_time \<Rightarrow> i64) \<Rightarrow> redemption_attempt_state \<Rightarrow> offset_date_time \<Rightarrow> bool" where
  "submission_deadline_passed unix state now =
     (case state of
        SubmissionReserved _ _ _ (Some deadline) \<Rightarrow> 0 \<le> unix now \<and> uint deadline < unix now
      | _ \<Rightarrow> False)"

record redemption_attempt =
  ra_identity :: redemption_attempt_identity
  ra_state :: redemption_attempt_state

type_synonym redemption_attempts = "redemption_attempt_identity \<Rightarrow> redemption_attempt option"

text \<open>
  \<open>trim().is_empty()\<close> on the UTF-8 bytes of a string: only characters with the Unicode property
  White\_Space.
\<close>

fun is_blank_bytes :: "nat list \<Rightarrow> bool" where
  "is_blank_bytes [] = True"
| "is_blank_bytes (a # rest) =
     (if 9 \<le> a \<and> a \<le> 13 \<or> a = 32 then is_blank_bytes rest
      else case rest of
        b # rest1 \<Rightarrow>
          if a = 194 \<and> (b = 133 \<or> b = 160) then is_blank_bytes rest1
          else (case rest1 of
             c # rest2 \<Rightarrow>
               if a = 225 \<and> b = 154 \<and> c = 128
                  \<or> a = 226 \<and> b = 128 \<and> (128 \<le> c \<and> c \<le> 138 \<or> c = 168 \<or> c = 169 \<or> c = 175)
                  \<or> a = 226 \<and> b = 129 \<and> c = 159
                  \<or> a = 227 \<and> b = 128 \<and> c = 128
               then is_blank_bytes rest2 else False
           | [] \<Rightarrow> False)
      | [] \<Rightarrow> False)"

definition is_blank :: "string \<Rightarrow> bool" where
  "is_blank s = is_blank_bytes (map of_char s)"

subsection \<open>Reconstruction from the journal\<close>

definition prior_body_hash :: "redemption_attempt_state \<Rightarrow> string" where
  "prior_body_hash state =
     (case state of InFlight _ _ h \<Rightarrow> h | AttemptAmbiguous _ _ h \<Rightarrow> h | _ \<Rightarrow> [])"

definition receipt_state :: "offset_date_time \<Rightarrow> redemption_receipt_audit \<Rightarrow> string \<Rightarrow> redemption_attempt_state" where
  "receipt_state timestamp audit submit_body_hash =
     (let n = rp_attempt_count audit; i = rp_transaction_id audit in
      case rp_status audit of
        ReceiptPending \<Rightarrow> InFlight n i submit_body_hash
      | ReceiptAmbiguous \<Rightarrow> AttemptAmbiguous n (Some i) submit_body_hash
      | ReceiptConfirmed \<Rightarrow>
          (case rp_transaction_hash audit of
             Some h \<Rightarrow> if \<not> is_blank h then ConfirmedAwaitingBalance n i h timestamp
                       else AttemptAmbiguous n (Some i) submit_body_hash
           | None \<Rightarrow> AttemptAmbiguous n (Some i) submit_body_hash)
      | ReceiptTerminalFailure \<Rightarrow> AttemptFailed n timestamp FailTerminal)"

definition put_attempt :: "redemption_attempt_identity \<Rightarrow> redemption_attempt_state \<Rightarrow> redemption_attempts \<Rightarrow> redemption_attempts" where
  "put_attempt identity state attempts = attempts(identity \<mapsto> \<lparr>ra_identity = identity, ra_state = state\<rparr>)"

definition apply_redemption :: "('d, 'j) live_journal_event \<Rightarrow> redemption_attempts \<Rightarrow> redemption_attempts" where
  "apply_redemption event attempts =
     (case je_payload event of
        RedemptionRequested audit \<Rightarrow>
          put_attempt (rq_identity audit)
            (SubmissionReserved (rq_attempt_count audit) (rq_redeemable_balance audit)
               (rr_request_hash (rq_request audit)) (rr_deadline_unix (rq_request audit))) attempts
      | RedemptionTransactionIdentified audit \<Rightarrow>
          put_attempt (rt_identity audit)
            (InFlight (rt_attempt_count audit) (rt_transaction_id audit) (rt_submit_body_hash audit)) attempts
      | RedemptionReceiptTransition audit \<Rightarrow>
          (case attempts (rp_identity audit) of
             None \<Rightarrow> attempts
           | Some prior \<Rightarrow>
               put_attempt (rp_identity audit)
                 (receipt_state (je_timestamp event) audit (prior_body_hash (ra_state prior))) attempts)
      | RedemptionCustodyReconciled audit \<Rightarrow>
          (case attempts (cr_identity audit) of
             None \<Rightarrow> attempts
           | Some prior \<Rightarrow>
               (case ra_state prior of
                  ConfirmedAwaitingBalance n i h _ \<Rightarrow>
                    put_attempt (cr_identity audit) (AttemptComplete n i h (je_timestamp event) 0) attempts
                | _ \<Rightarrow> attempts))
      | _ \<Rightarrow> attempts)"

definition reconstruct_redemption_attempts :: "('d, 'j) live_journal_event list \<Rightarrow> redemption_attempts" where
  "reconstruct_redemption_attempts events = fold apply_redemption events Map.empty"

subsection \<open>The reducer\<close>

datatype redemption_event =
    ResolvedWinnerBalanceObserved offset_date_time collateral_amount string
  | SubmissionAccepted string string
  | SubmissionConfirmed string string offset_date_time
  | SubmissionAmbiguous "string option" string
  | SubmissionFailed offset_date_time redemption_failure_kind
  | ReconciliationPending
  | ReconciliationConfirmed string offset_date_time
  | ReconciliationAmbiguous
  | ReconciliationFailed offset_date_time redemption_failure_kind
  | BalanceReconciled offset_date_time collateral_amount collateral_amount

datatype redemption_action =
    SubmitOnce string
  | ReconcileExisting string
  | WaitForBackoff offset_date_time
  | AwaitTransactionIdentity
  | ReconcileBalance
  | ProceedsSpendable collateral_amount

definition reserve_submission ::
    "u32 \<Rightarrow> collateral_amount \<Rightarrow> string \<Rightarrow> redemption_attempt_state \<times> redemption_action list" where
  "reserve_submission n balance request_hash =
     (SubmissionReserved (saturating_add n 1) balance request_hash None, [SubmitOnce request_hash])"

definition attempt_transaction_id :: "redemption_attempt_state \<Rightarrow> string option" where
  "attempt_transaction_id state =
     (case state of InFlight _ i _ \<Rightarrow> Some i | AttemptAmbiguous _ (Some i) _ \<Rightarrow> Some i | _ \<Rightarrow> None)"

definition redemption_advance ::
    "(offset_date_time \<Rightarrow> i64) \<Rightarrow> redemption_attempt_state \<Rightarrow> redemption_event
       \<Rightarrow> redemption_attempt_state \<times> redemption_action list" where
  "redemption_advance unix state event =
     (case event of
        ResolvedWinnerBalanceObserved now balance request_hash \<Rightarrow>
          (case state of
             Idle n \<Rightarrow> if 0 < balance then reserve_submission n balance request_hash else (state, [])
           | AttemptComplete n _ _ _ _ \<Rightarrow> if 0 < balance then reserve_submission n balance request_hash else (state, [])
           | AttemptFailed n retry_not_before _ \<Rightarrow>
               if now < retry_not_before then (state, [WaitForBackoff retry_not_before])
               else reserve_submission n balance request_hash
           | SubmissionReserved n _ _ _ \<Rightarrow>
               if submission_deadline_passed unix state now then reserve_submission n balance request_hash
               else (state, [AwaitTransactionIdentity])
           | InFlight _ i _ \<Rightarrow> (state, [ReconcileExisting i])
           | AttemptAmbiguous _ (Some i) _ \<Rightarrow> (state, [ReconcileExisting i])
           | AttemptAmbiguous _ None _ \<Rightarrow> (state, [AwaitTransactionIdentity])
           | ConfirmedAwaitingBalance _ _ _ _ \<Rightarrow> (state, [ReconcileBalance]))
      | SubmissionAccepted i h \<Rightarrow>
          (case state of SubmissionReserved n _ _ _ \<Rightarrow> (InFlight n i h, []) | _ \<Rightarrow> (state, []))
      | SubmissionConfirmed i h confirmed_at \<Rightarrow>
          (case state of
             SubmissionReserved _ _ _ _ \<Rightarrow> (ConfirmedAwaitingBalance (attempt_count state) i h confirmed_at, [ReconcileBalance])
           | InFlight _ _ _ \<Rightarrow> (ConfirmedAwaitingBalance (attempt_count state) i h confirmed_at, [ReconcileBalance])
           | AttemptAmbiguous _ _ _ \<Rightarrow> (ConfirmedAwaitingBalance (attempt_count state) i h confirmed_at, [ReconcileBalance])
           | _ \<Rightarrow> (state, []))
      | SubmissionAmbiguous i h \<Rightarrow>
          (case state of
             SubmissionReserved n _ _ _ \<Rightarrow>
               (AttemptAmbiguous n i h, [case i of None \<Rightarrow> AwaitTransactionIdentity | Some t \<Rightarrow> ReconcileExisting t])
           | _ \<Rightarrow> (state, []))
      | SubmissionFailed retry_not_before failure \<Rightarrow>
          (case state of
             SubmissionReserved n _ _ _ \<Rightarrow> (AttemptFailed n retry_not_before failure, [WaitForBackoff retry_not_before])
           | _ \<Rightarrow> (state, []))
      | ReconciliationPending \<Rightarrow>
          (case state of
             InFlight n i h \<Rightarrow> (InFlight n i h, [])
           | AttemptAmbiguous n (Some i) h \<Rightarrow> (InFlight n i h, [])
           | _ \<Rightarrow> (state, []))
      | ReconciliationConfirmed h confirmed_at \<Rightarrow>
          (case attempt_transaction_id state of
             Some i \<Rightarrow> (ConfirmedAwaitingBalance (attempt_count state) i h confirmed_at, [ReconcileBalance])
           | None \<Rightarrow> (state, []))
      | ReconciliationAmbiguous \<Rightarrow>
          (case state of
             InFlight n i h \<Rightarrow> (AttemptAmbiguous n (Some i) h, [])
           | AttemptAmbiguous n (Some i) h \<Rightarrow> (AttemptAmbiguous n (Some i) h, [])
           | _ \<Rightarrow> (state, []))
      | ReconciliationFailed retry_not_before failure \<Rightarrow>
          (case state of
             InFlight n _ _ \<Rightarrow> (AttemptFailed n retry_not_before failure, [WaitForBackoff retry_not_before])
           | AttemptAmbiguous n _ _ \<Rightarrow> (AttemptFailed n retry_not_before failure, [WaitForBackoff retry_not_before])
           | _ \<Rightarrow> (state, []))
      | BalanceReconciled reconciled_at credited remaining \<Rightarrow>
          (case state of
             ConfirmedAwaitingBalance n i h _ \<Rightarrow>
               (AttemptComplete n i h reconciled_at remaining, if 0 < credited then [ProceedsSpendable credited] else [])
           | _ \<Rightarrow> (state, [])))"

record redemption_posture =
  closes_new_buy_admission :: bool
  surface_prominently :: bool

definition redemption_posture_of :: "redemption_attempt_state \<Rightarrow> redemption_posture" where
  "redemption_posture_of state =
     \<lparr>closes_new_buy_admission =
        (case state of Idle _ \<Rightarrow> False | AttemptComplete _ _ _ _ _ \<Rightarrow> False | _ \<Rightarrow> True),
      surface_prominently =
        (case state of
           SubmissionReserved _ _ _ _ \<Rightarrow> True | InFlight _ _ _ \<Rightarrow> True | AttemptAmbiguous _ _ _ \<Rightarrow> True
         | AttemptFailed _ _ _ \<Rightarrow> True | _ \<Rightarrow> False)
        \<and> LIVE_REDEMPTION_SURFACE_AFTER_ATTEMPTS \<le> attempt_count state\<rparr>"

subsection \<open>One pass of the driver\<close>

datatype redemption_status_observation =
    StatusPending "raw_http_attempt list"
  | StatusConfirmed string "raw_http_attempt list"
  | StatusTerminalFailure "raw_http_attempt list"
  | StatusAmbiguous "raw_http_attempt list"

record redemption_status_read_error =
  re_evidence :: "raw_http_attempt list"

record redemption_pass_input =
  pi_attempt :: redemption_attempt
  pi_now :: offset_date_time
  pi_resolved_winner_redeemable :: collateral_amount
  pi_signed_request :: "signed_redemption_request option"
  pi_request_hash :: "string option"
  pi_retry_not_before_on_failure :: offset_date_time

record redemption_pass_result =
  pr_attempt :: redemption_attempt
  pr_actions :: "redemption_action list"
  pr_failure :: "redemption_failure_kind option"

datatype redemption_driver_error = DriverJournal live_journal_error | MissingRequest | IdentityMismatch

type_synonym ('d, 'j, 's) appender =
  "nat \<Rightarrow> account_id \<Rightarrow> offset_date_time \<Rightarrow> ('d, 'j) live_journal_payload \<Rightarrow> 's
     \<Rightarrow> (live_journal_error + ('d, 'j) live_journal_event) \<times> 's"

definition eq_ignore_ascii_case :: "string \<Rightarrow> string \<Rightarrow> bool" where
  "eq_ignore_ascii_case a b \<longleftrightarrow> to_ascii_lowercase a = to_ascii_lowercase b"

definition validate_request_identity ::
    "redemption_attempt_identity \<Rightarrow> signed_redemption_request \<Rightarrow> redemption_driver_error + unit" where
  "validate_request_identity identity request =
     (if ri_condition_id identity \<noteq> rc_condition_id (sr_call request)
         \<or> \<not> eq_ignore_ascii_case (ri_adapter identity) (rc_to (sr_call request))
         \<or> \<not> eq_ignore_ascii_case (ri_custody_wallet identity) (sr_custody_wallet request)
      then Inl IdentityMismatch else Inr ())"

definition custody_audit :: "custody_kind \<Rightarrow> redemption_custody_audit" where
  "custody_audit custody =
     (case custody of DepositWallet \<Rightarrow> AuditDepositWallet | Proxy \<Rightarrow> AuditProxy | Safe \<Rightarrow> AuditSafe | Eoa \<Rightarrow> AuditEoa)"

definition redemption_request_audit_of :: "codec \<Rightarrow> signed_redemption_request \<Rightarrow> string \<Rightarrow> redemption_request_audit" where
  "redemption_request_audit_of C request request_hash =
     \<lparr>rr_call_to = rc_to (sr_call request), rr_calldata = rc_calldata (sr_call request),
      rr_condition_id = rc_condition_id (sr_call request), rr_neg_risk = rc_neg_risk (sr_call request),
      rr_custody = custody_audit (sr_custody request), rr_signer_address = sr_signer_address request,
      rr_custody_wallet = sr_custody_wallet request, rr_deadline_unix = sr_deadline_unix request,
      rr_metadata_hash = cd_to_hex C (cd_blake3 C (str_bytes (sr_metadata request))), rr_request_hash = request_hash,
      rr_schema_version = REDEMPTION_SCHEMA_VERSION, rr_parser_version = REDEMPTION_PARSER_VERSION,
      rr_adapter_version = REDEMPTION_ADAPTER_VERSION\<rparr>"

text \<open>Running one operation after another on the journal, stopping at the first error.\<close>

definition and_then :: "('e + 'a) \<times> 's \<Rightarrow> ('a \<Rightarrow> 's \<Rightarrow> ('e + 'b) \<times> 's) \<Rightarrow> ('e + 'b) \<times> 's" where
  "and_then r f = (case r of (Inl e, s) \<Rightarrow> (Inl e, s) | (Inr x, s) \<Rightarrow> f x s)"

definition journal_record ::
    "('d, 'j, 's) appender \<Rightarrow> nat \<Rightarrow> redemption_attempt \<Rightarrow> offset_date_time \<Rightarrow> ('d, 'j) live_journal_payload \<Rightarrow> 's
       \<Rightarrow> (redemption_driver_error + unit) \<times> 's" where
  "journal_record app n attempt now payload s =
     (case app n (ri_account_id (ra_identity attempt)) now payload s of
        (Inl e, s') \<Rightarrow> (Inl (DriverJournal e), s')
      | (Inr _, s') \<Rightarrow> (Inr (), s'))"

definition journal_transaction ::
    "codec \<Rightarrow> ('d, 'j) live_codec \<Rightarrow> ('d, 'j, 's) appender \<Rightarrow> nat \<Rightarrow> redemption_attempt \<Rightarrow> offset_date_time
       \<Rightarrow> string \<Rightarrow> string \<Rightarrow> raw_http_attempt list \<Rightarrow> 's \<Rightarrow> (redemption_driver_error + unit) \<times> 's" where
  "journal_transaction C L app n attempt now transaction_id submit_body_hash evidence s =
     (case http_attempt_hashes C L evidence of
        Inl e \<Rightarrow> (Inl (DriverJournal e), s)
      | Inr hashes \<Rightarrow>
          journal_record app n attempt now
            (RedemptionTransactionIdentified
               \<lparr>rt_identity = ra_identity attempt, rt_attempt_count = attempt_count (ra_state attempt),
                rt_transaction_id = transaction_id, rt_submit_body_hash = submit_body_hash, rt_evidence = evidence,
                rt_evidence_hashes = hashes\<rparr>) s)"

definition journal_receipt ::
    "codec \<Rightarrow> ('d, 'j) live_codec \<Rightarrow> ('d, 'j, 's) appender \<Rightarrow> nat \<Rightarrow> redemption_attempt \<Rightarrow> offset_date_time
       \<Rightarrow> string \<Rightarrow> string option \<Rightarrow> redemption_receipt_status_audit \<Rightarrow> raw_http_attempt list \<Rightarrow> 's
       \<Rightarrow> (redemption_driver_error + unit) \<times> 's" where
  "journal_receipt C L app n attempt now transaction_id transaction_hash status evidence s =
     (case http_attempt_hashes C L evidence of
        Inl e \<Rightarrow> (Inl (DriverJournal e), s)
      | Inr hashes \<Rightarrow>
          journal_record app n attempt now
            (RedemptionReceiptTransition
               \<lparr>rp_identity = ra_identity attempt, rp_attempt_count = attempt_count (ra_state attempt),
                rp_transaction_id = transaction_id, rp_transaction_hash = transaction_hash, rp_status = status,
                rp_evidence = evidence, rp_evidence_hashes = hashes\<rparr>) s)"

definition advance_attempt ::
    "(offset_date_time \<Rightarrow> i64) \<Rightarrow> redemption_attempt \<Rightarrow> redemption_event \<Rightarrow> redemption_failure_kind option \<Rightarrow> redemption_pass_result" where
  "advance_attempt unix attempt event failure =
     (let (state, actions) = redemption_advance unix (ra_state attempt) event in
      \<lparr>pr_attempt = attempt\<lparr>ra_state := state\<rparr>, pr_actions = actions, pr_failure = failure\<rparr>)"

definition fail_attempt ::
    "(offset_date_time \<Rightarrow> i64) \<Rightarrow> redemption_attempt \<Rightarrow> offset_date_time \<Rightarrow> redemption_failure_kind \<Rightarrow> redemption_pass_result" where
  "fail_attempt unix attempt retry_not_before failure =
     advance_attempt unix attempt (SubmissionFailed retry_not_before failure) (Some failure)"

definition handle_submission_error ::
    "codec \<Rightarrow> ('d, 'j) live_codec \<Rightarrow> ('d, 'j, 's) appender \<Rightarrow> redemption_attempt \<Rightarrow> redemption_pass_input
       \<Rightarrow> redemption_transport_error \<Rightarrow> 's \<Rightarrow> (redemption_driver_error + redemption_pass_result) \<times> 's" where
  "handle_submission_error C L app attempt input error s =
     (let unix = lc_unix_timestamp L; now = pi_now input;
          fails = (\<lambda>failure s. (Inr (fail_attempt unix attempt (pi_retry_not_before_on_failure input) failure), s)) in
      case error of
        AmbiguousAfterSubmit transaction_id submit_body_hash responses _ \<Rightarrow>
          and_then
            (case transaction_id of
               None \<Rightarrow> (Inr (), s)
             | Some i \<Rightarrow>
                 and_then (journal_transaction C L app 1 attempt now i submit_body_hash (map HttpResponse responses) s) (\<lambda>_.
                   journal_receipt C L app 2 attempt now i None ReceiptAmbiguous (map HttpResponse responses)))
            (\<lambda>_ s'. (Inr (advance_attempt unix attempt (SubmissionAmbiguous transaction_id submit_body_hash)
                            (Some FailTransport)), s'))
      | TransportTerminalFailure i _ _ responses \<Rightarrow>
          and_then (journal_transaction C L app 1 attempt now i ''terminal-failure'' (map HttpResponse responses) s) (\<lambda>_ s1.
          and_then (journal_receipt C L app 2 attempt now i None ReceiptTerminalFailure (map HttpResponse responses) s1) (\<lambda>_.
            fails FailTerminal))
      | TransportAuthentication _ _ _ \<Rightarrow> fails FailAuthentication s
      | TransportRejected _ _ _ \<Rightarrow> fails FailRejected s
      | TransportFailed _ _ \<Rightarrow> fails FailTransport s
      | TransportProtocol _ _ _ \<Rightarrow> fails FailProtocol s
      | TransportConfiguration _ \<Rightarrow> fails FailInvalidRequest s
      | UnsupportedCustody _ \<Rightarrow> fails FailInvalidRequest s
      | TransportRequest _ \<Rightarrow> fails FailInvalidRequest s)"

definition status_outcome ::
    "redemption_pass_input \<Rightarrow> redemption_status_read_error + redemption_status_observation
       \<Rightarrow> redemption_event \<times> redemption_receipt_status_audit \<times> string option \<times> raw_http_attempt list \<times> redemption_failure_kind option" where
  "status_outcome input observation =
     (case observation of
        Inr (StatusPending evidence) \<Rightarrow> (ReconciliationPending, ReceiptPending, None, evidence, None)
      | Inr (StatusConfirmed h evidence) \<Rightarrow>
          (ReconciliationConfirmed h (pi_now input), ReceiptConfirmed, Some h, evidence, None)
      | Inr (StatusTerminalFailure evidence) \<Rightarrow>
          (ReconciliationFailed (pi_retry_not_before_on_failure input) FailTerminal, ReceiptTerminalFailure, None, evidence,
           Some FailTerminal)
      | Inr (StatusAmbiguous evidence) \<Rightarrow> (ReconciliationAmbiguous, ReceiptAmbiguous, None, evidence, Some FailTransport)
      | Inl error \<Rightarrow> (ReconciliationAmbiguous, ReceiptAmbiguous, None, re_evidence error, Some FailTransport))"

definition handle_status_observation ::
    "codec \<Rightarrow> ('d, 'j) live_codec \<Rightarrow> ('d, 'j, 's) appender \<Rightarrow> redemption_attempt \<Rightarrow> redemption_pass_input \<Rightarrow> string
       \<Rightarrow> redemption_status_read_error + redemption_status_observation \<Rightarrow> 's
       \<Rightarrow> (redemption_driver_error + redemption_pass_result) \<times> 's" where
  "handle_status_observation C L app attempt input transaction_id observation s =
     (let (event, status, transaction_hash, evidence, failure) = status_outcome input observation in
      and_then (journal_receipt C L app 0 attempt (pi_now input) transaction_id transaction_hash status evidence s) (\<lambda>_ s'.
        (Inr (advance_attempt (lc_unix_timestamp L) attempt event failure), s')))"

definition submit_redemption ::
    "codec \<Rightarrow> ('d, 'j) live_codec \<Rightarrow> ('d, 'j, 's) appender
       \<Rightarrow> (signed_redemption_request \<Rightarrow> redemption_transport_error + confirmed_redemption)
       \<Rightarrow> redemption_attempt \<Rightarrow> redemption_pass_input \<Rightarrow> string \<Rightarrow> 's
       \<Rightarrow> (redemption_driver_error + redemption_pass_result) \<times> 's" where
  "submit_redemption C L app submit attempt input request_hash s =
     (case pi_signed_request input of
        None \<Rightarrow> (Inl MissingRequest, s)
      | Some request \<Rightarrow>
          if request_hash = [] then (Inl MissingRequest, s)
          else
            (case validate_request_identity (ra_identity attempt) request of
               Inl e \<Rightarrow> (Inl e, s)
             | Inr _ \<Rightarrow>
                 and_then
                   (journal_record app 0 attempt (pi_now input)
                      (RedemptionRequested
                         \<lparr>rq_identity = ra_identity attempt, rq_attempt_count = attempt_count (ra_state attempt),
                          rq_redeemable_balance = pi_resolved_winner_redeemable input,
                          rq_request = redemption_request_audit_of C request request_hash\<rparr>) s)
                   (\<lambda>_ s1.
                      case submit request of
                        Inl error \<Rightarrow> handle_submission_error C L app attempt input error s1
                      | Inr confirmed \<Rightarrow>
                          (let evidence = map HttpResponse (cf_evidence confirmed); i = cf_transaction_id confirmed in
                           and_then (journal_transaction C L app 1 attempt (pi_now input) i (cf_submit_body_hash confirmed) evidence s1) (\<lambda>_ s2.
                           and_then (journal_receipt C L app 2 attempt (pi_now input) i (Some (cf_transaction_hash confirmed))
                                       ReceiptConfirmed evidence s2) (\<lambda>_ s3.
                             (Inr (advance_attempt (lc_unix_timestamp L) attempt
                                (SubmissionConfirmed i (cf_transaction_hash confirmed) (pi_now input)) None), s3)))))))"

definition run_redemption_pass ::
    "codec \<Rightarrow> ('d, 'j) live_codec \<Rightarrow> ('d, 'j, 's) appender
       \<Rightarrow> (signed_redemption_request \<Rightarrow> redemption_transport_error + confirmed_redemption)
       \<Rightarrow> (string \<Rightarrow> redemption_status_read_error + redemption_status_observation)
       \<Rightarrow> redemption_pass_input \<Rightarrow> 's \<Rightarrow> (redemption_driver_error + redemption_pass_result) \<times> 's" where
  "run_redemption_pass C L app submit status input s =
     (let request_hash = (case pi_request_hash input of None \<Rightarrow> [] | Some h \<Rightarrow> h);
          (state, actions) = redemption_advance (lc_unix_timestamp L) (ra_state (pi_attempt input))
            (ResolvedWinnerBalanceObserved (pi_now input) (pi_resolved_winner_redeemable input) request_hash);
          attempt = \<lparr>ra_identity = ra_identity (pi_attempt input), ra_state = state\<rparr>;
          stay = (Inr \<lparr>pr_attempt = attempt, pr_actions = actions, pr_failure = None\<rparr>, s) in
      case actions of
        [] \<Rightarrow> stay
      | action # _ \<Rightarrow>
          (case action of
             SubmitOnce h \<Rightarrow> submit_redemption C L app submit attempt input h s
           | ReconcileExisting i \<Rightarrow> handle_status_observation C L app attempt input i (status i) s
           | _ \<Rightarrow> stay))"

subsection \<open>What the service decides (crates/service/src/live_fanout.rs)\<close>

definition redemption_needs_fresh_submission ::
    "(offset_date_time \<Rightarrow> i64) \<Rightarrow> redemption_attempt_state \<Rightarrow> offset_date_time \<Rightarrow> bool" where
  "redemption_needs_fresh_submission unix state now =
     (case state of
        Idle _ \<Rightarrow> True
      | AttemptComplete _ _ _ _ _ \<Rightarrow> True
      | AttemptFailed _ retry_not_before _ \<Rightarrow> retry_not_before \<le> now
      | SubmissionReserved _ _ _ _ \<Rightarrow> submission_deadline_passed unix state now
      | _ \<Rightarrow> False)"

definition redemption_closure_reason :: "redemption_attempt \<Rightarrow> string option" where
  "redemption_closure_reason attempt =
     (let posture = redemption_posture_of (ra_state attempt) in
      if surface_prominently posture then Some ''redemption unresolved after repeated attempts''
      else if closes_new_buy_admission posture then Some ''redemption pending''
      else None)"

text \<open>The first of the attempts with the least condition, as \<open>min_by\<close> picks it.\<close>

definition min_by_condition :: "redemption_attempt list \<Rightarrow> redemption_attempt option" where
  "min_by_condition attempts =
     fold (\<lambda>a best. case best of
         None \<Rightarrow> Some a
       | Some b \<Rightarrow> if ri_condition_id (ra_identity a) < ri_condition_id (ra_identity b) then Some a else Some b) attempts None"

definition is_complete :: "redemption_attempt_state \<Rightarrow> bool" where
  "is_complete state = (case state of AttemptComplete _ _ _ _ _ \<Rightarrow> True | _ \<Rightarrow> False)"

definition is_confirmed :: "redemption_attempt_state \<Rightarrow> bool" where
  "is_confirmed state = (case state of ConfirmedAwaitingBalance _ _ _ _ \<Rightarrow> True | _ \<Rightarrow> False)"

definition unresolved_attempt :: "redemption_attempt list \<Rightarrow> redemption_attempt option" where
  "unresolved_attempt attempts = min_by_condition (filter (\<lambda>a. \<not> is_complete (ra_state a)) attempts)"

definition ready_for_custody :: "redemption_attempt list \<Rightarrow> redemption_attempt option" where
  "ready_for_custody attempts = min_by_condition (filter (\<lambda>a. is_confirmed (ra_state a)) attempts)"

text \<open>
  One round for an account: an unresolved family is finished before any other starts; it is submitted
  again only when it needs it. \<open>next_family\<close> is the identity of the next listed position.
\<close>

datatype redemption_round =
    NothingToRedeem
  | ReconcileFamily redemption_attempt
  | SubmitFamily redemption_attempt

definition choose_redemption ::
    "(offset_date_time \<Rightarrow> i64) \<Rightarrow> offset_date_time \<Rightarrow> redemption_attempt list \<Rightarrow> redemption_attempt_identity option
       \<Rightarrow> redemption_round" where
  "choose_redemption unix now attempts next_family =
     (case unresolved_attempt attempts of
        Some attempt \<Rightarrow>
          if redemption_needs_fresh_submission unix (ra_state attempt) now then SubmitFamily attempt else ReconcileFamily attempt
      | None \<Rightarrow>
          (case next_family of
             None \<Rightarrow> NothingToRedeem
           | Some identity \<Rightarrow> SubmitFamily \<lparr>ra_identity = identity, ra_state = default_attempt_state\<rparr>))"

end
