(* ===== verification/Redemption_Properties.thy ===== *)
theory Redemption_Properties
  imports Redemption_Machine Journal_Properties
begin

section \<open>Properties of the redemption machine\<close>

text \<open>
  The reconstruction of attempts from records; the contract of a store of records (\<open>record_store\<close>,
  interpreted on the live journal) and what one pass of the driver leaves in it; the service's rounds
  as an inductive relation. The properties: a restart agrees with the running process, redemptions
  never overlap, and a redemption can always be finished.
\<close>

subsection \<open>Reconstruction\<close>

lemma reconstruct_snoc: "reconstruct_redemption_attempts (h @ [ev]) = apply_redemption ev (reconstruct_redemption_attempts h)"
  by (simp add: reconstruct_redemption_attempts_def)

lemma reconstruct_Nil: "reconstruct_redemption_attempts [] = Map.empty"
  by (simp add: reconstruct_redemption_attempts_def)

text \<open>What a record does to the attempt of its own family.\<close>

definition payload_family :: "('d, 'j) live_journal_payload \<Rightarrow> redemption_attempt_identity option" where
  "payload_family p =
     (case p of
        RedemptionRequested a \<Rightarrow> Some (rq_identity a)
      | RedemptionTransactionIdentified a \<Rightarrow> Some (rt_identity a)
      | RedemptionReceiptTransition a \<Rightarrow> Some (rp_identity a)
      | RedemptionCustodyReconciled a \<Rightarrow> Some (cr_identity a)
      | _ \<Rightarrow> None)"

lemma apply_other_family: "payload_family (je_payload ev) \<noteq> Some k \<Longrightarrow> apply_redemption ev m k = m k"
  by (auto simp: apply_redemption_def payload_family_def put_attempt_def
      split: live_journal_payload.splits option.splits redemption_attempt_state.splits)

lemma apply_no_family: "payload_family (je_payload ev) = None \<Longrightarrow> apply_redemption ev m = m"
  by (intro ext apply_other_family) simp

text \<open>Reconstructed attempts are stored under their own identity, and an ambiguous one has its transaction.\<close>

definition attempts_typed :: "redemption_attempts \<Rightarrow> bool" where
  "attempts_typed m \<longleftrightarrow>
     (\<forall>k a. m k = Some a \<longrightarrow> ra_identity a = k \<and> (\<forall>n. ra_state a \<noteq> Idle n) \<and> (\<forall>n h. ra_state a \<noteq> AttemptAmbiguous n None h))"

lemma attempts_typedD: "attempts_typed m \<Longrightarrow> m k = Some a \<Longrightarrow> ra_identity a = k"
  by (auto simp: attempts_typed_def)

lemma put_typed:
  assumes "attempts_typed m" "\<And>n. s \<noteq> Idle n" "\<And>n h. s \<noteq> AttemptAmbiguous n None h"
  shows "attempts_typed (put_attempt k s m)"
  using assms by (simp add: attempts_typed_def put_attempt_def)

lemma receipt_state_typed: "receipt_state t a h \<noteq> Idle n" "receipt_state t a h \<noteq> AttemptAmbiguous n None g"
  by (auto simp: receipt_state_def Let_def split: redemption_receipt_status_audit.splits option.splits)

lemma apply_typed: "attempts_typed m \<Longrightarrow> attempts_typed (apply_redemption ev m)"
  by (auto simp: apply_redemption_def intro!: put_typed receipt_state_typed
      split: live_journal_payload.splits option.splits redemption_attempt_state.splits)

lemma reconstruct_typed: "attempts_typed (reconstruct_redemption_attempts h)"
proof (induction h rule: rev_induct)
  case Nil
  then show ?case by (simp add: reconstruct_Nil attempts_typed_def)
next
  case (snoc ev h)
  then show ?case by (simp add: reconstruct_snoc apply_typed)
qed

subsection \<open>The journal as a store of records\<close>

locale record_store =
  fixes app :: "('d, 'j, 's) appender" and history :: "'s \<Rightarrow> ('d, 'j) live_journal_event list" and holds :: "'s \<Rightarrow> bool"
  assumes accepted: "holds s \<Longrightarrow> app n account t p s = (Inr ev, s') \<Longrightarrow>
      holds s' \<and> history s' = history s @ [ev] \<and> je_account_id ev = account \<and> je_timestamp ev = t \<and> je_payload ev = p"
    and refused: "holds s \<Longrightarrow> app n account t p s = (Inl e, s') \<Longrightarrow> holds s' \<and> history s' = history s"
begin

lemma record_cases:
  assumes "holds s" "journal_record app n a now p s = (res, s')"
  obtains (ok) ev where "res = Inr ()" "holds s'" "history s' = history s @ [ev]" "je_payload ev = p" "je_timestamp ev = now"
      "je_account_id ev = ri_account_id (ra_identity a)"
  | (failed) e where "res = Inl (DriverJournal e)" "history s' = history s"
proof (cases "app n (ri_account_id (ra_identity a)) now p s")
  case (Pair r s1)
  show ?thesis
  proof (cases r)
    case (Inl e)
    then show ?thesis using failed [of e] assms(2) refused [OF assms(1)] Pair by (auto simp: journal_record_def)
  next
    case (Inr ev)
    then show ?thesis using ok [of ev] assms(2) accepted [OF assms(1)] Pair by (auto simp: journal_record_def)
  qed
qed

end

text \<open>An open journal, or a closed one: what a history of appends can leave.\<close>

definition journal_lives :: "codec \<Rightarrow> ('d, 'j) live_codec \<Rightarrow> ('d, 'j) live_journal \<Rightarrow> bool" where
  "journal_lives C L j \<longleftrightarrow> live_codec_laws L \<and> ((\<exists>efs. journal_holds C L efs j) \<or> journal_closed j)"

lemma lives_accepts:
  assumes "journal_lives C L j" "journal_append C L flushed synced account t p j = (Inr ev, j')"
  shows "journal_lives C L j' \<and> lj_records j' = lj_records j @ [ev] \<and> je_account_id ev = account \<and> je_timestamp ev = t \<and> je_payload ev = p"
proof -
  have laws: "live_codec_laws L" using assms(1) by (simp add: journal_lives_def)
  have "\<not> journal_closed j" using assms(2) closed_guard [of j] by (auto simp: closed_append)
  then obtain efs where holds: "journal_holds C L efs j" using assms(1) by (auto simp: journal_lives_def)
  obtain bs e f where a: "lc_to_vec L (next_event j account t p) = Inr bs"
    "e = appended_envelope C efs (journal_envelope_in t bs) (ev_this_hash e)" "decode_record L e (length efs) = Inr ev"
    "journal_holds C L (efs @ [(e, f)]) j'" "lj_records j' = lj_records j @ [ev]"
    using holds assms(2) by (rule acknowledged_append)
  have "ev = next_event j account t p" using appended_event [OF laws holds a(1-3)] .
  with a(4,5) laws show ?thesis by (auto simp: next_event_def journal_lives_def)
qed

lemma lives_refuses:
  assumes "journal_lives C L j" "journal_append C L flushed synced account t p j = (Inl e, j')"
  shows "journal_lives C L j' \<and> lj_records j' = lj_records j"
proof -
  have "journal_lives C L j'"
  proof (cases "journal_closed j")
    case True
    then show ?thesis using assms closed_guard [of j] by (auto simp: closed_append)
  next
    case False
    then obtain efs where "journal_holds C L efs j" using assms(1) by (auto simp: journal_lives_def)
    then show ?thesis using assms(2)
    proof (cases rule: journal_append_cases)
      case (appended bs e f ev)
      from appended(4) show ?thesis by simp
    next
      case (undecoded bs e f err)
      from undecoded(5) have "journal_closed j'" by (simp add: journal_closed_def published_guard_def split: option.splits)
      then show ?thesis using assms(1) by (simp add: journal_lives_def)
    qed (use assms(1) in \<open>auto simp: journal_lives_def\<close>)
  qed
  then show ?thesis using append_error_keeps [OF assms(2)] by simp
qed

interpretation live_store: record_store "\<lambda>n. journal_append C L (fst (io n)) (snd (io n))" lj_records "journal_lives C L"
  for C L io
  by unfold_locales (use lives_accepts lives_refuses in blast)+

subsection \<open>What a pass leaves in the journal\<close>

definition is_request :: "('d, 'j) live_journal_event \<Rightarrow> bool" where
  "is_request ev = (case je_payload ev of RedemptionRequested _ \<Rightarrow> True | _ \<Rightarrow> False)"

definition own_record :: "redemption_attempt_identity \<Rightarrow> offset_date_time \<Rightarrow> ('d, 'j) live_journal_event \<Rightarrow> bool" where
  "own_record k now ev \<longleftrightarrow>
     payload_family (je_payload ev) = Some k \<and> je_account_id ev = ri_account_id k \<and> je_timestamp ev = now"

definition follows ::
    "redemption_attempt_identity \<Rightarrow> offset_date_time \<Rightarrow> ('d, 'j) live_journal_event list \<Rightarrow> ('d, 'j) live_journal_event list \<Rightarrow> bool" where
  "follows k now h h' \<longleftrightarrow> (\<exists>new. h' = h @ new \<and> list_all (\<lambda>ev. own_record k now ev \<and> \<not> is_request ev) new)"

lemma follows_refl [simp]: "follows k now h h"
  by (simp add: follows_def)

lemma follows_trans [trans]: "follows k now h h1 \<Longrightarrow> follows k now h1 h2 \<Longrightarrow> follows k now h h2"
  by (auto simp: follows_def)

lemma follows_snoc: "own_record k now ev \<Longrightarrow> \<not> is_request ev \<Longrightarrow> follows k now h (h @ [ev])"
  by (simp add: follows_def)

text \<open>
  What a replay makes of the state a pass returned. It is that state, except: a submission that failed or was
  lost before its transaction was identified is still reserved, a terminal failure has no backoff
  left, and a confirmation with a blank transaction hash is ambiguous.
\<close>

inductive restart_view :: "redemption_attempt_state \<Rightarrow> redemption_attempt_state option \<Rightarrow> bool" where
  exact: "restart_view s (Some s)"
| fresh: "restart_view (Idle 0) None"
| again: "restart_view (Idle 0) (Some (AttemptComplete n i h t b))"
| unidentified: "failure \<noteq> FailTerminal \<Longrightarrow> restart_view (AttemptFailed n retry failure) (Some (SubmissionReserved n b h d))"
| lost: "restart_view (AttemptAmbiguous n None g) (Some (SubmissionReserved n b h d))"
| terminal: "restart_view (AttemptFailed n retry FailTerminal) (Some (AttemptFailed n t FailTerminal))"
| blank_hash: "is_blank h \<Longrightarrow> restart_view (ConfirmedAwaitingBalance n i h t) (Some (AttemptAmbiguous n (Some i) g))"

definition closes_buys :: "redemption_attempt_state option \<Rightarrow> bool" where
  "closes_buys s = (case s of None \<Rightarrow> False | Some s \<Rightarrow> closes_new_buy_admission (redemption_posture_of s))"

lemma restart_view_closes: "restart_view s t \<Longrightarrow> closes_new_buy_admission (redemption_posture_of s) = closes_buys t"
  by (induction rule: restart_view.induct) (simp_all add: closes_buys_def redemption_posture_of_def)

definition replayed :: "('d, 'j) live_journal_event list \<Rightarrow> redemption_attempt_identity \<Rightarrow> redemption_attempt_state option" where
  "replayed h k = map_option ra_state (reconstruct_redemption_attempts h k)"

lemma replayed_request:
  "je_payload ev = RedemptionRequested a \<Longrightarrow> rq_identity a = k \<Longrightarrow>
     replayed (h @ [ev]) k = Some (SubmissionReserved (rq_attempt_count a) (rq_redeemable_balance a)
       (rr_request_hash (rq_request a)) (rr_deadline_unix (rq_request a)))"
  by (auto simp: replayed_def reconstruct_snoc apply_redemption_def put_attempt_def)

lemma replayed_transaction:
  "je_payload ev = RedemptionTransactionIdentified a \<Longrightarrow> rt_identity a = k \<Longrightarrow>
     replayed (h @ [ev]) k = Some (InFlight (rt_attempt_count a) (rt_transaction_id a) (rt_submit_body_hash a))"
  by (auto simp: replayed_def reconstruct_snoc apply_redemption_def put_attempt_def)

lemma replayed_receipt:
  "je_payload ev = RedemptionReceiptTransition a \<Longrightarrow> rp_identity a = k \<Longrightarrow> replayed h k = Some s \<Longrightarrow>
     replayed (h @ [ev]) k = Some (receipt_state (je_timestamp ev) a (prior_body_hash s))"
  by (auto simp: replayed_def reconstruct_snoc apply_redemption_def put_attempt_def)

lemma receipt_state_eq:
  "receipt_state t \<lparr>rp_identity = k, rp_attempt_count = n, rp_transaction_id = i, rp_transaction_hash = h, rp_status = st,
      rp_evidence = ev, rp_evidence_hashes = hs\<rparr> g =
    (case st of
       ReceiptPending \<Rightarrow> InFlight n i g
     | ReceiptAmbiguous \<Rightarrow> AttemptAmbiguous n (Some i) g
     | ReceiptConfirmed \<Rightarrow>
         (case h of Some h \<Rightarrow> if \<not> is_blank h then ConfirmedAwaitingBalance n i h t else AttemptAmbiguous n (Some i) g
          | None \<Rightarrow> AttemptAmbiguous n (Some i) g)
     | ReceiptTerminalFailure \<Rightarrow> AttemptFailed n t FailTerminal)"
  by (simp add: receipt_state_def Let_def split: redemption_receipt_status_audit.split)

lemma receipt_closes: "closes_new_buy_admission (redemption_posture_of (receipt_state t a g))"
  by (auto simp: receipt_state_def Let_def redemption_posture_of_def split: redemption_receipt_status_audit.splits option.splits)

context record_store begin

lemma transaction_cases:
  assumes "holds s" "journal_transaction C L app n a now i g ev s = (res, s')"
  obtains (ok) "res = Inr ()" "holds s'" "follows (ra_identity a) now (history s) (history s')"
      "replayed (history s') (ra_identity a) = Some (InFlight (attempt_count (ra_state a)) i g)"
  | (failed) e where "res = Inl (DriverJournal e)" "history s' = history s"
proof (cases "http_attempt_hashes C L ev")
  case (Inl e)
  then show ?thesis using failed [of e] assms(2) by (simp add: journal_transaction_def)
next
  case (Inr hs)
  let ?p = "RedemptionTransactionIdentified
    \<lparr>rt_identity = ra_identity a, rt_attempt_count = attempt_count (ra_state a), rt_transaction_id = i,
     rt_submit_body_hash = g, rt_evidence = ev, rt_evidence_hashes = hs\<rparr>"
  have "journal_record app n a now ?p s = (res, s')" using assms(2) Inr by (simp add: journal_transaction_def)
  with assms(1) show ?thesis
  proof (cases rule: record_cases)
    case (ok rec)
    show ?thesis
      by (rule that(1))
        (use ok in \<open>auto simp: own_record_def is_request_def payload_family_def replayed_transaction intro!: follows_snoc\<close>)
  qed (use that(2) in blast)
qed

lemma receipt_cases:
  assumes "holds s" "journal_receipt C L app n a now i h st ev s = (res, s')" "replayed (history s) (ra_identity a) = Some prior"
  obtains (ok) hs where "res = Inr ()" "holds s'" "follows (ra_identity a) now (history s) (history s')"
      "replayed (history s') (ra_identity a) = Some (receipt_state now
         \<lparr>rp_identity = ra_identity a, rp_attempt_count = attempt_count (ra_state a), rp_transaction_id = i,
          rp_transaction_hash = h, rp_status = st, rp_evidence = ev, rp_evidence_hashes = hs\<rparr> (prior_body_hash prior))"
  | (failed) e where "res = Inl (DriverJournal e)" "history s' = history s"
proof (cases "http_attempt_hashes C L ev")
  case (Inl e)
  then show ?thesis using failed [of e] assms(2) by (simp add: journal_receipt_def)
next
  case (Inr hs)
  let ?a = "\<lparr>rp_identity = ra_identity a, rp_attempt_count = attempt_count (ra_state a), rp_transaction_id = i,
     rp_transaction_hash = h, rp_status = st, rp_evidence = ev, rp_evidence_hashes = hs\<rparr>"
  have "journal_record app n a now (RedemptionReceiptTransition ?a) s = (res, s')" using assms(2) Inr by (simp add: journal_receipt_def)
  with assms(1) show ?thesis
  proof (cases rule: record_cases)
    case (ok rec)
    have "replayed (history s') (ra_identity a) = Some (receipt_state now ?a (prior_body_hash prior))"
      using replayed_receipt [OF ok(4) _ assms(3)] ok(3,5) by simp
    moreover have "follows (ra_identity a) now (history s) (history s')"
      using ok by (auto simp: own_record_def is_request_def payload_family_def intro!: follows_snoc)
    ultimately show ?thesis using that(1) [of hs] ok by blast
  qed (use that(2) in blast)
qed

end

lemma and_then_simps [simp]: "and_then (Inl e, s) f = (Inl e, s)" "and_then (Inr x, s) f = f x s"
  by (simp_all add: and_then_def)

lemma and_then_assoc: "and_then r (\<lambda>x s. and_then (f x s) g) = and_then (and_then r f) g"
  by (simp add: and_then_def split: sum.split prod.split)

definition outcome_view :: "redemption_attempt_identity \<Rightarrow> ('d, 'j) live_journal_event list \<Rightarrow> 'e + redemption_pass_result \<Rightarrow> bool" where
  "outcome_view k h res =
     (case res of
        Inl _ \<Rightarrow> closes_buys (replayed h k)
      | Inr r \<Rightarrow> ra_identity (pr_attempt r) = k \<and> restart_view (ra_state (pr_attempt r)) (replayed h k))"

lemma closes_simps [simp]:
  "closes_buys (Some (SubmissionReserved n b h d))" "closes_buys (Some (InFlight n i g))"
  "closes_buys (Some (receipt_state t a g))"
  by (simp_all add: closes_buys_def redemption_posture_of_def receipt_closes [unfolded redemption_posture_of_def, simplified])

context record_store begin

lemma identify_cases:
  assumes "holds s" "and_then (journal_transaction C L app n1 a now i g ev s) (\<lambda>_. journal_receipt C L app n2 a now i h st ev) = (res, s')"
    and "closes_buys (replayed (history s) (ra_identity a))"
  obtains (ok) hs where "res = Inr ()" "holds s'" "follows (ra_identity a) now (history s) (history s')"
      "replayed (history s') (ra_identity a) = Some (receipt_state now
         \<lparr>rp_identity = ra_identity a, rp_attempt_count = attempt_count (ra_state a), rp_transaction_id = i,
          rp_transaction_hash = h, rp_status = st, rp_evidence = ev, rp_evidence_hashes = hs\<rparr> g)"
  | (failed) e where "res = Inl (DriverJournal e)" "follows (ra_identity a) now (history s) (history s')"
      "closes_buys (replayed (history s') (ra_identity a))"
proof -
  obtain r1 s1 where t: "journal_transaction C L app n1 a now i g ev s = (r1, s1)" by (metis surj_pair)
  show ?thesis
  proof (cases rule: transaction_cases [OF assms(1) t])
    case 1
    then have r: "journal_receipt C L app n2 a now i h st ev s1 = (res, s')" using assms(2) t by simp
    show ?thesis
    proof (cases rule: receipt_cases [OF 1(2) r 1(4)])
      case (1 hs)
      then show ?thesis
        using ok [of hs] \<open>follows (ra_identity a) now (history s) (history s1)\<close> by (simp add: prior_body_hash_def follows_trans)
    next
      case (2 e)
      then show ?thesis using failed [of e] 1 by simp
    qed
  next
    case (2 e)
    then show ?thesis using failed [of e] assms t by simp
  qed
qed

lemma submission_error_view:
  assumes s: "holds s" and a: "ra_state a = SubmissionReserved n b h None"
    and prior: "replayed (history s) (ra_identity a) = Some (SubmissionReserved n b' h' d)"
    and run: "handle_submission_error C L app a input err s = (res, s')"
  shows "follows (ra_identity a) (pi_now input) (history s) (history s') \<and> outcome_view (ra_identity a) (history s') res"
proof (cases err)
  case (AmbiguousAfterSubmit i g resp reason)
  show ?thesis
  proof (cases i)
    case None
    with run AmbiguousAfterSubmit a prior show ?thesis
      by (auto simp: handle_submission_error_def advance_attempt_def redemption_advance_def outcome_view_def intro: restart_view.intros)
  next
    case (Some t)
    let ?m = "and_then (journal_transaction C L app 1 a (pi_now input) t g (map HttpResponse resp) s)
      (\<lambda>_. journal_receipt C L app 2 a (pi_now input) t None ReceiptAmbiguous (map HttpResponse resp))"
    obtain r1 s1 where m: "?m = (r1, s1)" by (metis surj_pair)
    show ?thesis
    proof (cases rule: identify_cases [OF s m])
      case (2 hs)
      with run AmbiguousAfterSubmit Some m a show ?thesis
        by (auto simp: handle_submission_error_def advance_attempt_def redemption_advance_def outcome_view_def receipt_state_eq
            intro: restart_view.intros)
    next
      case (3 e)
      with run AmbiguousAfterSubmit Some m show ?thesis by (auto simp: handle_submission_error_def outcome_view_def)
    qed (simp add: prior)
  qed
next
  case (TransportTerminalFailure t st msg resp)
  let ?m = "and_then (journal_transaction C L app 1 a (pi_now input) t ''terminal-failure'' (map HttpResponse resp) s)
    (\<lambda>_. journal_receipt C L app 2 a (pi_now input) t None ReceiptTerminalFailure (map HttpResponse resp))"
  obtain r1 s1 where m: "?m = (r1, s1)" by (metis surj_pair)
  show ?thesis
  proof (cases rule: identify_cases [OF s m])
    case (2 hs)
    with run TransportTerminalFailure m a show ?thesis
      by (auto simp: handle_submission_error_def and_then_assoc fail_attempt_def advance_attempt_def redemption_advance_def
          outcome_view_def receipt_state_eq intro: restart_view.intros)
  next
    case (3 e)
    with run TransportTerminalFailure m show ?thesis by (auto simp: handle_submission_error_def and_then_assoc outcome_view_def)
  qed (simp add: prior)
qed (use run a prior in \<open>auto simp: handle_submission_error_def fail_attempt_def advance_attempt_def redemption_advance_def
      outcome_view_def intro!: restart_view.intros\<close>)

end

text \<open>The attempts a pass is started on: the replayed one, or a new family where none is under way.\<close>

definition journaled :: "('d, 'j) live_journal_event list \<Rightarrow> redemption_attempt \<Rightarrow> bool" where
  "journaled h a =
     (case reconstruct_redemption_attempts h (ra_identity a) of
        None \<Rightarrow> ra_state a = default_attempt_state
      | Some b \<Rightarrow> b = a \<or> is_complete (ra_state b) \<and> ra_state a = default_attempt_state)"

definition pass_records ::
    "redemption_attempt_identity \<Rightarrow> offset_date_time \<Rightarrow> bool \<Rightarrow> ('d, 'j) live_journal_event list \<Rightarrow> ('d, 'j) live_journal_event list \<Rightarrow> bool" where
  "pass_records k now may_submit h h' \<longleftrightarrow>
     follows k now h h' \<or> may_submit \<and> (\<exists>r. own_record k now r \<and> is_request r \<and> follows k now (h @ [r]) h')"

lemma journaled_view: "journaled h a \<Longrightarrow> restart_view (ra_state a) (replayed h (ra_identity a))"
  by (auto simp: journaled_def replayed_def default_attempt_state_def is_complete_def intro: restart_view.intros
      split: option.splits redemption_attempt_state.splits)

lemma journaled_replayed:
  "journaled h a \<Longrightarrow> \<not> (\<exists>n. ra_state a = Idle n) \<Longrightarrow> replayed h (ra_identity a) = Some (ra_state a)"
  by (auto simp: journaled_def replayed_def default_attempt_state_def split: option.splits)

context record_store begin

lemma submit_view:
  assumes s: "holds s" and a: "ra_state a = SubmissionReserved n b h None"
    and run: "submit_redemption C L app submit a input h s = (res, s')"
  shows "history s' = history s \<and> (\<exists>e. res = Inl e) \<or>
    (\<exists>r. own_record (ra_identity a) (pi_now input) r \<and> is_request r \<and>
       follows (ra_identity a) (pi_now input) (history s @ [r]) (history s') \<and> outcome_view (ra_identity a) (history s') res)"
proof -
  consider (refused) "s' = s" "\<exists>e. res = Inl e"
    | (go) request where "pi_signed_request input = Some request" "h \<noteq> []" "validate_request_identity (ra_identity a) request = Inr ()"
    using run by (auto simp: submit_redemption_def split: option.splits sum.splits if_splits)
  then show ?thesis
  proof cases
    case refused
    then show ?thesis by simp
  next
    case (go request)
    let ?q = "\<lparr>rq_identity = ra_identity a, rq_attempt_count = attempt_count (ra_state a),
      rq_redeemable_balance = pi_resolved_winner_redeemable input, rq_request = redemption_request_audit_of C request h\<rparr>"
    let ?k = "\<lambda>s1. case submit request of
        Inl error \<Rightarrow> handle_submission_error C L app a input error s1
      | Inr confirmed \<Rightarrow>
          and_then (and_then (journal_transaction C L app 1 a (pi_now input) (cf_transaction_id confirmed)
             (cf_submit_body_hash confirmed) (map HttpResponse (cf_evidence confirmed)) s1)
             (\<lambda>_. journal_receipt C L app 2 a (pi_now input) (cf_transaction_id confirmed) (Some (cf_transaction_hash confirmed))
               ReceiptConfirmed (map HttpResponse (cf_evidence confirmed))))
           (\<lambda>_ s3. (Inr (advance_attempt (lc_unix_timestamp L) a
              (SubmissionConfirmed (cf_transaction_id confirmed) (cf_transaction_hash confirmed) (pi_now input)) None), s3))"
    obtain r0 s1 where rec: "journal_record app 0 a (pi_now input) (RedemptionRequested ?q) s = (r0, s1)" by (metis surj_pair)
    have step: "and_then (r0, s1) (\<lambda>_. ?k) = (res, s')"
      using run go unfolding submit_redemption_def by (simp add: rec and_then_assoc Let_def cong: sum.case_cong)
    show ?thesis
    proof (cases rule: record_cases [OF s rec])
      case (2 e)
      then show ?thesis using step by auto
    next
      case (1 r)
      have prior: "replayed (history s1) (ra_identity a) = Some (SubmissionReserved n (pi_resolved_winner_redeemable input) h (sr_deadline_unix request))"
        using replayed_request [OF 1(4), of "ra_identity a" "history s"] 1(3) a by (simp add: redemption_request_audit_of_def)
      have r: "own_record (ra_identity a) (pi_now input) r" "is_request r"
        using 1 by (simp_all add: own_record_def is_request_def payload_family_def)
      have k: "?k s1 = (res, s')" using step 1(1) by simp
      have "follows (ra_identity a) (pi_now input) (history s1) (history s') \<and> outcome_view (ra_identity a) (history s') res"
      proof (cases "submit request")
        case (Inl error)
        then show ?thesis using submission_error_view [OF 1(2) a prior] k by simp
      next
        case (Inr confirmed)
        let ?m = "and_then (journal_transaction C L app 1 a (pi_now input) (cf_transaction_id confirmed)
             (cf_submit_body_hash confirmed) (map HttpResponse (cf_evidence confirmed)) s1)
             (\<lambda>_. journal_receipt C L app 2 a (pi_now input) (cf_transaction_id confirmed) (Some (cf_transaction_hash confirmed))
               ReceiptConfirmed (map HttpResponse (cf_evidence confirmed)))"
        obtain r2 s2 where m: "?m = (r2, s2)" by (metis surj_pair)
        show ?thesis
        proof (cases rule: identify_cases [OF 1(2) m])
          case (2 hs)
          then show ?thesis using k Inr m a
            by (auto simp: outcome_view_def advance_attempt_def redemption_advance_def receipt_state_eq intro: restart_view.intros)
        next
          case (3 e)
          then show ?thesis using k Inr m by (auto simp: outcome_view_def)
        qed (simp add: prior)
      qed
      then show ?thesis using r 1(3) by auto
    qed
  qed
qed

lemma status_view:
  assumes s: "holds s" and a: "replayed (history s) (ra_identity a) = Some (ra_state a)" "attempt_transaction_id (ra_state a) = Some i"
    and run: "handle_status_observation C L app a input i observation s = (res, s')"
  shows "follows (ra_identity a) (pi_now input) (history s) (history s') \<and> outcome_view (ra_identity a) (history s') res"
proof -
  obtain n g where st: "ra_state a = InFlight n i g \<or> ra_state a = AttemptAmbiguous n (Some i) g"
    using a(2) by (auto simp: attempt_transaction_id_def split: redemption_attempt_state.splits option.splits)
  obtain event status hash evidence failure where o: "status_outcome input observation = (event, status, hash, evidence, failure)"
    by (metis surj_pair)
  obtain r1 s1 where m: "journal_receipt C L app 0 a (pi_now input) i hash status evidence s = (r1, s1)" by (metis surj_pair)
  have closes: "closes_buys (replayed (history s) (ra_identity a))"
    using st a(1) by (auto simp: closes_buys_def redemption_posture_of_def)
  show ?thesis
  proof (cases rule: receipt_cases [OF s m a(1)])
    case (1 hs)
    have "prior_body_hash (ra_state a) = g" "attempt_count (ra_state a) = n" using st by (auto simp: prior_body_hash_def)
    moreover have "restart_view (fst (redemption_advance (lc_unix_timestamp L) (ra_state a) event))
        (Some (receipt_state (pi_now input) \<lparr>rp_identity = ra_identity a, rp_attempt_count = n, rp_transaction_id = i,
          rp_transaction_hash = hash, rp_status = status, rp_evidence = evidence, rp_evidence_hashes = hs\<rparr> g))"
      using st o by (auto simp: status_outcome_def redemption_advance_def receipt_state_eq attempt_transaction_id_def
          intro: restart_view.intros split: sum.splits redemption_status_observation.splits)
    ultimately show ?thesis using 1 run o m
      by (auto simp: handle_status_observation_def outcome_view_def advance_attempt_def split: prod.splits)
  next
    case (2 e)
    then show ?thesis using run o m closes by (auto simp: handle_status_observation_def outcome_view_def)
  qed
qed

end

lemma advance_submits:
  assumes "redemption_advance unix st (ResolvedWinnerBalanceObserved now balance h) = (st', SubmitOnce h' # rest)"
  shows "h' = h \<and> st' = SubmissionReserved (saturating_add (attempt_count st) 1) balance h None \<and>
    redemption_needs_fresh_submission unix st now"
  using assms by (auto simp: redemption_advance_def reserve_submission_def redemption_needs_fresh_submission_def
      split: redemption_attempt_state.splits option.splits if_splits)

lemma advance_reconciles:
  assumes "redemption_advance unix st (ResolvedWinnerBalanceObserved now balance h) = (st', ReconcileExisting i # rest)"
  shows "st' = st \<and> attempt_transaction_id st = Some i"
  using assms by (auto simp: redemption_advance_def reserve_submission_def attempt_transaction_id_def
      split: redemption_attempt_state.splits option.splits if_splits)

lemma advance_stays:
  assumes "redemption_advance unix st (ResolvedWinnerBalanceObserved now balance h) = (st', acts)"
    and "\<not> (\<exists>h rest. acts = SubmitOnce h # rest)"
  shows "st' = st"
  using assms by (auto simp: redemption_advance_def reserve_submission_def
      split: redemption_attempt_state.splits option.splits if_splits)

context record_store begin

lemma pass_view:
  assumes s: "holds s" and start: "journaled (history s) (pi_attempt input)"
    and run: "run_redemption_pass C L app submit status input s = (res, s')"
  shows "pass_records (ra_identity (pi_attempt input)) (pi_now input)
      (redemption_needs_fresh_submission (lc_unix_timestamp L) (ra_state (pi_attempt input)) (pi_now input)) (history s) (history s')"
    and "(case res of
        Inl _ \<Rightarrow> history s' = history s \<or> closes_buys (replayed (history s') (ra_identity (pi_attempt input)))
      | Inr r \<Rightarrow> ra_identity (pr_attempt r) = ra_identity (pi_attempt input) \<and>
          restart_view (ra_state (pr_attempt r)) (replayed (history s') (ra_identity (pi_attempt input))))"
proof -
  let ?a = "pi_attempt input" and ?u = "lc_unix_timestamp L"
  let ?k = "ra_identity ?a"
  let ?h = "case pi_request_hash input of None \<Rightarrow> [] | Some h \<Rightarrow> h"
  let ?fresh = "redemption_needs_fresh_submission ?u (ra_state ?a) (pi_now input)"
  obtain st acts where adv: "redemption_advance ?u (ra_state ?a)
      (ResolvedWinnerBalanceObserved (pi_now input) (pi_resolved_winner_redeemable input) ?h) = (st, acts)" by (metis surj_pair)
  consider (submit) h rest where "acts = SubmitOnce h # rest" | (reconcile) i rest where "acts = ReconcileExisting i # rest"
    | (stay) "s' = s" "res = Inr \<lparr>pr_attempt = \<lparr>ra_identity = ?k, ra_state = st\<rparr>, pr_actions = acts, pr_failure = None\<rparr>"
        "\<not> (\<exists>h rest. acts = SubmitOnce h # rest)"
    using run adv by (auto simp: run_redemption_pass_def Let_def split: list.splits redemption_action.splits)
  then have "pass_records ?k (pi_now input) ?fresh (history s) (history s') \<and> (case res of
        Inl _ \<Rightarrow> history s' = history s \<or> closes_buys (replayed (history s') ?k)
      | Inr r \<Rightarrow> ra_identity (pr_attempt r) = ?k \<and> restart_view (ra_state (pr_attempt r)) (replayed (history s') ?k))"
  proof cases
    case (submit h rest)
    have st: "h = ?h" "st = SubmissionReserved (saturating_add (attempt_count (ra_state ?a)) 1) (pi_resolved_winner_redeemable input) ?h None" ?fresh
      using advance_submits [OF adv [unfolded submit]] by auto
    have "submit_redemption C L app submit \<lparr>ra_identity = ?k, ra_state = st\<rparr> input ?h s = (res, s')"
      using run adv submit st(1) by (simp add: run_redemption_pass_def)
    from submit_view [OF s _ this, of "saturating_add (attempt_count (ra_state ?a)) 1" "pi_resolved_winner_redeemable input"] st
    show ?thesis by (auto simp: pass_records_def outcome_view_def split: sum.splits)
  next
    case (reconcile i rest)
    have st: "st = ra_state ?a" "attempt_transaction_id (ra_state ?a) = Some i" using advance_reconciles [OF adv [unfolded reconcile]] by auto
    have o: "handle_status_observation C L app \<lparr>ra_identity = ?k, ra_state = ra_state ?a\<rparr> input i (status i) s = (res, s')"
      using run adv reconcile st by (simp add: run_redemption_pass_def)
    have "replayed (history s) ?k = Some (ra_state ?a)"
      using journaled_replayed [OF start] st(2) by (auto simp: attempt_transaction_id_def split: redemption_attempt_state.splits)
    with status_view [OF s _ _ o] st(2) show ?thesis
      by (auto simp: pass_records_def outcome_view_def split: sum.splits)
  next
    case stay
    then show ?thesis using journaled_view [OF start] advance_stays [OF adv] by (auto simp: pass_records_def)
  qed
  then show "pass_records ?k (pi_now input) ?fresh (history s) (history s')"
    and "(case res of
        Inl _ \<Rightarrow> history s' = history s \<or> closes_buys (replayed (history s') ?k)
      | Inr r \<Rightarrow> ra_identity (pr_attempt r) = ?k \<and> restart_view (ra_state (pr_attempt r)) (replayed (history s') ?k))" by auto
qed

end

subsection \<open>Restarting\<close>

text \<open>C7. A restart agrees with the running process. Run one redemption pass on the attempt the journal holds, or
  on a new family, with any answer of the Relayer, of the status reader and of the file system. Rebuilding
  the attempt from the journal then gives the state the pass returned, up to the four documented
  differences, and closes new buys exactly when the returned state does. A pass that fails either
  journaled nothing or leaves a state that closes new buys.\<close>

theorem restart_agrees_with_pass:
  assumes "live_codec_laws L" "journal_holds C L efs j" "journaled (lj_records j) (pi_attempt input)"
    and run: "run_redemption_pass C L (\<lambda>n. journal_append C L (fst (io n)) (snd (io n))) submit status input j = (res, j')"
  shows "case res of
      Inr r \<Rightarrow>
        ra_identity (pr_attempt r) = ra_identity (pi_attempt input) \<and>
        restart_view (ra_state (pr_attempt r)) (replayed (lj_records j') (ra_identity (pi_attempt input))) \<and>
        closes_new_buy_admission (redemption_posture_of (ra_state (pr_attempt r))) =
          closes_buys (replayed (lj_records j') (ra_identity (pi_attempt input)))
    | Inl e \<Rightarrow> lj_records j' = lj_records j \<or> closes_buys (replayed (lj_records j') (ra_identity (pi_attempt input)))"
proof -
  have "journal_lives C L j" using assms by (auto simp: journal_lives_def)
  from live_store.pass_view(2) [OF this assms(3) run] show ?thesis
    using restart_view_closes by (auto split: sum.splits)
qed

subsection \<open>Histories of the service\<close>

definition account_attempts :: "('d, 'j) live_journal_event list \<Rightarrow> account_id \<Rightarrow> redemption_attempt set" where
  "account_attempts h account =
     {a. reconstruct_redemption_attempts h (ra_identity a) = Some a \<and> ri_account_id (ra_identity a) = account}"

text \<open>
  Rounds of the service over one journal, for any accounts in any order: a custody record for a
  confirmed attempt, a redemption pass on the family the service chose, and any other record.
\<close>

inductive redemption_run :: "codec \<Rightarrow> ('d, 'j) live_codec \<Rightarrow> ('d, 'j) live_journal \<Rightarrow> ('d, 'j) live_journal \<Rightarrow> bool"
  for C L j0 where
  start: "redemption_run C L j0 j0"
| other: "redemption_run C L j0 (snd (journal_append C L flushed synced account t p j))"
    if "redemption_run C L j0 j" "payload_family p = None"
| custody: "redemption_run C L j0 (snd (journal_append C L flushed synced account t (RedemptionCustodyReconciled c) j))"
    if "redemption_run C L j0 j" "set attempts = account_attempts (lj_records j) account"
      "ready_for_custody attempts = Some a" "cr_identity c = ra_identity a"
| reconcile: "redemption_run C L j0
      (snd (run_redemption_pass C L (\<lambda>n. journal_append C L (fst (io n)) (snd (io n))) submit status input j))"
    if "redemption_run C L j0 j" "set attempts = account_attempts (lj_records j) account"
      "choose_redemption (lc_unix_timestamp L) (pi_now input) attempts next_family = ReconcileFamily (pi_attempt input)"
      "pi_signed_request input = None" "pi_request_hash input = None"
| submission: "redemption_run C L j0
      (snd (run_redemption_pass C L (\<lambda>n. journal_append C L (fst (io n)) (snd (io n))) submit status input j))"
    if "redemption_run C L j0 j" "set attempts = account_attempts (lj_records j) account"
      "choose_redemption (lc_unix_timestamp L) (pi_now input) attempts next_family = SubmitFamily (pi_attempt input)"
      "case next_family of None \<Rightarrow> True | Some k \<Rightarrow> ri_account_id k = account"

text \<open>
  When a request is journaled, every other family of the account is complete, and the family of the request
  has no earlier request that may still execute: it is new, complete, failed with its backoff over, or its
  unidentified request is past its deadline.
\<close>

definition submissions_settled :: "(offset_date_time \<Rightarrow> i64) \<Rightarrow> ('d, 'j) live_journal_event list \<Rightarrow> bool" where
  "submissions_settled unix h \<longleftrightarrow>
     (\<forall>h1 r h2. h = h1 @ r # h2 \<longrightarrow> is_request r \<longrightarrow>
        (\<forall>b \<in> account_attempts h1 (je_account_id r).
           is_complete (ra_state b) \<or>
           payload_family (je_payload r) = Some (ra_identity b) \<and> redemption_needs_fresh_submission unix (ra_state b) (je_timestamp r)))"

definition one_open_family :: "('d, 'j) live_journal_event list \<Rightarrow> bool" where
  "one_open_family h \<longleftrightarrow>
     (\<forall>account. \<forall>a \<in> account_attempts h account. \<forall>b \<in> account_attempts h account.
        \<not> is_complete (ra_state a) \<longrightarrow> \<not> is_complete (ra_state b) \<longrightarrow> a = b)"

definition request_settled :: "(offset_date_time \<Rightarrow> i64) \<Rightarrow> ('d, 'j) live_journal_event list \<Rightarrow> ('d, 'j) live_journal_event \<Rightarrow> bool" where
  "request_settled unix h r \<longleftrightarrow>
     (\<forall>b \<in> account_attempts h (je_account_id r).
        is_complete (ra_state b) \<or>
        payload_family (je_payload r) = Some (ra_identity b) \<and> redemption_needs_fresh_submission unix (ra_state b) (je_timestamp r))"

lemma settled_snoc:
  "submissions_settled unix (h @ [r]) \<longleftrightarrow> submissions_settled unix h \<and> (is_request r \<longrightarrow> request_settled unix h r)"
proof -
  have split: "h @ [r] = h1 @ x # h2 \<longleftrightarrow> h2 = [] \<and> h1 = h \<and> x = r \<or> (\<exists>h3. h2 = h3 @ [r] \<and> h = h1 @ x # h3)" for h1 x h2
    by (cases h2 rule: rev_cases) auto
  show ?thesis unfolding submissions_settled_def request_settled_def split by blast
qed

lemma settled_follows: "submissions_settled unix h \<Longrightarrow> follows k now h h' \<Longrightarrow> submissions_settled unix h'"
proof -
  assume h: "submissions_settled unix h" and "follows k now h h'"
  then obtain new where h': "h' = h @ new" "list_all (\<lambda>ev. own_record k now ev \<and> \<not> is_request ev) new" by (auto simp: follows_def)
  from h'(2) have "submissions_settled unix (h @ new)"
    by (induction new rule: rev_induct) (simp_all add: h settled_snoc flip: append_assoc)
  then show ?thesis by (simp add: h')
qed

lemma follows_other: "follows k now h h' \<Longrightarrow> k' \<noteq> k \<Longrightarrow> reconstruct_redemption_attempts h' k' = reconstruct_redemption_attempts h k'"
proof -
  assume "follows k now h h'" and k: "k' \<noteq> k"
  then obtain new where h': "h' = h @ new" "list_all (\<lambda>ev. own_record k now ev \<and> \<not> is_request ev) new" by (auto simp: follows_def)
  from h'(2) have "reconstruct_redemption_attempts (h @ new) k' = reconstruct_redemption_attempts h k'"
    by (induction new rule: rev_induct)
      (use k in \<open>auto simp: reconstruct_snoc own_record_def apply_other_family simp flip: append_assoc\<close>)
  then show ?thesis by (simp add: h')
qed

lemma min_by_Some:
  assumes "min_by_condition xs = Some a"
  shows "a \<in> set xs"
proof -
  let ?f = "\<lambda>a best. case best of None \<Rightarrow> Some a
       | Some b \<Rightarrow> if ri_condition_id (ra_identity a) < ri_condition_id (ra_identity b) then Some a else Some b"
  have "fold ?f xs best = Some a \<Longrightarrow> a \<in> set xs \<or> best = Some a" for best
    by (induction xs arbitrary: best) (auto split: option.splits if_splits)
  from this [of None] show ?thesis using assms by (simp add: min_by_condition_def)
qed

lemma min_by_None: "min_by_condition xs = None \<longleftrightarrow> xs = []"
proof -
  let ?f = "\<lambda>a best. case best of None \<Rightarrow> Some a
       | Some b \<Rightarrow> if ri_condition_id (ra_identity a) < ri_condition_id (ra_identity b) then Some a else Some b"
  have "fold ?f ys (Some b) \<noteq> None" for ys b by (induction ys arbitrary: b) auto
  then show ?thesis by (cases xs) (auto simp: min_by_condition_def)
qed

lemma unresolved_Some:
  assumes "set attempts = account_attempts h account" "unresolved_attempt attempts = Some a"
  shows "a \<in> account_attempts h account" "\<not> is_complete (ra_state a)"
  using min_by_Some [OF assms(2) [unfolded unresolved_attempt_def]] assms(1) by auto

lemma unresolved_None:
  assumes "set attempts = account_attempts h account" "unresolved_attempt attempts = None" "b \<in> account_attempts h account"
  shows "is_complete (ra_state b)"
  using assms by (auto simp: unresolved_attempt_def min_by_None filter_empty_conv)

text \<open>The attempt of a round: it may be run on, and the other families of its account are complete.\<close>

definition round_on :: "('d, 'j) live_journal_event list \<Rightarrow> redemption_attempt \<Rightarrow> bool" where
  "round_on h a \<longleftrightarrow>
     journaled h a \<and>
     (\<forall>b \<in> account_attempts h (ri_account_id (ra_identity a)).
        is_complete (ra_state b) \<or> b = a)"

lemma chosen_round:
  assumes open_family: "one_open_family h" and vs: "set attempts = account_attempts h account"
    and choice: "choose_redemption unix now attempts next_family = ReconcileFamily a \<or>
      choose_redemption unix now attempts next_family = SubmitFamily a \<and> (case next_family of None \<Rightarrow> True | Some k \<Rightarrow> ri_account_id k = account)"
  shows "round_on h a"
proof (cases "unresolved_attempt attempts")
  case (Some b)
  then have "b = a" using choice by (auto simp: choose_redemption_def split: if_splits)
  with Some have a: "a \<in> account_attempts h account" "\<not> is_complete (ra_state a)" using unresolved_Some [OF vs] by auto
  then have "is_complete (ra_state c) \<or> c = a" if "c \<in> account_attempts h account" for c
    using open_family that unfolding one_open_family_def by blast
  with a show ?thesis by (auto simp: round_on_def journaled_def account_attempts_def)
next
  case None
  then obtain k where k: "next_family = Some k" "a = \<lparr>ra_identity = k, ra_state = default_attempt_state\<rparr>" "ri_account_id k = account"
    using choice by (auto simp: choose_redemption_def split: option.splits)
  have all: "is_complete (ra_state b)" if "b \<in> account_attempts h account" for b using unresolved_None [OF vs None that] .
  have "is_complete (ra_state b)" if "reconstruct_redemption_attempts h k = Some b" for b
    using all [of b] that k(3) attempts_typedD [OF reconstruct_typed that] by (simp add: account_attempts_def)
  then show ?thesis using all k by (auto simp: round_on_def journaled_def split: option.splits)
qed

lemma open_family_off:
  assumes "one_open_family h" "\<And>b. b \<in> account_attempts h (ri_account_id k) \<Longrightarrow> is_complete (ra_state b) \<or> ra_identity b = k"
    and "\<And>k'. k' \<noteq> k \<Longrightarrow> reconstruct_redemption_attempts h' k' = reconstruct_redemption_attempts h k'"
  shows "one_open_family h'"
  unfolding one_open_family_def
proof (intro allI ballI impI)
  fix account a b
  assume ab: "a \<in> account_attempts h' account" "b \<in> account_attempts h' account" "\<not> is_complete (ra_state a)" "\<not> is_complete (ra_state b)"
  have old: "x \<in> account_attempts h account" if "x \<in> account_attempts h' account" "ra_identity x \<noteq> k" for x
    using that assms(3) by (simp add: account_attempts_def)
  have off: "ra_identity x \<noteq> k \<Longrightarrow> account \<noteq> ri_account_id k" if "x \<in> account_attempts h' account" "\<not> is_complete (ra_state x)" for x
    using old [OF that(1)] that(2) assms(2) by blast
  show "a = b"
  proof (cases "ra_identity a = k \<or> ra_identity b = k")
    case True
    then have "account = ri_account_id k" using ab(1,2) by (auto simp: account_attempts_def)
    then have "ra_identity a = k" "ra_identity b = k" using off [OF ab(1,3)] off [OF ab(2,4)] by blast+
    then show ?thesis using ab(1,2) by (simp add: account_attempts_def)
  next
    case False
    then show ?thesis using ab old assms(1) unfolding one_open_family_def by blast
  qed
qed

lemma pass_off:
  assumes "pass_records k now may_submit h h'" "k' \<noteq> k"
  shows "reconstruct_redemption_attempts h' k' = reconstruct_redemption_attempts h k'"
  using assms(1)
proof (unfold pass_records_def, elim disjE conjE exE)
  fix r assume r: "own_record k now r" "follows k now (h @ [r]) h'"
  then show ?thesis using follows_other [OF r(2) assms(2)] assms(2) by (simp add: reconstruct_snoc apply_other_family own_record_def)
qed (use follows_other assms(2) in blast)

lemma pass_settled:
  assumes h: "submissions_settled unix h" and a: "round_on h a"
    and rec: "pass_records (ra_identity a) now (redemption_needs_fresh_submission unix (ra_state a) now) h h'"
  shows "submissions_settled unix h'"
  using rec
proof (unfold pass_records_def, elim disjE conjE exE)
  assume "follows (ra_identity a) now h h'"
  then show ?thesis using h settled_follows by blast
next
  fix r
  assume fresh: "redemption_needs_fresh_submission unix (ra_state a) now"
    and r: "own_record (ra_identity a) now r" "is_request r" "follows (ra_identity a) now (h @ [r]) h'"
  have "request_settled unix h r"
    using a r(1) fresh by (auto simp: request_settled_def round_on_def own_record_def)
  then show ?thesis using settled_follows [OF _ r(3)] h by (simp add: settled_snoc)
qed

context record_store begin

lemma append_holds:
  assumes "holds s"
  shows "holds (snd (app n account t p s))"
proof (cases "app n account t p s")
  case (Pair r s')
  then show ?thesis using accepted [OF assms, of n account t p _ s'] refused [OF assms, of n account t p _ s'] by (cases r) auto
qed

lemma and_then_holds: "holds (snd r) \<Longrightarrow> (\<And>x s. holds s \<Longrightarrow> holds (snd (f x s))) \<Longrightarrow> holds (snd (and_then r f))"
  by (auto simp: and_then_def split: prod.splits sum.splits)

lemma record_holds: "holds s \<Longrightarrow> holds (snd (journal_record app n a now p s))"
  using append_holds [of s n "ri_account_id (ra_identity a)" now p] by (auto simp: journal_record_def split: prod.splits sum.splits)

lemma transaction_holds: "holds s \<Longrightarrow> holds (snd (journal_transaction C L app n a now i g ev s))"
  by (simp add: journal_transaction_def record_holds split: sum.splits)

lemma receipt_holds: "holds s \<Longrightarrow> holds (snd (journal_receipt C L app n a now i h st ev s))"
  by (simp add: journal_receipt_def record_holds split: sum.splits)

lemma error_holds: "holds s \<Longrightarrow> holds (snd (handle_submission_error C L app a input err s))"
  by (cases err) (auto simp: handle_submission_error_def Let_def intro!: and_then_holds transaction_holds receipt_holds split: option.splits)

lemma submit_holds: "holds s \<Longrightarrow> holds (snd (submit_redemption C L app submit a input h s))"
  by (auto simp: submit_redemption_def Let_def intro!: and_then_holds record_holds transaction_holds receipt_holds error_holds
      split: option.splits sum.splits)

lemma pass_holds: "holds s \<Longrightarrow> holds (snd (run_redemption_pass C L app submit status input s))"
  by (auto simp: run_redemption_pass_def handle_status_observation_def Let_def intro!: and_then_holds receipt_holds submit_holds
      split: prod.splits list.splits redemption_action.splits)

end

lemma lives_append:
  assumes "journal_lives C L j"
  shows "journal_lives C L (snd (journal_append C L flushed synced account t p j))"
    and "lj_records (snd (journal_append C L flushed synced account t p j)) = lj_records j \<or>
      (\<exists>ev. lj_records (snd (journal_append C L flushed synced account t p j)) = lj_records j @ [ev] \<and> je_payload ev = p)"
proof -
  obtain r j' where run: "journal_append C L flushed synced account t p j = (r, j')" by (metis surj_pair)
  have "journal_lives C L j' \<and> (lj_records j' = lj_records j \<or> (\<exists>ev. lj_records j' = lj_records j @ [ev] \<and> je_payload ev = p))"
  proof (cases r)
    case (Inl e)
    then show ?thesis using lives_refuses [OF assms run [unfolded Inl]] by blast
  next
    case (Inr ev)
    then show ?thesis using lives_accepts [OF assms run [unfolded Inr]] by blast
  qed
  then show "journal_lives C L (snd (journal_append C L flushed synced account t p j))"
    and "lj_records (snd (journal_append C L flushed synced account t p j)) = lj_records j \<or>
      (\<exists>ev. lj_records (snd (journal_append C L flushed synced account t p j)) = lj_records j @ [ev] \<and> je_payload ev = p)"
    unfolding run by simp_all
qed

lemma other_keeps:
  assumes "payload_family (je_payload ev) = None"
  shows "one_open_family (h @ [ev]) = one_open_family h" "submissions_settled u (h @ [ev]) = submissions_settled u h"
proof -
  have "account_attempts (h @ [ev]) = account_attempts h" by (simp add: fun_eq_iff account_attempts_def reconstruct_snoc apply_no_family [OF assms])
  then show "one_open_family (h @ [ev]) = one_open_family h" by (simp add: one_open_family_def)
  have "\<not> is_request ev" using assms by (auto simp: is_request_def payload_family_def split: live_journal_payload.splits)
  then show "submissions_settled u (h @ [ev]) = submissions_settled u h" by (simp add: settled_snoc)
qed

lemma custody_keeps:
  assumes h: "one_open_family h" and vs: "set attempts = account_attempts h account" "ready_for_custody attempts = Some a"
    and ev: "je_payload ev = RedemptionCustodyReconciled c" "cr_identity c = ra_identity a"
  shows "one_open_family (h @ [ev])" "submissions_settled u (h @ [ev]) = submissions_settled u h"
proof -
  have a: "a \<in> account_attempts h account" "\<not> is_complete (ra_state a)"
    using min_by_Some [OF vs(2) [unfolded ready_for_custody_def]] vs(1)
    by (auto simp: is_confirmed_def is_complete_def split: redemption_attempt_state.splits)
  show "one_open_family (h @ [ev])"
  proof (rule open_family_off [OF h, of "ra_identity a"])
    fix b assume "b \<in> account_attempts h (ri_account_id (ra_identity a))"
    moreover have "ri_account_id (ra_identity a) = account" using a(1) by (simp add: account_attempts_def)
    ultimately show "is_complete (ra_state b) \<or> ra_identity b = ra_identity a"
      using a h unfolding one_open_family_def by blast
  qed (simp add: reconstruct_snoc payload_family_def apply_other_family ev)
  show "submissions_settled u (h @ [ev]) = submissions_settled u h"
    using ev by (simp add: settled_snoc is_request_def)
qed

lemma round_keeps:
  assumes j: "journal_lives C L j" and "submissions_settled (lc_unix_timestamp L) (lj_records j)" "one_open_family (lj_records j)"
    and on: "round_on (lj_records j) (pi_attempt input)"
  shows "let j' = snd (run_redemption_pass C L (\<lambda>n. journal_append C L (fst (io n)) (snd (io n))) submit status input j) in
    journal_lives C L j' \<and> submissions_settled (lc_unix_timestamp L) (lj_records j') \<and> one_open_family (lj_records j')"
proof -
  let ?p = "run_redemption_pass C L (\<lambda>n. journal_append C L (fst (io n)) (snd (io n))) submit status input j"
  let ?k = "ra_identity (pi_attempt input)"
  obtain res j' where run: "?p = (res, j')" by (metis surj_pair)
  have "journaled (lj_records j) (pi_attempt input)" using on by (simp add: round_on_def)
  from live_store.pass_view(1) [OF j this run]
  have rec: "pass_records ?k (pi_now input) (redemption_needs_fresh_submission (lc_unix_timestamp L) (ra_state (pi_attempt input)) (pi_now input))
    (lj_records j) (lj_records j')" .
  have "one_open_family (lj_records j')"
    by (rule open_family_off [OF assms(3), of ?k]) (use on pass_off [OF rec] in \<open>auto simp: round_on_def\<close>)
  moreover have "journal_lives C L j'" using live_store.pass_holds [OF j, of C L io submit status input] run by simp
  ultimately show ?thesis using pass_settled [OF assms(2) on rec] run by simp
qed

text \<open>C6. Redemptions never overlap. Along every history of rounds of the service, with any answers of the
  Relayer, the status reader and the file system, at most one family of each account is unresolved,
  and a redemption request is journaled only when every other family of its account is complete
  and no earlier request of its own family can still execute.\<close>

theorem no_overlapping_redemptions:
  assumes "live_codec_laws L" "journal_holds C L efs j0"
    and start: "submissions_settled (lc_unix_timestamp L) (lj_records j0)" "one_open_family (lj_records j0)"
    and run: "redemption_run C L j0 j"
  shows "submissions_settled (lc_unix_timestamp L) (lj_records j) \<and> one_open_family (lj_records j)"
proof -
  have "journal_lives C L j \<and> submissions_settled (lc_unix_timestamp L) (lj_records j) \<and> one_open_family (lj_records j)"
    using run
  proof induction
    case start
    then show ?case using assms by (auto simp: journal_lives_def)
  next
    case (other j p flushed synced account t)
    show ?case using lives_append [of C L j flushed synced account t p] other.IH other_keeps other.hyps(2) by metis
  next
    case (custody j attempts account a c flushed synced t)
    show ?case
      using lives_append [of C L j flushed synced account t "RedemptionCustodyReconciled c"] custody.IH
        custody_keeps [OF _ custody.hyps(2,3) _ custody.hyps(4)] by metis
  next
    case (reconcile j attempts account input next_family io submit status)
    have on: "round_on (lj_records j) (pi_attempt input)"
      using chosen_round [of "lj_records j" attempts account "lc_unix_timestamp L" "pi_now input" next_family "pi_attempt input"]
        reconcile.IH reconcile.hyps by blast
    show ?case using round_keeps [OF _ _ _ on, of C L io submit status] reconcile.IH by (simp add: Let_def)
  next
    case (submission j attempts account input next_family io submit status)
    have on: "round_on (lj_records j) (pi_attempt input)"
      using chosen_round [of "lj_records j" attempts account "lc_unix_timestamp L" "pi_now input" next_family "pi_attempt input"]
        submission.IH submission.hyps by blast
    show ?case using round_keeps [OF _ _ _ on, of C L io submit status] submission.IH by (simp add: Let_def)
  qed
  then show ?thesis by blast
qed

subsection \<open>Progress\<close>

text \<open>From this instant on the attempt can be brought to an end.\<close>

definition ready_at :: "(offset_date_time \<Rightarrow> i64) \<Rightarrow> redemption_attempt_state \<Rightarrow> offset_date_time \<Rightarrow> bool" where
  "ready_at unix state now =
     (case state of
        AttemptFailed _ retry_not_before _ \<Rightarrow> retry_not_before \<le> now
      | SubmissionReserved _ _ _ _ \<Rightarrow> submission_deadline_passed unix state now
      | AttemptAmbiguous _ None _ \<Rightarrow> False
      | _ \<Rightarrow> True)"

lemma ready_actions:
  assumes "redemption_advance unix st0 (ResolvedWinnerBalanceObserved now b h) = (st, acts)" "ready_at unix st0 now" "0 < b"
  shows "(\<exists>n b. acts = [SubmitOnce h] \<and> st = SubmissionReserved n b h None) \<or>
    (\<exists>i. acts = [ReconcileExisting i] \<and> st = st0 \<and> attempt_transaction_id st0 = Some i) \<or>
    acts = [ReconcileBalance] \<and> st = st0 \<and> is_confirmed st0"
  using assms
  by (cases st0)
    (auto simp: redemption_advance_def reserve_submission_def ready_at_def attempt_transaction_id_def is_confirmed_def
      split: option.splits if_splits)

lemma hashes_total:
  assumes "\<And>x. \<exists>b. lc_attempt_json L x = Inr b"
  shows "\<exists>hs. http_attempt_hashes C L ev = Inr hs"
proof -
  have one: "\<exists>h. http_attempt_hash C L x = Inr h" for x
    using assms [of "(''prediction-edge/live-http-attempt/v1'', x)"] by (auto simp: http_attempt_hash_def)
  have "\<exists>hs. try_fold (\<lambda>hashes attempt. rbind (http_attempt_hash C L attempt) (\<lambda>h. Inr (hashes @ [h]))) acc ev = Inr hs" for acc
  proof (induction ev arbitrary: acc)
    case (Cons x ev)
    then show ?case using one [of x] by auto
  qed simp
  then show ?thesis by (simp add: http_attempt_hashes_def)
qed

context record_store begin

lemma record_succeeds:
  assumes "holds s" "\<And>n account t p s. holds s \<Longrightarrow> \<exists>ev s'. app n account t p s = (Inr ev, s')"
  shows "\<exists>s'. journal_record app n a now p s = (Inr (), s') \<and> holds s'"
  using assms(2) [OF assms(1), of n "ri_account_id (ra_identity a)" now p] accepted [OF assms(1)]
  by (fastforce simp: journal_record_def)

lemma identify_succeeds:
  assumes s: "holds s" and accepts: "\<And>n account t p s. holds s \<Longrightarrow> \<exists>ev s'. app n account t p s = (Inr ev, s')"
    and encodes: "\<And>x. \<exists>b. lc_attempt_json L x = Inr b"
  shows "\<exists>s'. journal_transaction C L app n a now i g ev s = (Inr (), s') \<and> holds s'"
    and "\<exists>s'. journal_receipt C L app n a now i h st ev s = (Inr (), s') \<and> holds s'"
proof -
  obtain hs where "http_attempt_hashes C L ev = Inr hs" using hashes_total [OF encodes] by blast
  then show "\<exists>s'. journal_transaction C L app n a now i g ev s = (Inr (), s') \<and> holds s'"
    "\<exists>s'. journal_receipt C L app n a now i h st ev s = (Inr (), s') \<and> holds s'"
    using record_succeeds [OF s accepts] by (simp_all add: journal_transaction_def journal_receipt_def)
qed

lemma submit_confirms:
  assumes s: "holds s" and accepts: "\<And>n account t p s. holds s \<Longrightarrow> \<exists>ev s'. app n account t p s = (Inr ev, s')"
    and encodes: "\<And>x. \<exists>b. lc_attempt_json L x = Inr b"
    and request: "pi_signed_request input = Some request" "h \<noteq> []" "validate_request_identity (ra_identity a) request = Inr ()"
    and relayer: "submit request = Inr confirmed" and a: "ra_state a = SubmissionReserved n b h' None"
  shows "\<exists>r s'. submit_redemption C L app submit a input h s = (Inr r, s') \<and>
    ra_state (pr_attempt r) = ConfirmedAwaitingBalance n (cf_transaction_id confirmed) (cf_transaction_hash confirmed) (pi_now input)"
proof -
  let ?now = "pi_now input" and ?ev = "map HttpResponse (cf_evidence confirmed)"
  let ?q = "RedemptionRequested \<lparr>rq_identity = ra_identity a, rq_attempt_count = attempt_count (ra_state a),
    rq_redeemable_balance = pi_resolved_winner_redeemable input, rq_request = redemption_request_audit_of C request h\<rparr>"
  obtain s1 where s1: "journal_record app 0 a ?now ?q s = (Inr (), s1)" "holds s1"
    using record_succeeds [OF s accepts] by blast
  obtain s2 where s2: "journal_transaction C L app 1 a ?now (cf_transaction_id confirmed) (cf_submit_body_hash confirmed) ?ev s1 = (Inr (), s2)" "holds s2"
    using identify_succeeds(1) [OF s1(2) accepts encodes] by blast
  obtain s3 where s3: "journal_receipt C L app 2 a ?now (cf_transaction_id confirmed) (Some (cf_transaction_hash confirmed)) ReceiptConfirmed ?ev s2 = (Inr (), s3)"
    using identify_succeeds(2) [OF s2(2) accepts encodes] by blast
  show ?thesis
    using request relayer s1(1) s2(1) s3 a
    by (simp add: submit_redemption_def Let_def advance_attempt_def redemption_advance_def)
qed

lemma pass_confirms:
  assumes s: "holds s" and accepts: "\<And>n account t p s. holds s \<Longrightarrow> \<exists>ev s'. app n account t p s = (Inr ev, s')"
    and encodes: "\<And>x. \<exists>b. lc_attempt_json L x = Inr b"
    and ready: "ready_at (lc_unix_timestamp L) (ra_state (pi_attempt input)) (pi_now input)"
    and request: "pi_signed_request input = Some request" "pi_request_hash input = Some h" "h \<noteq> []"
      "validate_request_identity (ra_identity (pi_attempt input)) request = Inr ()"
    and balance: "0 < pi_resolved_winner_redeemable input"
    and relayer: "submit request = Inr confirmed" "\<not> is_blank (cf_transaction_hash confirmed)"
    and reader: "\<And>i. \<exists>th ev. status i = Inr (StatusConfirmed th ev) \<and> \<not> is_blank th"
  shows "\<exists>r s' n i th t. run_redemption_pass C L app submit status input s = (Inr r, s') \<and>
    (ra_state (pr_attempt r) = ConfirmedAwaitingBalance n i th t \<and> \<not> is_blank th \<or> ra_state (pr_attempt r) = ra_state (pi_attempt input) \<and>
      is_confirmed (ra_state (pi_attempt input)))"
proof -
  let ?a = "pi_attempt input" and ?u = "lc_unix_timestamp L"
  obtain st acts where adv: "redemption_advance ?u (ra_state ?a)
      (ResolvedWinnerBalanceObserved (pi_now input) (pi_resolved_winner_redeemable input) h) = (st, acts)" by (metis surj_pair)
  consider (submit) n b where "acts = [SubmitOnce h]" "st = SubmissionReserved n b h None"
    | (reconcile) i where "acts = [ReconcileExisting i]" "st = ra_state ?a" "attempt_transaction_id (ra_state ?a) = Some i"
    | (confirmed) "acts = [ReconcileBalance]" "st = ra_state ?a" "is_confirmed (ra_state ?a)"
    using ready_actions [OF adv ready balance] by blast
  then show ?thesis
  proof cases
    case (submit n b)
    let ?a1 = "\<lparr>ra_identity = ra_identity ?a, ra_state = st\<rparr>"
    have "validate_request_identity (ra_identity ?a1) request = Inr ()" "ra_state ?a1 = SubmissionReserved n b h None"
      using request(4) submit by simp_all
    from submit_confirms [where submit = submit and input = input, OF s accepts encodes request(1,3) this(1) relayer(1) this(2), of C]
    show ?thesis using adv request(2) relayer(2) submit by (fastforce simp: run_redemption_pass_def)
  next
    case (reconcile i)
    obtain th ev where th: "status i = Inr (StatusConfirmed th ev)" "\<not> is_blank th" using reader by blast
    obtain s' where "journal_receipt C L app 0 \<lparr>ra_identity = ra_identity ?a, ra_state = ra_state ?a\<rparr> (pi_now input) i (Some th) ReceiptConfirmed ev s = (Inr (), s')"
      using identify_succeeds(2) [OF s accepts encodes] by blast
    then show ?thesis using adv reconcile th request(2)
      by (auto simp: run_redemption_pass_def handle_status_observation_def status_outcome_def advance_attempt_def redemption_advance_def)
  next
    case confirmed
    then show ?thesis using adv request(2) by (auto simp: run_redemption_pass_def)
  qed
qed

end



subsection \<open>Witnesses\<close>

definition no_faults :: "nat \<Rightarrow> io_error option \<times> io_error option" where
  "no_faults n = (None, None)"

definition sample_family :: redemption_attempt_identity where
  "sample_family = \<lparr>ri_account_id = ''a'', ri_condition_id = ''c'', ri_adapter = ''0xad'', ri_custody_wallet = ''0xcw''\<rparr>"

definition sample_request :: signed_redemption_request where
  "sample_request = \<lparr>sr_call = \<lparr>rc_to = ''0xAD'', rc_calldata = [], rc_condition_id = ''c'', rc_neg_risk = False\<rparr>,
     sr_custody = DepositWallet, sr_signer_address = ''0x01'', sr_custody_wallet = ''0xCW'', sr_nonce = ''1'', sr_signature = ''s'',
     sr_deadline_unix = Some 100, sr_signature_params = None, sr_metadata = []\<rparr>"

definition sample_pass :: redemption_pass_input where
  "sample_pass = \<lparr>pi_attempt = \<lparr>ra_identity = sample_family, ra_state = default_attempt_state\<rparr>, pi_now = 7,
     pi_resolved_winner_redeemable = 5, pi_signed_request = Some sample_request, pi_request_hash = Some ''h'',
     pi_retry_not_before_on_failure = 37\<rparr>"

definition sample_requested :: "(nat, nat) live_journal_event" where
  "sample_requested = \<lparr>je_account_id = ''a'', je_seq = 0, je_timestamp = 7, je_payload = RedemptionRequested
     \<lparr>rq_identity = sample_family, rq_attempt_count = 1, rq_redeemable_balance = 5,
      rq_request = redemption_request_audit_of (one_codec one_input) sample_request ''h''\<rparr>\<rparr>"

lemma sample_identity: "validate_request_identity sample_family sample_request = Inr ()"
  by (simp add: validate_request_identity_def sample_family_def sample_request_def eq_ignore_ascii_case_def) code_simp

lemma one_count: "saturating_add 0 (1 :: u32) = 1"
  by (simp add: saturating_add_def)

lemma requested_append:
  "fst (journal_append (one_codec one_input) (one_live sample_requested) None None ''a'' 7 (je_payload sample_requested) empty_journal) =
     Inr sample_requested"
proof -
  have guard: "published_guard (empty_journal :: (nat, nat) live_journal) = Inr ()" using holds_open [OF empty_holds] .
  have vec: "lc_to_vec (one_live sample_requested) sample_requested = Inr [42]" by (simp add: one_live_def)
  have input: "\<lparr>je_account_id = ''a'', je_seq = 0, je_timestamp = 7, je_payload = je_payload sample_requested\<rparr> = sample_requested"
    by (simp add: sample_requested_def)
  have env: "journal_envelope_in 7 [42] = one_input" by (simp add: one_input_def)
  have writer: "lj_writer (empty_journal :: (nat, nat) live_journal) = sample_writer" "length (lj_records (empty_journal :: (nat, nat) live_journal)) = 0"
    by (simp_all add: empty_journal_def)
  have decode: "decode_record (one_live sample_requested) (written_envelope (one_codec one_input) \<lparr>ar_sequence = 0, ar_this_hash = sample_hash\<rparr> h 7 [42]) 0 =
      rbind (validate_control_event (one_live sample_requested) sample_requested) (\<lambda>_. Inr sample_requested)" for h
    by (simp add: decode_record_def written_envelope_def decode_event_def LIVE_JOURNAL_SCHEMA_VERSION_def) (simp add: one_live_def sample_requested_def)
  have valid: "validate_control_event (one_live sample_requested) sample_requested = Inr ()"
    by (simp add: validate_control_event_def control_event_ok_def sample_requested_def)
  show ?thesis by (simp add: journal_append_def guard input vec env writer one_ack decode valid)
qed

theorem restart_agrees_with_pass_witness:
  "closes_buys (replayed (lj_records (snd (run_redemption_pass (one_codec one_input) (one_live sample_requested)
      (\<lambda>n. journal_append (one_codec one_input) (one_live sample_requested) (fst (no_faults n)) (snd (no_faults n))) (\<lambda>_. Inl (TransportRejected ''submit'' 400 []))
      (\<lambda>_. Inl \<lparr>re_evidence = []\<rparr>) sample_pass empty_journal))) sample_family)"
proof -
  let ?C = "one_codec one_input" and ?L = "one_live sample_requested"
  let ?submit = "\<lambda>_. Inl (TransportRejected ''submit'' 400 [])" and ?status = "\<lambda>_. Inl \<lparr>re_evidence = []\<rparr>"
  let ?app = "\<lambda>n. journal_append ?C ?L (fst (no_faults n)) (snd (no_faults n))"
  let ?p = "run_redemption_pass ?C ?L ?app ?submit ?status sample_pass empty_journal"
  have start: "journaled (lj_records (empty_journal :: (nat, nat) live_journal)) (pi_attempt sample_pass)"
    by (simp add: journaled_def empty_journal_def reconstruct_Nil sample_pass_def)
  obtain j1 where app: "journal_append ?C ?L None None ''a'' 7 (je_payload sample_requested) empty_journal = (Inr sample_requested, j1)"
    using requested_append by (metis prod.collapse)
  have rec: "journal_record ?app 0 \<lparr>ra_identity = sample_family, ra_state = SubmissionReserved 1 5 ''h'' None\<rparr> 7
      (RedemptionRequested \<lparr>rq_identity = sample_family, rq_attempt_count = 1, rq_redeemable_balance = 5,
        rq_request = redemption_request_audit_of ?C sample_request ''h''\<rparr>) empty_journal = (Inr (), j1)"
    using app by (simp add: journal_record_def sample_requested_def sample_family_def no_faults_def)
  have run: "?p = (Inr \<lparr>pr_attempt = \<lparr>ra_identity = sample_family, ra_state = AttemptFailed 1 37 FailRejected\<rparr>,
      pr_actions = [WaitForBackoff 37], pr_failure = Some FailRejected\<rparr>, j1)"
    using rec
    by (simp add: run_redemption_pass_def sample_pass_def default_attempt_state_def redemption_advance_def reserve_submission_def one_count
        submit_redemption_def sample_identity handle_submission_error_def fail_attempt_def advance_attempt_def)
  from restart_agrees_with_pass [OF one_laws(2) empty_holds start run]
  have "closes_buys (replayed (lj_records j1) sample_family)" by (simp add: redemption_posture_of_def sample_pass_def)
  then show ?thesis unfolding run by simp
qed

theorem no_overlapping_redemptions_witness:
  "submissions_settled (\<lambda>t. t) (lj_records (snd (run_redemption_pass (one_codec one_input) (one_live sample_requested)
      (\<lambda>n. journal_append (one_codec one_input) (one_live sample_requested) (fst (no_faults n)) (snd (no_faults n))) (\<lambda>_. Inl (TransportRejected ''submit'' 400 []))
      (\<lambda>_. Inl \<lparr>re_evidence = []\<rparr>) sample_pass empty_journal)))"
proof -
  let ?C = "one_codec one_input" and ?L = "one_live sample_requested" and ?j = "empty_journal :: (nat, nat) live_journal"
  have empty: "lj_records ?j = []" by (simp add: empty_journal_def)
  have none: "account_attempts (lj_records ?j) account = {}" for account by (simp add: account_attempts_def empty reconstruct_Nil)
  have start: "submissions_settled (lc_unix_timestamp ?L) (lj_records ?j)" "one_open_family (lj_records ?j)"
    by (simp_all add: submissions_settled_def empty one_open_family_def none [unfolded empty])
  have "redemption_run ?C ?L ?j (snd (run_redemption_pass ?C ?L (\<lambda>n. journal_append ?C ?L (fst (no_faults n)) (snd (no_faults n)))
      (\<lambda>_. Inl (TransportRejected ''submit'' 400 [])) (\<lambda>_. Inl \<lparr>re_evidence = []\<rparr>) sample_pass ?j))"
    by (rule redemption_run.submission [where attempts = "[]" and account = "''a''" and next_family = "Some sample_family", OF redemption_run.start])
      (simp_all add: none choose_redemption_def unresolved_attempt_def min_by_condition_def sample_pass_def sample_family_def)
  from no_overlapping_redemptions [OF one_laws(2) empty_holds start this] show ?thesis by (simp add: one_live_def)
qed




end
