(* ===== verification/Spec2Isabelle.thy ===== *)
theory Spec2Isabelle
  imports Second_Properties Event_Properties Event_Feed Risk_Properties Ladder_Properties Journal_Properties Redemption_Properties
begin

text \<open>
  Verification of the prediction-markets workspace (Rust, \<open>src/crates\<close>): a service that follows the
  trades of selected wallets on a prediction market, reconstructs their positions, decides which of
  their trades to copy, sizes and places the copies, and keeps a hash-chained log of what it did.

  \<^bold>\<open>The parts and how they interact.\<close> The public data API delivers activity rows
  (\<open>source-polymarket-public\<close>), which are grouped, aggregated and turned into ledger mutations
  (\<open>position-ledger\<close>). Mutations of one source second have no order, so a second is applied only when its
  result does not depend on one. The second classifier finds the first entries of a second, the signal
  classifier (\<open>copy-signal-engine\<close>) names what a trade does to a leader's position, the risk engine
  (\<open>risk-engine\<close>) approves or blocks a copy, and the ladder (\<open>venue-polymarket\<close>) turns an amount into an
  order against the book. Every step is recorded in the event log (\<open>event-log\<close>); live orders and redemptions
  are recorded in the live journal (\<open>execution-core\<close>), one event log that is decoded and checked record by record.

  \<^bold>\<open>Conventions.\<close> A \<open>Result\<close> is a sum with \<open>Inl\<close> the error; an operation on \<open>&mut self\<close> takes the state
  and returns its result with the state it leaves, also when it fails. \<open>u64\<close>, \<open>u32\<close>, \<open>u16\<close> and \<open>u8\<close>
  are words of their width; \<open>i32\<close> and \<open>i64\<close> are \<open>int\<close> with the range tests and the wrap-around written
  out; a \<open>String\<close> is a \<open>string\<close> of its bytes. Code that is not under \<open>src\<close> is an argument: the
  operations of \<open>rust_decimal\<close> are the record \<open>decimal_ops\<close> (laws \<open>decimal_value\<close> and
  \<open>decimal_rounds\<close>, instance \<open>exact_decimal\<close>), BLAKE3, zstd, CRC-32 and the JSON codec are the record
  \<open>codec\<close>, and the answers of the operating system are \<open>os_calls\<close>. Collision resistance is never assumed:
  where it matters a theorem ends in an explicit collision.

  \<^bold>\<open>Theories.\<close>
  \<^item> \<open>Prelude\<close>, \<open>Bytes\<close>: machine integers, results, folds that stop at an error, byte encodings.
    \<open>Keyed_Steps\<close> and \<open>Poisoning\<close> are the contracts (locales) of a step that touches only the keys it names
    and of a machine that gives up for good.
  \<^item> \<open>Core_Types\<close>, \<open>Decimal\<close>: \<open>core-types\<close> (amounts, prices, identifiers, wallets) and its decimal part.
  \<^item> \<open>Copy_Signal\<close>: \<open>copy-signal-engine\<close> and the watchlist types of \<open>trader-index\<close>.
  \<^item> \<open>Activity\<close>: the activity groups of \<open>source-polymarket-public/src/activity.rs\<close>.
  \<^item> \<open>Position_Ledger\<close>, \<open>Equal_Second\<close>, \<open>Ledger_Properties\<close>: \<open>position-ledger/src/lib.rs\<close>. Shown: an accepted
    second is independent of its order (through \<open>keyed_steps\<close>, interpreted on the ledger), the one-pass
    check is exact, components partition the second, batches are atomic and touch only what they name,
    trades conserve exposure, redemption residuals are bounded, and what \<open>restore\<close> undoes.
  \<^item> \<open>Second_Classifier\<close>, \<open>Second_Properties\<close>: the first-entry classifier of the same file, plain and
    scoped. Shown: an admitted decision is a first entry and the only one of its market; a scoped second
    stays clear of every dropped scope.
  \<^item> \<open>Event_Frame\<close>, \<open>Event_Scanner\<close>, \<open>Event_Walk\<close>, \<open>Event_Writer\<close>, \<open>Event_Feed\<close>: the files of \<open>event-log\<close>;
    \<open>Event_Images\<close>, \<open>Event_Properties\<close>: durability across a crash, recovery at any cut, integrity of a
    verified tail, the trusted prefix, histories under arbitrary faults, round trips.
  \<^item> \<open>Risk_Engine\<close>, \<open>Risk_Properties\<close>: \<open>risk-engine\<close>. Shown: what an approved canary order satisfies and where
    its additions wrap, the percentile and the hysteresis of the latency switch, the combination of owners,
    the outward rounding of exposures and the resolution credit.
  \<^item> \<open>Fee_Ladder\<close>, \<open>Ladder_Properties\<close>: \<open>venue-polymarket/src/fee.rs\<close> and \<open>ladder.rs\<close>. Shown: a planned buy
    stays within its budget, caps and price band and its fee within the reserve, with the rounding of the
    decimal type bounded; the exact-share walk fills a request exactly.
  \<^item> \<open>Live_Types\<close>, \<open>Live_Journal\<close>, \<open>Journal_Properties\<close>: \<open>execution-core/src/live_journal.rs\<close>, its records, the
    legacy conversion, the decoder, the journal and its replays. \<open>serde_json\<close> is the record \<open>live_codec\<close>. Shown:
    an acknowledged record survives any crash, reads and indexes are the replay of the file, and a refused
    control record closes the journal for good (histories through \<open>poisonable\<close>, interpreted on the journal).
  \<^item> \<open>Redemption_Machine\<close>, \<open>Redemption_Properties\<close>: \<open>execution-core/src/redemption_machine.rs\<close> and the choices of
    \<open>drive_redemptions\<close> in \<open>service/src/live_fanout.rs\<close>. The driver uses the journal through the contract
    \<open>record_store\<close>, interpreted on the live journal. Shown: a restart agrees with the running process,
    redemptions of an account never overlap, and a redemption can always be finished.

  \<^bold>\<open>Termination and fuel.\<close> There is no fuel. Loops over lists are structural; the walks over a file
  terminate because each frame moves the reader forward (\<open>Event_Walk\<close>), and the growth of a component
  because it takes members from the rest.

  \<^bold>\<open>Not modelled.\<close> Network clients, SQLite persistence, the asynchronous service and its panels, offline
  drivers and scripts: their behaviour is the I/O they perform. Serde attributes, human-readable error
  texts, metrics and failure injection are left out of the parts that are modelled.
\<close>

end
